(* ===== verification/Prelude.thy ===== *)
theory Prelude
  imports Main "HOL-Library.Word" "HOL-Library.Product_Lexorder" "HOL-Library.State_Monad"
    "HOL-Library.Multiset"
begin

text \<open>
  Shared ground of the development: the collections of simplification rules the component
  theories fill, the types of the values that travel through every layer (UUIDs, instants,
  32-bit integers), a weakest-precondition calculus for the state monad in which the
  database code is written, the Go idiom \<^verbatim>\<open>if err != nil { return wrap(err) }\<close> as a
  combinator, loops that stop at the first error, and the list lemmas behind keyset
  pagination (a page is a prefix of the rows below a cursor in descending key order).
\<close>

named_theorems wp_simps \<open>equations of the weakest-precondition calculus\<close>
named_theorems sql_defs \<open>definitions of the SQL statements\<close>
named_theorems conv_defs \<open>definitions of the value conversions between layers\<close>

section \<open>Values shared by all layers\<close>

text \<open>A UUID is 16 bytes, compared by PostgreSQL and by Go's byte arrays as an unsigned
  128-bit number. Instants are integers (nanoseconds); Go's \<^verbatim>\<open>int32\<close> is a 32-bit word,
  read with \<^const>\<open>sint\<close>.\<close>

type_synonym uuid = "128 word"
type_synonym time = int
type_synonym int32 = "32 word"

abbreviation uuid_Nil :: uuid where "uuid_Nil \<equiv> 0"

section \<open>State monad: weakest preconditions\<close>

definition wp :: "('s, 'a) state \<Rightarrow> ('a \<Rightarrow> 's \<Rightarrow> bool) \<Rightarrow> 's \<Rightarrow> bool" where
  "wp m Q s = (case run_state m s of (x, s') \<Rightarrow> Q x s')"

lemma wp_run: "wp m Q s \<longleftrightarrow> Q (fst (run_state m s)) (snd (run_state m s))"
  by (simp add: wp_def split_beta)

lemma wp_return [wp_simps]: "wp (State_Monad.return x) Q = Q x"
  by (simp add: wp_def fun_eq_iff)

lemma wp_bind [wp_simps]: "wp (State_Monad.bind m f) Q = wp m (\<lambda>x. wp (f x) Q)"
  by (simp add: wp_def split_beta fun_eq_iff)

lemma wp_if [wp_simps]: "wp (if b then m else n) Q = (if b then wp m Q else wp n Q)"
  by simp

lemma wp_mono: "wp m P s \<Longrightarrow> (\<And>x s'. P x s' \<Longrightarrow> Q x s') \<Longrightarrow> wp m Q s"
  by (auto simp: wp_def split: prod.splits)

lemma wp_conj: "wp m P s \<Longrightarrow> wp m Q s \<Longrightarrow> wp m (\<lambda>x s'. P x s' \<and> Q x s') s"
  by (auto simp: wp_def split: prod.splits)

lemma wpD: "run_state m s = (x, s') \<Longrightarrow> wp m Q s \<Longrightarrow> Q x s'"
  by (simp add: wp_def)

lemma wpI: "(\<And>x s'. run_state m s = (x, s') \<Longrightarrow> Q x s') \<Longrightarrow> wp m Q s"
  by (simp add: wp_def split: prod.splits)

section \<open>The Go error idiom\<close>

text \<open>\<open>check m h k\<close> is \<^verbatim>\<open>x, err := m; if err != nil { return h(err) }; k(x)\<close>.\<close>

definition check ::
  "('s, 'e + 'a) state \<Rightarrow> ('e \<Rightarrow> 'f) \<Rightarrow> ('a \<Rightarrow> ('s, 'f + 'b) state) \<Rightarrow> ('s, 'f + 'b) state" where
  "check m h k = do { r \<leftarrow> m;
     (case r of Inl e \<Rightarrow> State_Monad.return (Inl (h e)) | Inr x \<Rightarrow> k x) }"

lemma wp_check [wp_simps]:
  "wp (check m h k) Q =
     wp m (\<lambda>r. case r of Inl e \<Rightarrow> Q (Inl (h e)) | Inr x \<Rightarrow> wp (k x) Q)"
  unfolding check_def wp_bind
  by (intro arg_cong [where f = "wp m"] ext) (simp add: wp_return split: sum.split)

lemma run_check:
  "run_state (check m h k) s =
     (case run_state m s of (Inl e, s') \<Rightarrow> (Inl (h e), s') | (Inr x, s') \<Rightarrow> run_state (k x) s')"
  by (auto simp: check_def split: sum.splits prod.splits)

text \<open>The pure form of the same idiom.\<close>

definition checked :: "'e + 'a \<Rightarrow> ('e \<Rightarrow> 'f) \<Rightarrow> ('a \<Rightarrow> 'f + 'b) \<Rightarrow> 'f + 'b" where
  "checked r h k = (case r of Inl e \<Rightarrow> Inl (h e) | Inr x \<Rightarrow> k x)"

lemma checked_simps [simp]:
  "checked (Inl e) h k = Inl (h e)"
  "checked (Inr x) h k = k x"
  by (simp_all add: checked_def)

lemma checked_Inr_iff: "checked r h k = Inr y \<longleftrightarrow> (\<exists>x. r = Inr x \<and> k x = Inr y)"
  by (cases r) simp_all

text \<open>A \<^verbatim>\<open>for ... range\<close> loop that appends a converted element and returns at the first error.\<close>

fun map_err :: "('a \<Rightarrow> 'e + 'b) \<Rightarrow> 'a list \<Rightarrow> 'e + 'b list" where
  "map_err f [] = Inr []"
| "map_err f (x # xs) =
     (case f x of Inl e \<Rightarrow> Inl e
      | Inr y \<Rightarrow> (case map_err f xs of Inl e \<Rightarrow> Inl e | Inr ys \<Rightarrow> Inr (y # ys)))"

lemma map_err_Inr_iff: "map_err f xs = Inr ys \<longleftrightarrow> list_all2 (\<lambda>x y. f x = Inr y) xs ys"
proof (induction xs arbitrary: ys)
  case (Cons x xs)
  show ?case
  proof (cases ys)
    case (Cons y ys')
    show ?thesis
      by (cases "map_err f xs") (auto simp: Cons Cons.IH [symmetric] split: sum.splits)
  qed (auto split: sum.splits)
qed auto

lemma map_err_total: "(\<And>x. x \<in> set xs \<Longrightarrow> f x = Inr (g x)) \<Longrightarrow> map_err f xs = Inr (map g xs)"
  by (induction xs) simp_all

lemma map_err_Inl: "map_err f xs = Inl e \<Longrightarrow> \<exists>x \<in> set xs. f x = Inl e"
  by (induction xs) (auto split: sum.splits)

lemma map_err_length: "map_err f xs = Inr ys \<Longrightarrow> length ys = length xs"
  by (auto simp: map_err_Inr_iff dest: list_all2_lengthD)

section \<open>Splitting at a separator\<close>

fun split_on :: "'a \<Rightarrow> 'a list \<Rightarrow> 'a list list" where
  "split_on c [] = [[]]"
| "split_on c (x # xs) =
     (if x = c then [] # split_on c xs
      else case split_on c xs of [] \<Rightarrow> [[x]] | w # ws \<Rightarrow> (x # w) # ws)"

lemma split_on_first: "c \<notin> set w \<Longrightarrow> split_on c (w @ c # xs) = w # split_on c xs"
  by (induction w) auto

lemma split_on_nonempty [simp]: "split_on c xs \<noteq> []"
  by (cases xs) (auto split: list.split)

lemma split_on_single: "c \<notin> set w \<Longrightarrow> split_on c w = [w]"
  by (induction w) auto

lemma split_on_concat: "split_on c xs = w # ws \<Longrightarrow> xs = w @ concat (map ((#) c) ws)"
proof (induction xs arbitrary: w ws)
  case (Cons x xs)
  obtain v vs where v: "split_on c xs = v # vs" by (cases "split_on c xs") auto
  with Cons.prems have "ws = (if x = c then v # vs else vs)" "w = (if x = c then [] else x # v)"
    by (auto split: if_splits)
  then show ?case using Cons.IH [OF v] by simp
qed auto

lemma split_on_last: "c \<notin> set w \<Longrightarrow> split_on c (xs @ c # w) = split_on c xs @ [w]"
  by (induction xs) (auto simp: split_on_single split: list.split)

section \<open>Rows in descending key order\<close>

definition order_desc :: "('r \<Rightarrow> 'k::linorder) \<Rightarrow> 'r list \<Rightarrow> 'r list" where
  "order_desc key rows = rev (sort_key key rows)"

lemma set_order_desc [simp]: "set (order_desc key rows) = set rows"
  by (simp add: order_desc_def)

lemma length_order_desc [simp]: "length (order_desc key rows) = length rows"
  by (simp add: order_desc_def)

lemma distinct_order_desc [simp]:
  "distinct (map key (order_desc key rows)) = distinct (map key rows)"
proof -
  have "mset (map key (order_desc key rows)) = mset (map key rows)"
    by (simp add: order_desc_def)
  then show ?thesis by (rule mset_eq_imp_distinct_iff)
qed

text \<open>Descending order, strict as soon as the keys are distinct.\<close>

lemma sorted_order_desc: "sorted_wrt (\<lambda>a b. key b \<le> key a) (order_desc key rows)"
proof -
  have "sorted_wrt (\<lambda>a b. key a \<le> key b) (sort_key key rows)"
    using sorted_sort_key [of key rows] by (simp add: sorted_wrt_map)
  then show ?thesis by (simp add: order_desc_def sorted_wrt_rev)
qed

lemma strict_sorted_order_desc:
  assumes "distinct (map key rows)"
  shows "sorted_wrt (\<lambda>a b. key b < key a) (order_desc key rows)"
proof -
  have "sorted_wrt (\<lambda>a b. key b \<le> key a \<and> key b \<noteq> key a) (order_desc key rows)"
    using sorted_order_desc [of key rows] distinct_order_desc [of key rows] assms
    by (auto simp: sorted_wrt_iff_nth_less distinct_conv_nth)
  then show ?thesis
    by (rule sorted_wrt_mono_rel [rotated]) auto
qed

lemma filter_order_desc: "filter P (order_desc key rows) = order_desc key (filter P rows)"
  by (simp add: order_desc_def filter_sort rev_filter [symmetric])

text \<open>The rows below the key of the last element of a prefix are the rest of the list.\<close>

lemma strict_desc_filter_below:
  fixes key :: "'r \<Rightarrow> 'k::linorder"
  assumes "sorted_wrt (\<lambda>a b. key b < key a) rows" and "0 < n" and "n \<le> length rows"
  shows "filter (\<lambda>r. key r < key (rows ! (n - 1))) rows = drop n rows"
proof -
  have split: "rows = take n rows @ drop n rows" by simp
  have hi: "key (rows ! (n - 1)) \<le> key r" if "r \<in> set (take n rows)" for r
  proof -
    from that obtain i where i: "i < n" "i < length rows" "r = rows ! i"
      by (auto simp: in_set_conv_nth)
    show ?thesis
    proof (cases "i = n - 1")
      case False
      with i assms have "key (rows ! (n - 1)) < key (rows ! i)"
        by (intro sorted_wrt_nth_less [OF assms(1)]) auto
      with i show ?thesis by simp
    qed (use i in simp)
  qed
  have lo: "key r < key (rows ! (n - 1))" if "r \<in> set (drop n rows)" for r
  proof -
    from that obtain i where "i < length rows - n" "r = rows ! (n + i)"
      by (auto simp: in_set_conv_nth)
    with assms show ?thesis by (auto simp: sorted_wrt_iff_nth_less)
  qed
  have "filter (\<lambda>r. key r < key (rows ! (n - 1))) (take n rows) = []"
    using hi by (auto simp: filter_empty_conv not_less)
  moreover have "filter (\<lambda>r. key r < key (rows ! (n - 1))) (drop n rows) = drop n rows"
    using lo by (simp add: filter_id_conv)
  ultimately show ?thesis
    by (subst split, subst filter_append) simp
qed

section \<open>The first row that satisfies a condition\<close>

lemma find_append_old: "find P xs = Some r \<Longrightarrow> find P (xs @ ys) = Some r"
  by (induction xs) auto

lemma find_append_new: "\<forall>r \<in> set xs. \<not> P r \<Longrightarrow> P x \<Longrightarrow> find P (xs @ [x]) = Some x"
  by (induction xs) auto

end
