(* ===== verification/Externals.thy ===== *)
theory Externals
  imports Prelude
begin

text \<open>
  The code the services call but do not own, as parameters of the model: the packages
  \<^verbatim>\<open>github.com/google/uuid\<close> and \<^verbatim>\<open>timestamppb\<close>, the clock of the process and the clock
  of the database. Every operation that uses one of them takes an \<open>env\<close>; what it returns is
  arbitrary unless a theorem assumes \<open>env_ok\<close>, the documented behaviour of those packages.
\<close>

text \<open>\<^verbatim>\<open>google.protobuf.Timestamp\<close>: the two fields of the message.\<close>

record Timestamp =
  ts_Seconds :: int
  ts_Nanos :: int

record env =
  uuid_New :: uuid                          \<comment> \<open>the UUID the operation's call of \<^verbatim>\<open>uuid.New\<close> returns\<close>
  uuid_Parse :: "string \<Rightarrow> uuid option"      \<comment> \<open>\<^verbatim>\<open>uuid.Parse\<close>, None for an error\<close>
  uuid_String :: "uuid \<Rightarrow> string"            \<comment> \<open>\<^verbatim>\<open>UUID.String\<close>\<close>
  uuid_FromBytes :: "uuid \<Rightarrow> uuid option"    \<comment> \<open>\<^verbatim>\<open>uuid.FromBytes\<close> on 16 bytes\<close>
  time_Now :: time                          \<comment> \<open>\<^verbatim>\<open>time.Now()\<close> in the service\<close>
  db_NOW :: time                            \<comment> \<open>\<^verbatim>\<open>NOW()\<close> of the operation's transaction\<close>
  timestamppb_New :: "time \<Rightarrow> Timestamp"
  timestamppb_AsTime :: "Timestamp \<Rightarrow> time"

definition env_ok :: "env \<Rightarrow> bool" where
  "env_ok E \<longleftrightarrow>
     (\<forall>u. uuid_Parse E (uuid_String E u) = Some u) \<and>
     (\<forall>b. uuid_FromBytes E b = Some b) \<and>
     (\<forall>t. timestamppb_AsTime E (timestamppb_New E t) = t)"

lemma env_okD [simp]:
  assumes "env_ok E"
  shows "uuid_Parse E (uuid_String E u) = Some u"
    and "uuid_FromBytes E b = Some b"
    and "timestamppb_AsTime E (timestamppb_New E t) = t"
  using assms by (simp_all add: env_ok_def)

section \<open>Status codes of gRPC\<close>

text \<open>The codes of \<^verbatim>\<open>google.golang.org/grpc/codes\<close> other than OK.\<close>

datatype grpc_code =
    Code_Canceled | Code_Unknown | Code_InvalidArgument | Code_DeadlineExceeded | Code_NotFound
  | Code_AlreadyExists | Code_PermissionDenied | Code_ResourceExhausted | Code_FailedPrecondition
  | Code_Aborted | Code_OutOfRange | Code_Unimplemented | Code_Internal | Code_Unavailable
  | Code_DataLoss | Code_Unauthenticated

section \<open>A concrete environment\<close>

text \<open>
  An environment that satisfies \<open>env_ok\<close>, for the witnesses: UUIDs in the canonical
  8-4-4-4-12 form of lower-case hexadecimal digits, timestamps as seconds and nanoseconds.
\<close>

definition hex_digit :: "nat \<Rightarrow> char" where
  "hex_digit n = ''0123456789abcdef'' ! (n mod 16)"

fun hex_value :: "char \<Rightarrow> nat option" where
  "hex_value ch = (case find (\<lambda>n. hex_digit n = ch) [0..<16] of None \<Rightarrow> None | Some n \<Rightarrow> Some n)"

fun hex_of :: "nat \<Rightarrow> nat \<Rightarrow> string" where
  "hex_of 0 n = []"
| "hex_of (Suc k) n = hex_of k (n div 16) @ [hex_digit n]"

fun of_hex :: "string \<Rightarrow> nat \<Rightarrow> nat option" where
  "of_hex [] acc = Some acc"
| "of_hex (ch # s) acc = (case hex_value ch of None \<Rightarrow> None | Some v \<Rightarrow> of_hex s (16 * acc + v))"

definition canon_String :: "uuid \<Rightarrow> string" where
  "canon_String u = (let h = hex_of 32 (unat u) in
     take 8 h @ ''-'' @ take 4 (drop 8 h) @ ''-'' @ take 4 (drop 12 h) @ ''-''
       @ take 4 (drop 16 h) @ ''-'' @ drop 20 h)"

definition canon_Parse :: "string \<Rightarrow> uuid option" where
  "canon_Parse s =
     (if length s = 36 \<and> s ! 8 = CHR ''-'' \<and> s ! 13 = CHR ''-'' \<and> s ! 18 = CHR ''-'' \<and> s ! 23 = CHR ''-''
      then map_option of_nat (of_hex (take 8 s @ take 4 (drop 9 s) @ take 4 (drop 14 s)
             @ take 4 (drop 19 s) @ drop 24 s) 0)
      else None)"

definition concrete_env :: "uuid \<Rightarrow> time \<Rightarrow> env" where
  "concrete_env u t = \<lparr> uuid_New = u, uuid_Parse = canon_Parse, uuid_String = canon_String,
     uuid_FromBytes = Some, time_Now = t, db_NOW = t,
     timestamppb_New = (\<lambda>t. \<lparr> ts_Seconds = t div 1000000000, ts_Nanos = t mod 1000000000 \<rparr>),
     timestamppb_AsTime = (\<lambda>p. ts_Seconds p * 1000000000 + ts_Nanos p) \<rparr>"

lemma length_hex_of [simp]: "length (hex_of k n) = k"
  by (induction k arbitrary: n) simp_all

lemma hex_value_table: "list_all (\<lambda>n. hex_value (hex_digit n) = Some n) [0..<16]"
  by code_simp

lemma hex_value_digit: "hex_value (hex_digit n) = Some (n mod 16)"
proof -
  have "hex_digit n = hex_digit (n mod 16)" by (simp add: hex_digit_def)
  moreover have "hex_value (hex_digit (n mod 16)) = Some (n mod 16)"
    using hex_value_table by (auto simp: list_all_iff simp del: hex_value.simps)
  ultimately show ?thesis by metis
qed

lemma of_hex_append: "of_hex (s @ t) acc = Option.bind (of_hex s acc) (of_hex t)"
  by (induction s acc rule: of_hex.induct) (auto simp del: hex_value.simps split: option.splits)

lemma of_hex_hex_of: "n < 16 ^ k \<Longrightarrow> of_hex (hex_of k n) acc = Some (16 ^ k * acc + n)"
proof (induction k arbitrary: n)
  case (Suc k)
  then have "n div 16 < 16 ^ k" by (simp add: less_mult_imp_div_less mult.commute)
  moreover have "16 * (n div 16) + n mod 16 = n" by simp
  ultimately show ?case
    using Suc.IH [of "n div 16"]
    by (simp add: of_hex_append hex_value_digit algebra_simps del: hex_value.simps)
qed simp

lemma canon_roundtrip: "canon_Parse (canon_String u) = Some u"
proof -
  define h where "h = hex_of 32 (unat u)"
  have len: "length h = 32" by (simp add: h_def)
  have "unat u < 16 ^ 32"
    using unsigned_less [of u, where ?'a = nat] by simp
  then have h: "of_hex h 0 = Some (unat u)"
    unfolding h_def using of_hex_hex_of [of "unat u" 32 0] by simp
  have "take 4 (drop 16 h) @ drop 20 h = drop 16 h"
    using append_take_drop_id [of 4 "drop 16 h"] by simp
  moreover have "take 4 (drop 12 h) @ drop 16 h = drop 12 h"
    using append_take_drop_id [of 4 "drop 12 h"] by simp
  moreover have "take 4 (drop 8 h) @ drop 12 h = drop 8 h"
    using append_take_drop_id [of 4 "drop 8 h"] by simp
  ultimately have cut:
    "take 8 h @ take 4 (drop 8 h) @ take 4 (drop 12 h) @ take 4 (drop 16 h) @ drop 20 h = h"
    by simp
  show ?thesis
    unfolding canon_Parse_def canon_String_def h_def [symmetric] Let_def
    by (simp add: len nth_append h cut)
qed

lemma env_ok_concrete: "env_ok (concrete_env u t)"
  by (simp add: env_ok_def concrete_env_def canon_roundtrip)

end
