(* ===== verification/Driver.thy ===== *)
theory Driver
  imports Prelude
begin

text \<open>
  The database connection as the repositories use it through pgx: single statements,
  \<^verbatim>\<open>pool.Begin\<close>, \<^verbatim>\<open>tx.Commit\<close> and the deferred \<^verbatim>\<open>tx.Rollback\<close>. A statement is a
  function on the tables (its SQL is given by the component theories); the connection adds
  what the network and the server may do to it: the call can be refused before it takes
  effect, or take effect while its reply is lost. Which of the two happens at which call is
  a schedule the caller does not control, so every theorem about an operation ranges over
  all schedules unless it says otherwise. Transactions of different requests run one after
  the other; inside one request the tables before \<^verbatim>\<open>Begin\<close> are kept for the rollback.
\<close>

section \<open>Errors and faults\<close>

text \<open>The errors of the driver the code tells apart: \<^verbatim>\<open>pgx.ErrNoRows\<close>, a
  \<^verbatim>\<open>*pgconn.PgError\<close> with its SQLSTATE code, and everything else.\<close>

datatype pgx_err = ErrNoRows | PgError string | ConnError

datatype outage = ServerError string | ConnectionLost

fun outage_err :: "outage \<Rightarrow> pgx_err" where
  "outage_err (ServerError code) = PgError code"
| "outage_err ConnectionLost = ConnError"

lemma outage_err_not_ErrNoRows [simp]: "outage_err x \<noteq> ErrNoRows" "ErrNoRows \<noteq> outage_err x"
  by (cases x; simp)+

datatype fault = Healthy | Refused outage | LostReply outage

text \<open>SQLSTATE codes of the constraint violations the schemas can raise.\<close>

abbreviation unique_violation :: string where "unique_violation \<equiv> ''23505''"
abbreviation foreign_key_violation :: string where "foreign_key_violation \<equiv> ''23503''"
abbreviation invalid_text_representation :: string where "invalid_text_representation \<equiv> ''22P02''"
abbreviation invalid_row_count_in_limit :: string where "invalid_row_count_in_limit \<equiv> ''2201W''"

section \<open>The connection\<close>

record 'd conn =
  tables :: 'd
  snapshot :: "'d option"
  faults :: "fault list"

type_synonym ('d, 'a) db_op = "('d conn, 'a) state"

definition next_fault :: "'d conn \<Rightarrow> fault \<times> 'd conn" where
  "next_fault c = (case faults c of [] \<Rightarrow> (Healthy, c) | x # xs \<Rightarrow> (x, c\<lparr>faults := xs\<rparr>))"

definition driver :: "('d \<Rightarrow> (pgx_err + 'a) \<times> 'd) \<Rightarrow> ('d, pgx_err + 'a) db_op" where
  "driver stmt = State (\<lambda>c0. case next_fault c0 of
      (Healthy, c) \<Rightarrow> (fst (stmt (tables c)), c\<lparr>tables := snd (stmt (tables c))\<rparr>)
    | (Refused x, c) \<Rightarrow> (Inl (outage_err x), c)
    | (LostReply x, c) \<Rightarrow> (Inl (outage_err x), c\<lparr>tables := snd (stmt (tables c))\<rparr>))"

definition Begin :: "('d, pgx_err + unit) db_op" where
  "Begin = State (\<lambda>c0. case next_fault c0 of
      (Healthy, c) \<Rightarrow> (Inr (), c\<lparr>snapshot := Some (tables c)\<rparr>)
    | (Refused x, c) \<Rightarrow> (Inl (outage_err x), c)
    | (LostReply x, c) \<Rightarrow> (Inl (outage_err x), c))"

definition Commit :: "('d, pgx_err + unit) db_op" where
  "Commit = State (\<lambda>c0. case next_fault c0 of
      (Healthy, c) \<Rightarrow> (Inr (), c\<lparr>snapshot := None\<rparr>)
    | (Refused x, c) \<Rightarrow> (Inl (outage_err x), c)
    | (LostReply x, c) \<Rightarrow> (Inl (outage_err x), c\<lparr>snapshot := None\<rparr>))"

definition Rollback :: "('d, unit) db_op" where
  "Rollback = State (\<lambda>c. ((), case snapshot c of
      None \<Rightarrow> c | Some d \<Rightarrow> c\<lparr>tables := d, snapshot := None\<rparr>))"

text \<open>\<^verbatim>\<open>defer tx.Rollback(ctx)\<close>: runs whatever the body returns; without an open
  transaction (after a commit) it does nothing.\<close>

definition defer_Rollback :: "('d, 'a) db_op \<Rightarrow> ('d, 'a) db_op" where
  "defer_Rollback body = do { x \<leftarrow> body; Rollback; State_Monad.return x }"

definition rolled_back :: "'d conn \<Rightarrow> 'd conn" where
  "rolled_back c = (case snapshot c of None \<Rightarrow> c | Some d \<Rightarrow> c\<lparr>tables := d, snapshot := None\<rparr>)"

lemma rolled_back_simps [simp]:
  "snapshot (rolled_back c) = None"
  "faults (rolled_back c) = faults c"
  "snapshot c = None \<Longrightarrow> rolled_back c = c"
  "snapshot c = Some d \<Longrightarrow> tables (rolled_back c) = d"
  by (simp_all add: rolled_back_def split: option.splits)

section \<open>Weakest preconditions of the driver calls\<close>

lemma wp_Rollback [wp_simps]: "wp Rollback Q = (\<lambda>c. Q () (rolled_back c))"
  by (simp add: wp_def Rollback_def rolled_back_def fun_eq_iff)

lemma wp_defer_Rollback [wp_simps]:
  "wp (defer_Rollback m) Q = wp m (\<lambda>x c'. Q x (rolled_back c'))"
  by (simp add: defer_Rollback_def wp_bind wp_Rollback wp_return)

lemma wp_driverI:
  assumes "Q (fst (stmt (tables c))) (c\<lparr>tables := snd (stmt (tables c)), faults := tl (faults c)\<rparr>)"
    and "\<And>x. faults c \<noteq> [] \<Longrightarrow> Q (Inl (outage_err x)) (c\<lparr>faults := tl (faults c)\<rparr>)"
    and "\<And>x. faults c \<noteq> [] \<Longrightarrow>
           Q (Inl (outage_err x)) (c\<lparr>tables := snd (stmt (tables c)), faults := tl (faults c)\<rparr>)"
  shows "wp (driver stmt) Q c"
  using assms
  by (cases c) (auto simp: wp_def driver_def next_fault_def split: list.splits fault.split)

lemma wp_BeginI:
  assumes "Q (Inr ()) (c\<lparr>snapshot := Some (tables c), faults := tl (faults c)\<rparr>)"
    and "\<And>x. faults c \<noteq> [] \<Longrightarrow> Q (Inl (outage_err x)) (c\<lparr>faults := tl (faults c)\<rparr>)"
  shows "wp Begin Q c"
  using assms
  by (cases c) (auto simp: wp_def Begin_def next_fault_def split: list.splits fault.split)

lemma wp_CommitI:
  assumes "Q (Inr ()) (c\<lparr>snapshot := None, faults := tl (faults c)\<rparr>)"
    and "\<And>x. faults c \<noteq> [] \<Longrightarrow> Q (Inl (outage_err x)) (c\<lparr>faults := tl (faults c)\<rparr>)"
    and "\<And>x. faults c \<noteq> [] \<Longrightarrow> Q (Inl (outage_err x)) (c\<lparr>snapshot := None, faults := tl (faults c)\<rparr>)"
  shows "wp Commit Q c"
  using assms
  by (cases c) (auto simp: wp_def Commit_def next_fault_def split: list.splits fault.split)

text \<open>A call that fails although the tables allow it has met a fault, and a schedule that
  still has one now had one at the start.\<close>

lemma tl_nonempty: "tl xs \<noteq> [] \<Longrightarrow> xs \<noteq> []"
  by auto

lemmas wp_intros = wp_driverI wp_BeginI wp_CommitI

section \<open>Healthy runs\<close>

text \<open>With an empty schedule every call does its work: the equations that compute an
  operation.\<close>

named_theorems healthy_simps \<open>runs on a connection without faults\<close>

lemma run_driver_healthy [healthy_simps]:
  "faults c = [] \<Longrightarrow> run_state (driver stmt) c =
     (fst (stmt (tables c)), c\<lparr>tables := snd (stmt (tables c))\<rparr>)"
  by (simp add: driver_def next_fault_def)

lemma run_Begin_healthy [healthy_simps]:
  "faults c = [] \<Longrightarrow> run_state Begin c = (Inr (), c\<lparr>snapshot := Some (tables c)\<rparr>)"
  by (simp add: Begin_def next_fault_def)

lemma run_Commit_healthy [healthy_simps]:
  "faults c = [] \<Longrightarrow> run_state Commit c = (Inr (), c\<lparr>snapshot := None\<rparr>)"
  by (simp add: Commit_def next_fault_def)

lemma run_defer_Rollback [healthy_simps]:
  "run_state (defer_Rollback m) c = (case run_state m c of (x, c') \<Rightarrow> (x, rolled_back c'))"
  by (simp add: defer_Rollback_def Rollback_def rolled_back_def split: prod.splits)

declare run_check [healthy_simps]

section \<open>Invariants of the tables\<close>

text \<open>An invariant of the tables holds of a connection when it holds of the tables and of
  the tables a rollback would bring back. \<open>keeps ok m\<close>: the operation keeps it under every
  fault schedule.\<close>

definition conn_ok :: "('d \<Rightarrow> bool) \<Rightarrow> 'd conn \<Rightarrow> bool" where
  "conn_ok ok c \<longleftrightarrow> ok (tables c) \<and> (\<forall>d. snapshot c = Some d \<longrightarrow> ok d)"

definition keeps :: "('d \<Rightarrow> bool) \<Rightarrow> ('d, 'a) db_op \<Rightarrow> bool" where
  "keeps ok m \<longleftrightarrow> (\<forall>c. conn_ok ok c \<longrightarrow> wp m (\<lambda>_. conn_ok ok) c)"

definition stmt_keeps :: "('d \<Rightarrow> bool) \<Rightarrow> ('d \<Rightarrow> 'a \<times> 'd) \<Rightarrow> bool" where
  "stmt_keeps ok stmt \<longleftrightarrow> (\<forall>d. ok d \<longrightarrow> ok (snd (stmt d)))"

named_theorems keeps_intros \<open>rules that push \<open>keeps\<close> through an operation\<close>

lemma keeps_return [keeps_intros]: "keeps ok (State_Monad.return x)"
  by (simp add: keeps_def wp_return)

lemma keeps_bind [keeps_intros]:
  "keeps ok m \<Longrightarrow> (\<And>x. keeps ok (f x)) \<Longrightarrow> keeps ok (State_Monad.bind m f)"
  unfolding keeps_def wp_bind by (blast intro: wp_mono)

lemma keeps_check [keeps_intros]:
  "keeps ok m \<Longrightarrow> (\<And>x. keeps ok (k x)) \<Longrightarrow> keeps ok (check m h k)"
  unfolding check_def by (intro keeps_bind) (auto intro: keeps_return split: sum.splits)

lemma keeps_driver [keeps_intros]: "stmt_keeps ok stmt \<Longrightarrow> keeps ok (driver stmt)"
  by (auto simp: keeps_def stmt_keeps_def conn_ok_def intro!: wp_driverI)

lemma keeps_Begin [keeps_intros]: "keeps ok Begin"
  by (auto simp: keeps_def conn_ok_def intro!: wp_BeginI)

lemma keeps_Commit [keeps_intros]: "keeps ok Commit"
  by (auto simp: keeps_def conn_ok_def intro!: wp_CommitI)

lemma conn_ok_rolled_back: "conn_ok ok c \<Longrightarrow> conn_ok ok (rolled_back c)"
  by (auto simp: conn_ok_def rolled_back_def split: option.splits)

lemma keeps_defer_Rollback [keeps_intros]: "keeps ok m \<Longrightarrow> keeps ok (defer_Rollback m)"
  unfolding keeps_def wp_defer_Rollback by (blast intro: wp_mono conn_ok_rolled_back)

lemma keeps_if [keeps_intros]:
  "(b \<Longrightarrow> keeps ok m) \<Longrightarrow> (\<not> b \<Longrightarrow> keeps ok n) \<Longrightarrow> keeps ok (if b then m else n)"
  by simp

lemma keeps_case_option [keeps_intros]:
  "keeps ok n \<Longrightarrow> (\<And>x. keeps ok (f x)) \<Longrightarrow> keeps ok (case v of None \<Rightarrow> n | Some x \<Rightarrow> f x)"
  by (cases v) simp_all

lemma keepsD:
  "keeps ok m \<Longrightarrow> ok (tables c) \<Longrightarrow> snapshot c = None \<Longrightarrow>
   run_state m c = (r, c') \<Longrightarrow> ok (tables c')"
  by (auto simp: keeps_def conn_ok_def dest!: spec [of _ c] wpD)

section \<open>Operations that leave the tables alone\<close>

definition reads :: "('d, 'a) db_op \<Rightarrow> bool" where
  "reads m \<longleftrightarrow> (\<forall>c. wp m (\<lambda>_ c'. tables c' = tables c \<and> snapshot c' = snapshot c) c)"

definition stmt_reads :: "('d \<Rightarrow> 'a \<times> 'd) \<Rightarrow> bool" where
  "stmt_reads stmt \<longleftrightarrow> (\<forall>d. snd (stmt d) = d)"

lemma reads_driver: "stmt_reads stmt \<Longrightarrow> reads (driver stmt)"
  by (auto simp: reads_def stmt_reads_def intro!: wp_driverI)

lemma reads_return: "reads (State_Monad.return x)"
  by (simp add: reads_def wp_return)

lemma reads_check:
  assumes m: "reads m" and k: "\<And>x. reads (k x)"
  shows "reads (check m h k)"
  unfolding reads_def wp_check
proof
  fix c :: "'a conn"
  let ?Q = "\<lambda>c'::'a conn. tables c' = tables c \<and> snapshot c' = snapshot c"
  have "(case r of Inl e \<Rightarrow> ?Q | Inr x \<Rightarrow> wp (k x) (\<lambda>_. ?Q)) c'" if c': "?Q c'" for r c'
  proof -
    have "wp (k x) (\<lambda>_ d. tables d = tables c' \<and> snapshot d = snapshot c') c'" for x
      using k [of x] unfolding reads_def by blast
    with c' show ?thesis by (cases r) simp_all
  qed
  moreover from m have "wp m (\<lambda>_. ?Q) c" by (simp add: reads_def)
  ultimately show "wp m (\<lambda>r. case r of Inl e \<Rightarrow> ?Q | Inr x \<Rightarrow> wp (k x) (\<lambda>_. ?Q)) c"
    by (rule wp_mono [rotated])
qed

lemmas reads_intros = reads_driver reads_return reads_check

lemma readsD: "reads m \<Longrightarrow> run_state m c = (r, c') \<Longrightarrow> tables c' = tables c"
  by (auto simp: reads_def dest!: spec [of _ c] wpD)

end
