(* ===== verification/Doc_Types.thy ===== *)
theory Doc_Types
  imports Externals Driver
begin

text \<open>
  The domain of the document service (\<^verbatim>\<open>document_service/internal/service\<close>): the error
  types of \<^verbatim>\<open>errors.go\<close> with the two ways the code inspects them (the type assertion
  \<^verbatim>\<open>err.(DomainError)\<close> on the top of the chain, \<^verbatim>\<open>errors.As\<close> along the chain), and the
  structs, enumerations, constants and cursor constructors of \<^verbatim>\<open>document_service.go\<close>. The
  texts of error messages are left out: no branch of the code reads them. Go enumerations
  are open \<^verbatim>\<open>int32\<close> types, so values outside the declared constants stay representable.
\<close>

section \<open>Errors (errors.go)\<close>

text \<open>The argument of a domain error is its wrapped cause, None for \<^verbatim>\<open>nil\<close>. \<open>Errorf\<close> is an
  error made by \<^verbatim>\<open>fmt.Errorf\<close>, with its \<^verbatim>\<open>%w\<close> operand if it has one.\<close>

datatype doc_err =
    RepoImplError "doc_err option"
  | NotFoundError "doc_err option"
  | InvalidInputError "doc_err option"
  | UniqueConflictError "doc_err option"
  | ErrNilPointer
  | Errorf "doc_err option"
  | Pgx pgx_err

fun isDomainError :: "doc_err \<Rightarrow> bool" where
  "isDomainError (RepoImplError _) = True"
| "isDomainError (NotFoundError _) = True"
| "isDomainError (InvalidInputError _) = True"
| "isDomainError (UniqueConflictError _) = True"
| "isDomainError ErrNilPointer = False"
| "isDomainError (Errorf _) = False"
| "isDomainError (Pgx _) = False"

fun err_Unwrap :: "doc_err \<Rightarrow> doc_err option" where
  "err_Unwrap (RepoImplError e) = e"
| "err_Unwrap (NotFoundError e) = e"
| "err_Unwrap (InvalidInputError e) = e"
| "err_Unwrap (UniqueConflictError e) = e"
| "err_Unwrap (Errorf e) = e"
| "err_Unwrap ErrNilPointer = None"
| "err_Unwrap (Pgx _) = None"

abbreviation RepoImpl :: "doc_err option \<Rightarrow> doc_err" where "RepoImpl \<equiv> RepoImplError"
abbreviation NotFound :: "doc_err option \<Rightarrow> doc_err" where "NotFound \<equiv> NotFoundError"
abbreviation InvalidInput :: "doc_err option \<Rightarrow> doc_err" where "InvalidInput \<equiv> InvalidInputError"
abbreviation UniqueConflict :: "doc_err option \<Rightarrow> doc_err" where "UniqueConflict \<equiv> UniqueConflictError"

text \<open>The chain of an error, from the top: what \<^verbatim>\<open>errors.As\<close> and \<^verbatim>\<open>errors.Is\<close> walk.\<close>

fun err_chain :: "doc_err \<Rightarrow> doc_err list" where
  "err_chain (RepoImplError e) = RepoImplError e # (case e of None \<Rightarrow> [] | Some x \<Rightarrow> err_chain x)"
| "err_chain (NotFoundError e) = NotFoundError e # (case e of None \<Rightarrow> [] | Some x \<Rightarrow> err_chain x)"
| "err_chain (InvalidInputError e) = InvalidInputError e # (case e of None \<Rightarrow> [] | Some x \<Rightarrow> err_chain x)"
| "err_chain (UniqueConflictError e) = UniqueConflictError e # (case e of None \<Rightarrow> [] | Some x \<Rightarrow> err_chain x)"
| "err_chain (Errorf e) = Errorf e # (case e of None \<Rightarrow> [] | Some x \<Rightarrow> err_chain x)"
| "err_chain ErrNilPointer = [ErrNilPointer]"
| "err_chain (Pgx e) = [Pgx e]"

fun is_NotFound :: "doc_err \<Rightarrow> bool" where
  "is_NotFound (NotFoundError _) = True" | "is_NotFound _ = False"

fun is_UniqueConflict :: "doc_err \<Rightarrow> bool" where
  "is_UniqueConflict (UniqueConflictError _) = True" | "is_UniqueConflict _ = False"

fun is_InvalidInput :: "doc_err \<Rightarrow> bool" where
  "is_InvalidInput (InvalidInputError _) = True" | "is_InvalidInput _ = False"

definition errors_As :: "(doc_err \<Rightarrow> bool) \<Rightarrow> doc_err \<Rightarrow> bool" where
  "errors_As is_type e \<longleftrightarrow> (\<exists>x \<in> set (err_chain e). is_type x)"

lemma err_chain_unfold: "err_chain e = e # (case err_Unwrap e of None \<Rightarrow> [] | Some x \<Rightarrow> err_chain x)"
  by (cases e) simp_all

lemma errors_As_unfold:
  "errors_As p e \<longleftrightarrow> p e \<or> (\<exists>x. err_Unwrap e = Some x \<and> errors_As p x)"
  unfolding errors_As_def by (subst err_chain_unfold) (cases "err_Unwrap e"; simp)

section \<open>Types and constants (document_service.go)\<close>

type_synonym PermissionLevel = int32
type_synonym RecipientType = int32
type_synonym SortField = int32

abbreviation Viewer :: PermissionLevel where "Viewer \<equiv> 0"
abbreviation Editor :: PermissionLevel where "Editor \<equiv> 1"
abbreviation Owner :: PermissionLevel where "Owner \<equiv> 2"

definition AllPermissions :: "PermissionLevel list" where
  "AllPermissions = [Viewer, Editor, Owner]"

abbreviation Recipient_User :: RecipientType where "Recipient_User \<equiv> 0"
abbreviation Recipient_Guest :: RecipientType where "Recipient_Guest \<equiv> 1"

abbreviation Sort_CreatedAt :: SortField where "Sort_CreatedAt \<equiv> 0"
abbreviation Sort_LastModifiedAt :: SortField where "Sort_LastModifiedAt \<equiv> 1"

record Document =
  doc_ID :: uuid
  doc_Name :: "string option"
  doc_Description :: "string option"
  doc_CreatedAt :: time
  doc_LastModifiedAt :: time

record Permission =
  perm_RecipientID :: uuid
  perm_RecipientType :: RecipientType
  perm_DocumentID :: uuid
  perm_PermissionLevel :: PermissionLevel
  perm_CreatedBy :: uuid
  perm_CreatedAt :: time
  perm_LastModifiedAt :: time

record Cursor =
  cur_SortField :: SortField
  cur_LastSeenTime :: time
  cur_LastSeenID :: uuid

definition DefaultPageSize :: int32 where "DefaultPageSize = 10"
definition MaxPageSize :: int32 where "MaxPageSize = 100"

record DocumentPermission =
  dp_Document :: Document
  dp_Permission :: PermissionLevel

section \<open>Cursors\<close>

unbundle bit_operations_syntax

text \<open>Byte \<open>i\<close> of the big-endian array \<^verbatim>\<open>[16]byte\<close> behind a UUID.\<close>

definition set_byte :: "uuid \<Rightarrow> nat \<Rightarrow> 8 word \<Rightarrow> uuid" where
  "set_byte u i b =
     (u AND NOT (push_bit (8 * (15 - i)) 0xff)) OR push_bit (8 * (15 - i)) (ucast b)"

definition MaxDocumentID :: uuid where
  "MaxDocumentID = fold (\<lambda>i maxUUID. set_byte maxUUID i 0xff) [0..<16] uuid_Nil"

definition NewBeginningCursor :: "env \<Rightarrow> SortField \<Rightarrow> Cursor" where
  "NewBeginningCursor E sortField =
     \<lparr> cur_SortField = sortField, cur_LastSeenTime = time_Now E, cur_LastSeenID = MaxDocumentID \<rparr>"

lemma MaxDocumentID_eq: "MaxDocumentID = - 1"
  by (simp add: MaxDocumentID_def set_byte_def upt_rec)

lemma MaxDocumentID_max: "u \<le> MaxDocumentID"
  by (simp add: MaxDocumentID_eq)

text \<open>The position a cursor stands for in the (time, id) order of the listings.\<close>

definition cursor_key :: "Cursor \<Rightarrow> time \<times> uuid" where
  "cursor_key cur = (cur_LastSeenTime cur, cur_LastSeenID cur)"

end
