(* ===== verification/Doc_Sql.thy ===== *)
theory Doc_Sql
  imports Doc_Types
begin

text \<open>
  The database of the document service: the tables of \<^verbatim>\<open>sqlc/sql/schema.sql\<close> and the
  statements of \<^verbatim>\<open>sqlc/sql/query.sql\<close>, from which the Go query functions are generated. A
  table is the list of its rows; a statement is a function from the tables to its result
  and the new tables. Constraints are part of the statements: a duplicate primary key, a
  missing or still referenced foreign key, an unknown enumeration label and a negative
  LIMIT give the SQLSTATE error PostgreSQL raises, and then nothing changes. \<open>db_ok\<close> is what
  the schema promises of the tables; every statement keeps it.
\<close>

section \<open>Schema\<close>

text \<open>The enumerations are Go strings in the generated code: the declared labels, and any
  other string, which the database refuses to store.\<close>

datatype sqlc_PermissionLevel =
  PermissionLevelViewer | PermissionLevelEditor | PermissionLevelOwner | PermissionLevelOther string

datatype sqlc_RecipientType = RecipientTypeUser | RecipientTypeGuest | RecipientTypeOther string

fun permission_level_label :: "sqlc_PermissionLevel \<Rightarrow> bool" where
  "permission_level_label (PermissionLevelOther _) = False"
| "permission_level_label _ = True"

fun recipient_type_label :: "sqlc_RecipientType \<Rightarrow> bool" where
  "recipient_type_label (RecipientTypeOther _) = False"
| "recipient_type_label _ = True"

record documents_row =
  d_id :: uuid
  d_name :: "string option"
  d_description :: "string option"
  d_created_at :: time
  d_last_modified_at :: time

record guests_row =
  g_id :: uuid
  g_document_id :: uuid
  g_description :: "string option"
  g_created_by :: uuid
  g_created_at :: time
  g_last_modified_at :: time

record permissions_row =
  p_recipient_id :: uuid
  p_recipient_type :: sqlc_RecipientType
  p_document_id :: uuid
  p_permission_level :: sqlc_PermissionLevel
  p_created_by :: uuid
  p_created_at :: time
  p_last_modified_at :: time

record doc_db =
  documents :: "documents_row list"
  guests :: "guests_row list"
  permissions :: "permissions_row list"

definition empty_doc_db :: doc_db where
  "empty_doc_db = \<lparr> documents = [], guests = [], permissions = [] \<rparr>"

abbreviation perm_key :: "permissions_row \<Rightarrow> uuid \<times> uuid" where
  "perm_key p \<equiv> (p_recipient_id p, p_document_id p)"

definition has_document :: "uuid \<Rightarrow> doc_db \<Rightarrow> bool" where
  "has_document i d \<longleftrightarrow> (\<exists>r \<in> set (documents d). d_id r = i)"

definition has_guest :: "uuid \<Rightarrow> doc_db \<Rightarrow> bool" where
  "has_guest i d \<longleftrightarrow> (\<exists>r \<in> set (guests d). g_id r = i)"

definition has_permission :: "uuid \<Rightarrow> uuid \<Rightarrow> doc_db \<Rightarrow> bool" where
  "has_permission u i d \<longleftrightarrow> (\<exists>r \<in> set (permissions d). perm_key r = (u, i))"

text \<open>Primary keys, foreign keys and enumeration labels.\<close>

definition db_ok :: "doc_db \<Rightarrow> bool" where
  "db_ok d \<longleftrightarrow>
     distinct (map d_id (documents d)) \<and>
     distinct (map g_id (guests d)) \<and>
     distinct (map perm_key (permissions d)) \<and>
     (\<forall>g \<in> set (guests d). has_document (g_document_id g) d) \<and>
     (\<forall>p \<in> set (permissions d). has_document (p_document_id p) d \<and>
        permission_level_label (p_permission_level p) \<and> recipient_type_label (p_recipient_type p))"

type_synonym 'a doc_stmt = "doc_db \<Rightarrow> (pgx_err + 'a) \<times> doc_db"

section \<open>Statements\<close>

text \<open>A text is taken to be one PostgreSQL accepts: UTF-8 without NUL bytes. Its refusal of other texts is
  not modelled.\<close>

definition sql_CreateDocument ::
  "time \<Rightarrow> uuid \<Rightarrow> string option \<Rightarrow> string option \<Rightarrow> unit doc_stmt" where
  [sql_defs]: "sql_CreateDocument now i name description d =
     (if has_document i d then (Inl (PgError unique_violation), d)
      else (Inr (), d\<lparr>documents := documents d @
        [\<lparr> d_id = i, d_name = name, d_description = description,
           d_created_at = now, d_last_modified_at = now \<rparr>]\<rparr>))"

definition sql_GetDocument :: "uuid \<Rightarrow> documents_row doc_stmt" where
  [sql_defs]: "sql_GetDocument i d =
     (case find (\<lambda>r. d_id r = i) (documents d) of None \<Rightarrow> Inl ErrNoRows | Some r \<Rightarrow> Inr r, d)"

definition coalesce :: "'a option \<Rightarrow> 'a option \<Rightarrow> 'a option" where
  "coalesce a b = (case a of None \<Rightarrow> b | Some x \<Rightarrow> Some x)"

definition sql_UpdateDocument :: "uuid \<Rightarrow> string option \<Rightarrow> string option \<Rightarrow> nat doc_stmt" where
  [sql_defs]: "sql_UpdateDocument i name description d =
     (Inr (length (filter (\<lambda>r. d_id r = i) (documents d))),
      d\<lparr>documents := map (\<lambda>r. if d_id r = i
          then r\<lparr>d_name := coalesce name (d_name r),
                 d_description := coalesce description (d_description r)\<rparr>
          else r) (documents d)\<rparr>)"

definition sql_DeleteDocument :: "uuid \<Rightarrow> nat doc_stmt" where
  [sql_defs]: "sql_DeleteDocument i d =
     (if has_document i d \<and>
         ((\<exists>g \<in> set (guests d). g_document_id g = i) \<or>
          (\<exists>p \<in> set (permissions d). p_document_id p = i))
      then (Inl (PgError foreign_key_violation), d)
      else (Inr (length (filter (\<lambda>r. d_id r = i) (documents d))),
            d\<lparr>documents := filter (\<lambda>r. d_id r \<noteq> i) (documents d)\<rparr>))"

definition sql_DeletePermissionByDocument :: "uuid \<Rightarrow> nat doc_stmt" where
  [sql_defs]: "sql_DeletePermissionByDocument i d =
     (Inr (length (filter (\<lambda>r. p_document_id r = i) (permissions d))),
      d\<lparr>permissions := filter (\<lambda>r. p_document_id r \<noteq> i) (permissions d)\<rparr>)"

definition sql_DeleteGuestsByDocument :: "uuid \<Rightarrow> nat doc_stmt" where
  [sql_defs]: "sql_DeleteGuestsByDocument i d =
     (Inr (length (filter (\<lambda>r. g_document_id r = i) (guests d))),
      d\<lparr>guests := filter (\<lambda>r. g_document_id r \<noteq> i) (guests d)\<rparr>)"

text \<open>What the four listings share: the list parameter is cast to \<^verbatim>\<open>permission_level[]\<close>,
  and LIMIT takes a signed 32-bit number, of which a negative one is an error.\<close>

definition sql_limit :: "int32 \<Rightarrow> sqlc_PermissionLevel list \<Rightarrow> 'r list \<Rightarrow> pgx_err + 'r list" where
  "sql_limit n levels rows =
     (if \<not> list_all permission_level_label levels then Inl (PgError invalid_text_representation)
      else if sint n < 0 then Inl (PgError invalid_row_count_in_limit)
      else Inr (take (nat (sint n)) rows))"

text \<open>The two listings of documents differ in the time column they compare and sort by.\<close>

definition documents_of_principal ::
  "uuid \<Rightarrow> sqlc_PermissionLevel list \<Rightarrow> doc_db \<Rightarrow> (documents_row \<times> sqlc_PermissionLevel) list" where
  "documents_of_principal who levels d =
     [(r, p_permission_level p). r \<leftarrow> documents d, p \<leftarrow> permissions d,
        d_id r = p_document_id p \<and> p_permission_level p \<in> set levels \<and> p_recipient_id p = who]"

abbreviation created_key :: "documents_row \<times> sqlc_PermissionLevel \<Rightarrow> time \<times> uuid" where
  "created_key x \<equiv> (d_created_at (fst x), d_id (fst x))"

abbreviation modified_key :: "documents_row \<times> sqlc_PermissionLevel \<Rightarrow> time \<times> uuid" where
  "modified_key x \<equiv> (d_last_modified_at (fst x), d_id (fst x))"

definition sql_ListDocumentsByCreatedAt ::
  "uuid \<Rightarrow> time \<Rightarrow> uuid \<Rightarrow> int32 \<Rightarrow> sqlc_PermissionLevel list \<Rightarrow>
   (documents_row \<times> sqlc_PermissionLevel) list doc_stmt" where
  [sql_defs]: "sql_ListDocumentsByCreatedAt who t i limit levels d =
     (sql_limit limit levels (order_desc created_key
        (filter (\<lambda>x. d_created_at (fst x) < t \<or> (d_created_at (fst x) = t \<and> d_id (fst x) < i))
          (documents_of_principal who levels d))), d)"

definition sql_ListDocumentsByLastModifiedAt ::
  "uuid \<Rightarrow> time \<Rightarrow> uuid \<Rightarrow> int32 \<Rightarrow> sqlc_PermissionLevel list \<Rightarrow>
   (documents_row \<times> sqlc_PermissionLevel) list doc_stmt" where
  [sql_defs]: "sql_ListDocumentsByLastModifiedAt who t i limit levels d =
     (sql_limit limit levels (order_desc modified_key
        (filter (\<lambda>x. d_last_modified_at (fst x) < t \<or> (d_last_modified_at (fst x) = t \<and> d_id (fst x) < i))
          (documents_of_principal who levels d))), d)"

definition sql_GetPermissionOfPrincipalOnDocument :: "uuid \<Rightarrow> uuid \<Rightarrow> permissions_row doc_stmt" where
  [sql_defs]: "sql_GetPermissionOfPrincipalOnDocument i recipient d =
     (case find (\<lambda>r. p_document_id r = i \<and> p_recipient_id r = recipient) (permissions d) of
        None \<Rightarrow> Inl ErrNoRows | Some r \<Rightarrow> Inr r, d)"

definition permissions_on_document ::
  "uuid \<Rightarrow> sqlc_PermissionLevel list \<Rightarrow> doc_db \<Rightarrow> permissions_row list" where
  "permissions_on_document i levels d =
     filter (\<lambda>p. p_document_id p = i \<and> p_permission_level p \<in> set levels) (permissions d)"

abbreviation perm_created_key :: "permissions_row \<Rightarrow> time \<times> uuid" where
  "perm_created_key p \<equiv> (p_created_at p, p_recipient_id p)"

abbreviation perm_modified_key :: "permissions_row \<Rightarrow> time \<times> uuid" where
  "perm_modified_key p \<equiv> (p_last_modified_at p, p_recipient_id p)"

definition sql_ListPermissionOnDocumentCreatedAt ::
  "uuid \<Rightarrow> time \<Rightarrow> uuid \<Rightarrow> int32 \<Rightarrow> sqlc_PermissionLevel list \<Rightarrow> permissions_row list doc_stmt" where
  [sql_defs]: "sql_ListPermissionOnDocumentCreatedAt i t recipient limit levels d =
     (sql_limit limit levels (order_desc perm_created_key
        (filter (\<lambda>p. p_created_at p < t \<or> (p_created_at p = t \<and> p_recipient_id p < recipient))
          (permissions_on_document i levels d))), d)"

definition sql_ListPermissionOnDocumentLastModifiedAt ::
  "uuid \<Rightarrow> time \<Rightarrow> uuid \<Rightarrow> int32 \<Rightarrow> sqlc_PermissionLevel list \<Rightarrow> permissions_row list doc_stmt" where
  [sql_defs]: "sql_ListPermissionOnDocumentLastModifiedAt i t recipient limit levels d =
     (sql_limit limit levels (order_desc perm_modified_key
        (filter (\<lambda>p. p_last_modified_at p < t \<or> (p_last_modified_at p = t \<and> p_recipient_id p < recipient))
          (permissions_on_document i levels d))), d)"

definition sql_UpsertPermissionUser ::
  "time \<Rightarrow> uuid \<Rightarrow> uuid \<Rightarrow> sqlc_PermissionLevel \<Rightarrow> uuid \<Rightarrow> unit doc_stmt" where
  [sql_defs]: "sql_UpsertPermissionUser now recipient i level createdBy d =
     (if \<not> permission_level_label level then (Inl (PgError invalid_text_representation), d)
      else if has_permission recipient i d then
        (Inr (), d\<lparr>permissions := map (\<lambda>r. if perm_key r = (recipient, i)
            then r\<lparr>p_last_modified_at := now, p_permission_level := level\<rparr> else r) (permissions d)\<rparr>)
      else if \<not> has_document i d then (Inl (PgError foreign_key_violation), d)
      else (Inr (), d\<lparr>permissions := permissions d @
        [\<lparr> p_recipient_id = recipient, p_recipient_type = RecipientTypeUser, p_document_id = i,
           p_permission_level = level, p_created_by = createdBy,
           p_created_at = now, p_last_modified_at = now \<rparr>]\<rparr>))"

definition sql_InsertPermissionGuest ::
  "time \<Rightarrow> uuid \<Rightarrow> uuid \<Rightarrow> sqlc_PermissionLevel \<Rightarrow> uuid \<Rightarrow> unit doc_stmt" where
  [sql_defs]: "sql_InsertPermissionGuest now recipient i level createdBy d =
     (if \<not> permission_level_label level then (Inl (PgError invalid_text_representation), d)
      else if has_permission recipient i d then (Inl (PgError unique_violation), d)
      else if \<not> has_document i d then (Inl (PgError foreign_key_violation), d)
      else (Inr (), d\<lparr>permissions := permissions d @
        [\<lparr> p_recipient_id = recipient, p_recipient_type = RecipientTypeGuest, p_document_id = i,
           p_permission_level = level, p_created_by = createdBy,
           p_created_at = now, p_last_modified_at = now \<rparr>]\<rparr>))"

definition sql_SelectGuest :: "uuid \<Rightarrow> guests_row doc_stmt" where
  [sql_defs]: "sql_SelectGuest i d =
     (case find (\<lambda>r. g_id r = i) (guests d) of None \<Rightarrow> Inl ErrNoRows | Some r \<Rightarrow> Inr r, d)"

definition sql_UpdatePermissionGuest ::
  "time \<Rightarrow> uuid \<Rightarrow> uuid \<Rightarrow> sqlc_PermissionLevel \<Rightarrow> nat doc_stmt" where
  [sql_defs]: "sql_UpdatePermissionGuest now recipient i level d =
     (if \<not> permission_level_label level then (Inl (PgError invalid_text_representation), d)
      else (Inr (length (filter (\<lambda>r. perm_key r = (recipient, i) \<and> p_recipient_type r = RecipientTypeGuest)
                   (permissions d))),
            d\<lparr>permissions := map (\<lambda>r. if perm_key r = (recipient, i) \<and> p_recipient_type r = RecipientTypeGuest
                then r\<lparr>p_permission_level := level, p_last_modified_at := now\<rparr> else r) (permissions d)\<rparr>))"

definition sql_CreateGuest :: "time \<Rightarrow> uuid \<Rightarrow> uuid \<Rightarrow> uuid \<Rightarrow> unit doc_stmt" where
  [sql_defs]: "sql_CreateGuest now guest i createdBy d =
     (if has_guest guest d then (Inl (PgError unique_violation), d)
      else if \<not> has_document i d then (Inl (PgError foreign_key_violation), d)
      else (Inr (), d\<lparr>guests := guests d @
        [\<lparr> g_id = guest, g_document_id = i, g_description = None, g_created_by = createdBy,
           g_created_at = now, g_last_modified_at = now \<rparr>]\<rparr>))"

definition sql_DeletePermissionPrincipal :: "uuid \<Rightarrow> uuid \<Rightarrow> nat doc_stmt" where
  [sql_defs]: "sql_DeletePermissionPrincipal recipient i d =
     (Inr (length (filter (\<lambda>r. perm_key r = (recipient, i)) (permissions d))),
      d\<lparr>permissions := filter (\<lambda>r. perm_key r \<noteq> (recipient, i)) (permissions d)\<rparr>)"

section \<open>Statements keep the schema\<close>

named_theorems stmt_keeps_rules \<open>every statement keeps \<open>db_ok\<close>\<close>
named_theorems stmt_reads_rules \<open>the SELECT statements leave the tables alone\<close>

lemma has_document_simps [simp]:
  "has_document i (d\<lparr>guests := gs\<rparr>) = has_document i d"
  "has_document i (d\<lparr>permissions := ps\<rparr>) = has_document i d"
  by (simp_all add: has_document_def)

lemma db_ok_empty: "db_ok empty_doc_db"
  by (simp add: db_ok_def empty_doc_db_def)

text \<open>The shapes of change a statement makes to a table: rows appended under a fresh key,
  rows removed, rows rewritten under their key.\<close>

lemma distinct_map_filter_keep: "distinct (map f xs) \<Longrightarrow> distinct (map f (filter P xs))"
  by (induction xs) auto

lemma map_key_unchanged: "(\<And>r. f (upd r) = f r) \<Longrightarrow> map f (map upd xs) = map f xs"
  by simp

lemma db_ok_documents_insert:
  "db_ok d \<Longrightarrow> \<not> has_document (d_id r) d \<Longrightarrow> db_ok (d\<lparr>documents := documents d @ [r]\<rparr>)"
  by (auto simp: db_ok_def has_document_def)

lemma db_ok_documents_update:
  assumes ok: "db_ok d" and key: "\<And>r. d_id (upd r) = d_id r"
  shows "db_ok (d\<lparr>documents := map upd (documents d)\<rparr>)"
proof -
  have "has_document i (d\<lparr>documents := map upd (documents d)\<rparr>) = has_document i d" for i
    by (simp add: has_document_def key)
  moreover have "map d_id (map upd (documents d)) = map d_id (documents d)"
    by (simp add: key)
  ultimately show ?thesis using ok by (simp add: db_ok_def del: map_map)
qed

lemma db_ok_permissions_update:
  assumes ok: "db_ok d" and key: "\<And>r. perm_key (upd r) = perm_key r"
    and kind: "\<And>r. recipient_type_label (p_recipient_type r) \<Longrightarrow> recipient_type_label (p_recipient_type (upd r))"
    and level: "\<And>r. permission_level_label (p_permission_level r) \<Longrightarrow> permission_level_label (p_permission_level (upd r))"
  shows "db_ok (d\<lparr>permissions := map upd (permissions d)\<rparr>)"
proof -
  have "map perm_key (map upd (permissions d)) = map perm_key (permissions d)"
    using key by simp
  moreover have "p_document_id (upd r) = p_document_id r" for r
    using key [of r] by simp
  ultimately show ?thesis using ok kind level by (simp add: db_ok_def del: map_map)
qed

lemma db_ok_permissions_filter: "db_ok d \<Longrightarrow> db_ok (d\<lparr>permissions := filter P (permissions d)\<rparr>)"
  by (simp add: db_ok_def distinct_map_filter_keep)

lemma db_ok_guests_filter: "db_ok d \<Longrightarrow> db_ok (d\<lparr>guests := filter P (guests d)\<rparr>)"
  by (simp add: db_ok_def distinct_map_filter_keep)

lemma db_ok_permissions_insert:
  assumes "db_ok d" "\<not> has_permission (p_recipient_id r) (p_document_id r) d"
    "has_document (p_document_id r) d" "permission_level_label (p_permission_level r)"
    "recipient_type_label (p_recipient_type r)"
  shows "db_ok (d\<lparr>permissions := permissions d @ [r]\<rparr>)"
  using assms by (auto simp: db_ok_def has_permission_def)

lemma db_ok_guests_insert:
  "db_ok d \<Longrightarrow> \<not> has_guest (g_id r) d \<Longrightarrow> has_document (g_document_id r) d \<Longrightarrow>
   db_ok (d\<lparr>guests := guests d @ [r]\<rparr>)"
  by (auto simp: db_ok_def has_guest_def)

lemma db_ok_documents_delete:
  assumes "db_ok d"
    and "\<forall>g \<in> set (guests d). g_document_id g \<noteq> i" "\<forall>p \<in> set (permissions d). p_document_id p \<noteq> i"
  shows "db_ok (d\<lparr>documents := filter (\<lambda>r. d_id r \<noteq> i) (documents d)\<rparr>)"
proof -
  have "has_document j (d\<lparr>documents := filter (\<lambda>r. d_id r \<noteq> i) (documents d)\<rparr>) \<longleftrightarrow> has_document j d"
    if "j \<noteq> i" for j
    using that by (auto simp: has_document_def)
  with assms show ?thesis by (simp add: db_ok_def distinct_map_filter_keep)
qed

lemma stmt_keeps_CreateDocument [stmt_keeps_rules]: "stmt_keeps db_ok (sql_CreateDocument now i n s)"
  by (simp add: stmt_keeps_def sql_defs db_ok_documents_insert)

lemma stmt_keeps_UpdateDocument [stmt_keeps_rules]: "stmt_keeps db_ok (sql_UpdateDocument i n s)"
  by (simp add: stmt_keeps_def sql_defs db_ok_documents_update)

lemma filter_absent_documents: "\<not> has_document i d \<Longrightarrow> filter (\<lambda>r. d_id r \<noteq> i) (documents d) = documents d"
  by (auto simp: has_document_def filter_id_conv)

lemma stmt_keeps_DeleteDocument [stmt_keeps_rules]: "stmt_keeps db_ok (sql_DeleteDocument i)"
  by (auto simp: stmt_keeps_def sql_defs db_ok_documents_delete filter_absent_documents)

lemma stmt_keeps_DeletePermissionByDocument [stmt_keeps_rules]:
  "stmt_keeps db_ok (sql_DeletePermissionByDocument i)"
  by (simp add: stmt_keeps_def sql_defs db_ok_permissions_filter)

lemma stmt_keeps_DeleteGuestsByDocument [stmt_keeps_rules]:
  "stmt_keeps db_ok (sql_DeleteGuestsByDocument i)"
  by (simp add: stmt_keeps_def sql_defs db_ok_guests_filter)

lemma stmt_keeps_UpsertPermissionUser [stmt_keeps_rules]:
  "stmt_keeps db_ok (sql_UpsertPermissionUser now u i l b)"
  by (auto simp: stmt_keeps_def sql_defs intro!: db_ok_permissions_update db_ok_permissions_insert)

lemma stmt_keeps_InsertPermissionGuest [stmt_keeps_rules]:
  "stmt_keeps db_ok (sql_InsertPermissionGuest now u i l b)"
  by (auto simp: stmt_keeps_def sql_defs intro!: db_ok_permissions_insert)

lemma stmt_keeps_UpdatePermissionGuest [stmt_keeps_rules]:
  "stmt_keeps db_ok (sql_UpdatePermissionGuest now u i l)"
  by (auto simp: stmt_keeps_def sql_defs intro!: db_ok_permissions_update)

lemma stmt_keeps_CreateGuest [stmt_keeps_rules]: "stmt_keeps db_ok (sql_CreateGuest now g i b)"
  by (simp add: stmt_keeps_def sql_defs db_ok_guests_insert)

lemma stmt_keeps_DeletePermissionPrincipal [stmt_keeps_rules]:
  "stmt_keeps db_ok (sql_DeletePermissionPrincipal u i)"
  by (simp add: stmt_keeps_def sql_defs db_ok_permissions_filter)

lemma stmt_reads_selects [stmt_reads_rules]:
  "stmt_reads (sql_GetDocument i)"
  "stmt_reads (sql_ListDocumentsByCreatedAt u t j n ls)"
  "stmt_reads (sql_ListDocumentsByLastModifiedAt u t j n ls)"
  "stmt_reads (sql_GetPermissionOfPrincipalOnDocument i u)"
  "stmt_reads (sql_ListPermissionOnDocumentCreatedAt i t u n ls)"
  "stmt_reads (sql_ListPermissionOnDocumentLastModifiedAt i t u n ls)"
  "stmt_reads (sql_SelectGuest i)"
  by (simp_all add: stmt_reads_def sql_defs)

lemma stmt_keeps_reads: "stmt_reads stmt \<Longrightarrow> stmt_keeps ok stmt"
  by (simp add: stmt_reads_def stmt_keeps_def)

end
