(* ===== verification/Transactions.thy ===== *)
theory Transactions
  imports Driver
begin

text \<open>
  Atomicity of repository operations, proved from their shape. \<open>atomic bad m\<close>: whatever the
  fault schedule, either \<open>m\<close> does exactly what it does without faults, or it returns an
  error that satisfies \<open>bad\<close> and the tables are those before the call or those of the
  faultless call. The rules below derive it for the shapes the code uses: one statement, a
  read followed by an atomic operation, and \<^verbatim>\<open>Begin\<close>, statements, \<^verbatim>\<open>Commit\<close> under a deferred
  \<^verbatim>\<open>Rollback\<close>. What an operation computes is then a matter of its faultless run alone.
\<close>

definition healthy :: "'d conn \<Rightarrow> 'd conn" where
  "healthy c = c\<lparr>faults := []\<rparr>"

lemma healthy_simps_sel [simp]:
  "tables (healthy c) = tables c" "snapshot (healthy c) = snapshot c" "faults (healthy c) = []"
  "healthy (healthy c) = healthy c" "faults c = [] \<Longrightarrow> healthy c = c"
  by (simp_all add: healthy_def)

lemma healthy_upd [simp]:
  "healthy (c\<lparr>tables := d\<rparr>) = (healthy c)\<lparr>tables := d\<rparr>"
  "healthy (c\<lparr>snapshot := s\<rparr>) = (healthy c)\<lparr>snapshot := s\<rparr>"
  "healthy (c\<lparr>faults := fs\<rparr>) = healthy c"
  by (simp_all add: healthy_def)

lemma healthy_rolled_back: "healthy (rolled_back c) = rolled_back (healthy c)"
  by (simp add: rolled_back_def split: option.splits)

definition is_outage :: "pgx_err \<Rightarrow> bool" where
  "is_outage e \<longleftrightarrow> (\<exists>x. e = outage_err x)"

definition failed :: "('e \<Rightarrow> bool) \<Rightarrow> 'e + 'a \<Rightarrow> bool" where
  "failed bad r \<longleftrightarrow> (\<exists>e. r = Inl e \<and> bad e)"

lemma failed_simps [simp]: "failed bad (Inl e) = bad e" "\<not> failed bad (Inr x)"
  by (simp_all add: failed_def)

text \<open>Three strengths of the statement, for the three places an operation can stand in: a
  step (inside a transaction the tables are free after a fault, the snapshot is not
  touched), the rest of a transaction (up to and including its commit), a whole operation.\<close>

definition as_healthy :: "('d, 'a) db_op \<Rightarrow> 'd conn \<Rightarrow> 'a \<Rightarrow> 'd conn \<Rightarrow> bool" where
  "as_healthy m c r c' \<longleftrightarrow> run_state m (healthy c) = (r, healthy c')"

definition step_ok :: "('e \<Rightarrow> bool) \<Rightarrow> ('d, 'e + 'a) db_op \<Rightarrow> bool" where
  "step_ok bad m \<longleftrightarrow> (\<forall>c. wp m (\<lambda>r c'. (faults c = [] \<longrightarrow> faults c' = []) \<and> snapshot c' = snapshot c \<and>
     (as_healthy m c r c' \<or> faults c \<noteq> [] \<and> failed bad r)) c)"

definition rest_ok :: "('e \<Rightarrow> bool) \<Rightarrow> ('d, 'e + 'a) db_op \<Rightarrow> bool" where
  "rest_ok bad m \<longleftrightarrow> (\<forall>c. wp m (\<lambda>r c'. as_healthy m c r c' \<or>
     faults c \<noteq> [] \<and> failed bad r \<and>
     (snapshot c' = snapshot c \<or> healthy c' = snd (run_state m (healthy c)))) c)"

definition atomic :: "('e \<Rightarrow> bool) \<Rightarrow> ('d, 'e + 'a) db_op \<Rightarrow> bool" where
  "atomic bad m \<longleftrightarrow> (\<forall>c. snapshot c = None \<longrightarrow> wp m (\<lambda>r c'. snapshot c' = None \<and>
     (as_healthy m c r c' \<or> faults c \<noteq> [] \<and> failed bad r \<and>
      (tables c' = tables c \<or> tables c' = tables (snd (run_state m (healthy c)))))) c)"

lemma step_return: "step_ok bad (State_Monad.return r)"
  by (simp add: step_ok_def wp_return as_healthy_def)

lemma step_driver: "step_ok is_outage (driver stmt)"
  by (auto simp: step_ok_def as_healthy_def failed_def is_outage_def run_driver_healthy intro!: wp_driverI)

lemma step_if:
  "(b \<Longrightarrow> step_ok bad m) \<Longrightarrow> (\<not> b \<Longrightarrow> step_ok bad n) \<Longrightarrow> step_ok bad (if b then m else n)"
  by simp

lemma run_check_as_healthy:
  "as_healthy m c (Inr x) c1 \<Longrightarrow> run_state (check m h k) (healthy c) = run_state (k x) (healthy c1)"
  "as_healthy m c (Inl e) c1 \<Longrightarrow> run_state (check m h k) (healthy c) = (Inl (h e), healthy c1)"
  unfolding as_healthy_def by (simp_all add: run_check split: prod.splits)

lemma step_check:
  assumes m: "step_ok bad m" and k: "\<And>x. step_ok bad' (k x)" and h: "\<And>e. bad e \<Longrightarrow> bad' (h e)"
  shows "step_ok bad' (check m h k)"
  unfolding step_ok_def wp_check
proof (intro allI, rule wp_mono)
  fix c
  show "wp m (\<lambda>r c1. (faults c = [] \<longrightarrow> faults c1 = []) \<and> snapshot c1 = snapshot c \<and>
     (as_healthy m c r c1 \<or> faults c \<noteq> [] \<and> failed bad r)) c"
    using m by (simp add: step_ok_def)
next
  fix c r c1
  assume A: "(faults c = [] \<longrightarrow> faults c1 = []) \<and> snapshot c1 = snapshot c \<and>
     (as_healthy m c r c1 \<or> faults c \<noteq> [] \<and> failed bad r)"
  show "(case r of
      Inl e \<Rightarrow> \<lambda>c'. (faults c = [] \<longrightarrow> faults c' = []) \<and> snapshot c' = snapshot c \<and>
        (as_healthy (check m h k) c (Inl (h e)) c' \<or> faults c \<noteq> [] \<and> failed bad' (Inl (h e)))
    | Inr x \<Rightarrow> wp (k x) (\<lambda>r c'. (faults c = [] \<longrightarrow> faults c' = []) \<and> snapshot c' = snapshot c \<and>
        (as_healthy (check m h k) c r c' \<or> faults c \<noteq> [] \<and> failed bad' r))) c1"
  proof (cases r)
    case (Inl e)
    with A h show ?thesis by (auto simp: as_healthy_def run_check split: prod.splits)
  next
    case (Inr x)
    with A have eq: "run_state (check m h k) (healthy c) = run_state (k x) (healthy c1)"
      by (simp add: run_check_as_healthy(1))
    have "wp (k x) (\<lambda>r c'. (faults c1 = [] \<longrightarrow> faults c' = []) \<and> snapshot c' = snapshot c1 \<and>
        (as_healthy (k x) c1 r c' \<or> faults c1 \<noteq> [] \<and> failed bad' r)) c1"
      using k [of x] by (simp add: step_ok_def)
    with Inr A eq show ?thesis by (auto simp: as_healthy_def elim!: wp_mono)
  qed
qed

lemma step_statement:
  "(\<And>e. is_outage e \<Longrightarrow> bad (h e)) \<Longrightarrow> (\<And>x. step_ok bad (k x)) \<Longrightarrow> step_ok bad (check (driver stmt) h k)"
  by (rule step_check [OF step_driver])

lemma rest_Commit:
  assumes "\<And>e. is_outage e \<Longrightarrow> bad (h e)"
  shows "rest_ok bad (check Commit h (\<lambda>_. State_Monad.return r))"
proof -
  have "bad (h (outage_err x))" for x using assms by (auto simp: is_outage_def)
  then show ?thesis
    by (auto simp: rest_ok_def wp_check wp_return as_healthy_def run_check run_Commit_healthy
        intro!: wp_CommitI)
qed

lemma rest_step: "step_ok bad m \<Longrightarrow> rest_ok bad m"
  unfolding step_ok_def rest_ok_def by (blast intro: wp_mono)

lemma rest_check:
  assumes m: "step_ok bad m" and k: "\<And>x. rest_ok bad' (k x)" and h: "\<And>e. bad e \<Longrightarrow> bad' (h e)"
  shows "rest_ok bad' (check m h k)"
  unfolding rest_ok_def wp_check
proof (intro allI, rule wp_mono)
  fix c
  show "wp m (\<lambda>r c1. (faults c = [] \<longrightarrow> faults c1 = []) \<and> snapshot c1 = snapshot c \<and>
     (as_healthy m c r c1 \<or> faults c \<noteq> [] \<and> failed bad r)) c"
    using m by (simp add: step_ok_def)
next
  fix c r c1
  let ?Q = "\<lambda>r c'. as_healthy (check m h k) c r c' \<or> faults c \<noteq> [] \<and> failed bad' r \<and>
     (snapshot c' = snapshot c \<or> healthy c' = snd (run_state (check m h k) (healthy c)))"
  assume A: "(faults c = [] \<longrightarrow> faults c1 = []) \<and> snapshot c1 = snapshot c \<and>
     (as_healthy m c r c1 \<or> faults c \<noteq> [] \<and> failed bad r)"
  show "(case r of Inl e \<Rightarrow> ?Q (Inl (h e)) | Inr x \<Rightarrow> wp (k x) ?Q) c1"
  proof (cases r)
    case (Inl e)
    with A h show ?thesis by (auto simp: as_healthy_def run_check split: prod.splits)
  next
    case (Inr x)
    with A have eq: "run_state (check m h k) (healthy c) = run_state (k x) (healthy c1)"
      by (simp add: run_check_as_healthy(1))
    have "wp (k x) (\<lambda>r c'. as_healthy (k x) c1 r c' \<or> faults c1 \<noteq> [] \<and> failed bad' r \<and>
        (snapshot c' = snapshot c1 \<or> healthy c' = snd (run_state (k x) (healthy c1)))) c1"
      using k [of x] by (simp add: rest_ok_def)
    then have "wp (k x) ?Q c1"
      by (rule wp_mono) (use A eq in \<open>auto simp: as_healthy_def\<close>)
    with Inr show ?thesis by simp
  qed
qed

lemma rest_statement:
  "(\<And>e. is_outage e \<Longrightarrow> bad (h e)) \<Longrightarrow> (\<And>x. rest_ok bad (k x)) \<Longrightarrow> rest_ok bad (check (driver stmt) h k)"
  by (rule rest_check [OF step_driver])

named_theorems atomic_intros \<open>whole operations\<close>

lemma atomic_return [atomic_intros]: "atomic bad (State_Monad.return r)"
  by (simp add: atomic_def wp_return as_healthy_def)

lemma atomic_if [atomic_intros]:
  "(b \<Longrightarrow> atomic bad m) \<Longrightarrow> (\<not> b \<Longrightarrow> atomic bad n) \<Longrightarrow> atomic bad (if b then m else n)"
  by simp

lemma atomic_case_option [atomic_intros]:
  "atomic bad n \<Longrightarrow> (\<And>x. atomic bad (f x)) \<Longrightarrow> atomic bad (case v of None \<Rightarrow> n | Some x \<Rightarrow> f x)"
  by (cases v) simp_all

lemma atomic_check_return [atomic_intros]:
  "(\<And>x. r = Inr x \<Longrightarrow> atomic bad (k x)) \<Longrightarrow> atomic bad (check (State_Monad.return r) h k)"
  by (cases r) (simp_all add: check_def atomic_return)

text \<open>The code after the last statement of an operation only returns.\<close>

definition returns :: "('d, 'a) db_op \<Rightarrow> bool" where
  "returns m \<longleftrightarrow> (\<exists>r. m = State_Monad.return r)"

lemma returns_return [atomic_intros]: "returns (State_Monad.return r)"
  by (auto simp: returns_def)

lemma returns_if [atomic_intros]: "returns m \<Longrightarrow> returns n \<Longrightarrow> returns (if b then m else n)"
  by simp

lemma atomic_statement:
  assumes h: "\<And>e. is_outage e \<Longrightarrow> bad (h e)" and k: "\<And>x. returns (k x)"
  shows "atomic bad (check (driver stmt) h k)"
proof -
  from k obtain g where g: "k x = State_Monad.return (g x)" for x
    unfolding returns_def by metis
  have "bad (h (outage_err x))" for x using h by (auto simp: is_outage_def)
  then show ?thesis
    by (auto simp: atomic_def wp_check g wp_return as_healthy_def run_check run_driver_healthy
        intro!: wp_driverI split: sum.splits)
qed

lemma atomic_read:
  assumes r: "reads m" and m: "step_ok bad m" and k: "\<And>x. atomic bad' (k x)"
    and h: "\<And>e. bad e \<Longrightarrow> bad' (h e)"
  shows "atomic bad' (check m h k)"
  unfolding atomic_def wp_check
proof (intro allI impI, rule wp_mono)
  fix c
  show "wp m (\<lambda>r c1. (tables c1 = tables c \<and> snapshot c1 = snapshot c) \<and>
     (faults c = [] \<longrightarrow> faults c1 = []) \<and> snapshot c1 = snapshot c \<and>
     (as_healthy m c r c1 \<or> faults c \<noteq> [] \<and> failed bad r)) c"
    using r m by (intro wp_conj [where P = "\<lambda>_ c1. tables c1 = tables c \<and> snapshot c1 = snapshot c"])
      (simp_all add: step_ok_def reads_def)
next
  fix c r c1
  let ?Q = "\<lambda>r c'. snapshot c' = None \<and> (as_healthy (check m h k) c r c' \<or> faults c \<noteq> [] \<and> failed bad' r \<and>
     (tables c' = tables c \<or> tables c' = tables (snd (run_state (check m h k) (healthy c)))))"
  assume s: "snapshot c = None"
    and A: "(tables c1 = tables c \<and> snapshot c1 = snapshot c) \<and>
     (faults c = [] \<longrightarrow> faults c1 = []) \<and> snapshot c1 = snapshot c \<and>
     (as_healthy m c r c1 \<or> faults c \<noteq> [] \<and> failed bad r)"
  show "(case r of Inl e \<Rightarrow> ?Q (Inl (h e)) | Inr x \<Rightarrow> wp (k x) ?Q) c1"
  proof (cases r)
    case (Inl e)
    with s A h show ?thesis by (auto simp: as_healthy_def run_check split: prod.splits)
  next
    case (Inr x)
    with A have eq: "run_state (check m h k) (healthy c) = run_state (k x) (healthy c1)"
      by (simp add: run_check_as_healthy(1))
    have "wp (k x) (\<lambda>r c'. snapshot c' = None \<and> (as_healthy (k x) c1 r c' \<or> faults c1 \<noteq> [] \<and> failed bad' r \<and>
        (tables c' = tables c1 \<or> tables c' = tables (snd (run_state (k x) (healthy c1)))))) c1"
      using k [of x] unfolding atomic_def by (rule allE [where x = c1]) (use s A in \<open>simp only: simp_thms\<close>)
    then have "wp (k x) ?Q c1"
      by (rule wp_mono) (use A eq in \<open>auto simp: as_healthy_def\<close>)
    with Inr show ?thesis by simp
  qed
qed

lemma atomic_select:
  "stmt_reads stmt \<Longrightarrow> (\<And>e. is_outage e \<Longrightarrow> bad (h e)) \<Longrightarrow> (\<And>x. atomic bad (k x)) \<Longrightarrow>
   atomic bad (check (driver stmt) h k)"
  by (rule atomic_read [OF reads_driver step_driver])

lemma atomic_transaction:
  assumes m: "rest_ok bad m" and h: "\<And>e. is_outage e \<Longrightarrow> bad (h e)"
  shows "atomic bad (check Begin h (\<lambda>_. defer_Rollback m))"
  unfolding atomic_def wp_check wp_defer_Rollback
proof (intro allI impI wp_BeginI; unfold sum.case)
  fix c :: "'b conn"
  let ?whole = "check Begin h (\<lambda>_. defer_Rollback m)"
  let ?c1 = "c\<lparr>snapshot := Some (tables c), faults := tl (faults c)\<rparr>"
  assume s: "snapshot c = None"
  have whole: "run_state ?whole (healthy c) =
      (fst (run_state m (healthy ?c1)), rolled_back (snd (run_state m (healthy ?c1))))"
    by (simp add: run_check run_Begin_healthy run_defer_Rollback split: prod.splits)
  have "wp m (\<lambda>r c'. as_healthy m ?c1 r c' \<or> faults ?c1 \<noteq> [] \<and> failed bad r \<and>
     (snapshot c' = snapshot ?c1 \<or> healthy c' = snd (run_state m (healthy ?c1)))) ?c1"
    using m unfolding rest_ok_def by (rule spec)
  then show "wp m (\<lambda>r c'. snapshot (rolled_back c') = None \<and>
     (as_healthy ?whole c r (rolled_back c') \<or> faults c \<noteq> [] \<and> failed bad r \<and>
      (tables (rolled_back c') = tables c \<or> tables (rolled_back c') = tables (snd (run_state ?whole (healthy c))))))
     ?c1"
    by (rule wp_mono)
      (auto simp: as_healthy_def whole healthy_rolled_back healthy_upd simp del: healthy_upd
        dest: tl_nonempty arg_cong [where f = "\<lambda>c. tables (rolled_back c)"] simp flip: healthy_rolled_back)
next
  fix c :: "'b conn" and x
  assume "snapshot c = None" "faults c \<noteq> []"
  with h [of "outage_err x"] show "snapshot (c\<lparr>faults := tl (faults c)\<rparr>) = None \<and>
     (as_healthy (check Begin h (\<lambda>_. defer_Rollback m)) c (Inl (h (outage_err x))) (c\<lparr>faults := tl (faults c)\<rparr>) \<or>
      faults c \<noteq> [] \<and> failed bad (Inl (h (outage_err x))) \<and>
      (tables (c\<lparr>faults := tl (faults c)\<rparr>) = tables c \<or>
       tables (c\<lparr>faults := tl (faults c)\<rparr>) = tables (snd (run_state (check Begin h (\<lambda>_. defer_Rollback m)) (healthy c)))))"
    by (auto simp: is_outage_def)
qed

section \<open>Specifications on the tables\<close>

text \<open>\<open>implements bad ok m f\<close>: under the invariant \<open>ok\<close> the operation is the function \<open>f\<close> on the
  tables, except that with a fault it may fail with a \<open>bad\<close> error and the old or the new
  tables.\<close>

definition implements ::
  "('e \<Rightarrow> bool) \<Rightarrow> ('d \<Rightarrow> bool) \<Rightarrow> ('d, 'e + 'a) db_op \<Rightarrow> ('d \<Rightarrow> ('e + 'a) \<times> 'd) \<Rightarrow> bool" where
  "implements bad ok m f \<longleftrightarrow> (\<forall>c. snapshot c = None \<longrightarrow> ok (tables c) \<longrightarrow>
     wp m (\<lambda>r c'. snapshot c' = None \<and> ok (tables c') \<and>
       ((r, tables c') = f (tables c) \<or> faults c \<noteq> [] \<and> failed bad r \<and>
        (tables c' = tables c \<or> tables c' = snd (f (tables c))))) c)"

lemma implementsI:
  assumes "atomic bad m" and "keeps ok m"
    and run: "\<And>c. faults c = [] \<Longrightarrow> snapshot c = None \<Longrightarrow> ok (tables c) \<Longrightarrow>
      wp m (\<lambda>r c'. (r, tables c') = f (tables c)) c"
  shows "implements bad ok m f"
  unfolding implements_def
proof (intro allI impI)
  fix c :: "'b conn"
  assume c: "snapshot c = None" "ok (tables c)"
  from c assms(2) have ok: "wp m (\<lambda>_. conn_ok ok) c"
    by (simp add: keeps_def conn_ok_def)
  have at: "wp m (\<lambda>r c'. snapshot c' = None \<and> (as_healthy m c r c' \<or> faults c \<noteq> [] \<and> failed bad r \<and>
      (tables c' = tables c \<or> tables c' = tables (snd (run_state m (healthy c)))))) c"
    using assms(1) c(1) by (simp add: atomic_def)
  from run [of "healthy c"] c have
    "(fst (run_state m (healthy c)), tables (snd (run_state m (healthy c)))) = f (tables c)"
    by (simp add: wp_run)
  then have res: "(r, tables c') = f (tables c) \<or> faults c \<noteq> [] \<and> failed bad r \<and>
        (tables c' = tables c \<or> tables c' = snd (f (tables c)))"
    if "as_healthy m c r c' \<or> faults c \<noteq> [] \<and> failed bad r \<and>
      (tables c' = tables c \<or> tables c' = tables (snd (run_state m (healthy c))))" for r c'
    using that by (auto simp: as_healthy_def dest: arg_cong [where f = snd])
  show "wp m (\<lambda>r c'. snapshot c' = None \<and> ok (tables c') \<and>
       ((r, tables c') = f (tables c) \<or> faults c \<noteq> [] \<and> failed bad r \<and>
        (tables c' = tables c \<or> tables c' = snd (f (tables c))))) c"
  proof (rule wp_mono [OF wp_conj [OF ok at]], elim conjE, intro conjI)
    fix r c'
    assume "conn_ok ok c'"
    then show "ok (tables c')" by (simp add: conn_ok_def)
  qed (assumption, rule res)
qed

lemma implementsD:
  assumes "implements bad ok m f" "run_state m c = (r, c')" "snapshot c = None" "ok (tables c)"
  shows "snapshot c' = None" "ok (tables c')"
    "(r, tables c') = f (tables c) \<or> faults c \<noteq> [] \<and> failed bad r \<and>
       (tables c' = tables c \<or> tables c' = snd (f (tables c)))"
  using assms by (auto simp: implements_def dest: wpD)

lemma implements_success:
  assumes "implements bad ok m f" "run_state m c = (Inr x, c')" "snapshot c = None" "ok (tables c)"
  shows "f (tables c) = (Inr x, tables c')" "snapshot c' = None" "ok (tables c')"
  using implementsD [OF assms] by (auto simp: failed_def)

lemma implements_healthy:
  assumes "implements bad ok m f" "snapshot c = None" "ok (tables c)" "faults c = []"
  shows "fst (run_state m c) = fst (f (tables c))" "tables (snd (run_state m c)) = snd (f (tables c))"
proof -
  obtain r c' where run: "run_state m c = (r, c')" by fastforce
  from implementsD(3) [OF assms(1) run assms(2,3)] assms(4) have "(r, tables c') = f (tables c)" by simp
  with run show "fst (run_state m c) = fst (f (tables c))" "tables (snd (run_state m c)) = snd (f (tables c))"
    by (metis fst_conv snd_conv)+
qed

end
