(* ===== verification/Doc_Repository.thy ===== *)
theory Doc_Repository
  imports Doc_Sql Transactions
begin

text \<open>
  \<^verbatim>\<open>document_service/internal/repository/document_repository.go\<close>: the PostgreSQL
  implementation of the \<^verbatim>\<open>DocumentRepository\<close> interface, function by function and branch by
  branch. An operation runs in the state monad of a database connection and returns an
  error or a value; \<open>check\<close> is Go's \<^verbatim>\<open>if err != nil\<close>. The lemmas below the definitions give
  what every operation guarantees under every fault schedule: it keeps the schema, it
  closes its transaction, and a failed call leaves either the old tables or (the reply to
  the commit lost) exactly the tables a successful call leaves.
\<close>

type_synonym 'a doc_op = "(doc_db, doc_err + 'a) db_op"

abbreviation ret :: "'a \<Rightarrow> 'a doc_op" where "ret x \<equiv> State_Monad.return (Inr x)"
abbreviation fail :: "doc_err \<Rightarrow> 'a doc_op" where "fail e \<equiv> State_Monad.return (Inl e)"

abbreviation repo_impl :: "pgx_err \<Rightarrow> doc_err" where
  "repo_impl e \<equiv> RepoImpl (Some (Pgx e))"

text \<open>\<^verbatim>\<open>errors.Is(err, pgx.ErrNoRows)\<close> gives NotFound, anything else RepoImpl.\<close>

definition not_found_or_impl :: "pgx_err \<Rightarrow> doc_err" where
  "not_found_or_impl e = (if e = ErrNoRows then NotFound (Some (Pgx e)) else repo_impl e)"

text \<open>\<^verbatim>\<open>errors.As(err, &pgError)\<close> with the conflict code gives UniqueConflict.\<close>

definition conflict_or_impl :: "pgx_err \<Rightarrow> doc_err" where
  "conflict_or_impl e = (case e of
      PgError code \<Rightarrow> if code = unique_violation then UniqueConflict (Some (Pgx e)) else repo_impl e
    | _ \<Rightarrow> repo_impl e)"

text \<open>The zero value of Go's \<^verbatim>\<open>time.Time\<close>: 1 January of the year 1, UTC.\<close>

definition time_zero :: time where "time_zero = - 62135596800 * 1000000000"

section \<open>Conversions\<close>

definition repositoryToServiceDocument :: "env \<Rightarrow> documents_row \<Rightarrow> doc_err + Document" where
  [conv_defs]: "repositoryToServiceDocument E r =
     (case uuid_FromBytes E (d_id r) of
        None \<Rightarrow> Inl (Errorf None)
      | Some documentId \<Rightarrow> Inr
          \<lparr> doc_ID = documentId, doc_Name = d_name r, doc_Description = d_description r,
            doc_CreatedAt = d_created_at r, doc_LastModifiedAt = d_last_modified_at r \<rparr>)"

definition serviceToRepoPermissionLevel :: "PermissionLevel \<Rightarrow> doc_err + sqlc_PermissionLevel" where
  [conv_defs]: "serviceToRepoPermissionLevel l =
     (if l = Viewer then Inr PermissionLevelViewer
      else if l = Editor then Inr PermissionLevelEditor
      else if l = Owner then Inr PermissionLevelOwner
      else Inl (Errorf None))"

fun repoToServicePermissionLevel :: "sqlc_PermissionLevel \<Rightarrow> doc_err + PermissionLevel" where
  "repoToServicePermissionLevel PermissionLevelViewer = Inr Viewer"
| "repoToServicePermissionLevel PermissionLevelEditor = Inr Editor"
| "repoToServicePermissionLevel PermissionLevelOwner = Inr Owner"
| "repoToServicePermissionLevel (PermissionLevelOther _) = Inl (Errorf None)"

fun repoToServiceRecipientType :: "sqlc_RecipientType \<Rightarrow> doc_err + RecipientType" where
  "repoToServiceRecipientType RecipientTypeUser = Inr Recipient_User"
| "repoToServiceRecipientType RecipientTypeGuest = Inr Recipient_Guest"
| "repoToServiceRecipientType (RecipientTypeOther _) = Inl (Errorf None)"

definition parse_uuid_bytes :: "env \<Rightarrow> uuid \<Rightarrow> doc_err + uuid" where
  [conv_defs]: "parse_uuid_bytes E b =
     (case uuid_FromBytes E b of None \<Rightarrow> Inl (Errorf None) | Some u \<Rightarrow> Inr u)"

definition repoToServicePermission :: "env \<Rightarrow> permissions_row \<Rightarrow> doc_err + Permission" where
  [conv_defs]: "repoToServicePermission E p =
     checked (repoToServicePermissionLevel (p_permission_level p)) (\<lambda>e. RepoImpl (Some e)) (\<lambda>permissionLevel.
     checked (repoToServiceRecipientType (p_recipient_type p)) (\<lambda>e. RepoImpl (Some e)) (\<lambda>serviceRecipientType.
     checked (parse_uuid_bytes E (p_recipient_id p)) (\<lambda>e. RepoImpl (Some e)) (\<lambda>recipientId.
     checked (parse_uuid_bytes E (p_document_id p)) (\<lambda>e. RepoImpl (Some e)) (\<lambda>documentId.
     checked (parse_uuid_bytes E (p_created_by p)) (\<lambda>e. RepoImpl (Some e)) (\<lambda>creatorId.
       Inr \<lparr> perm_RecipientID = recipientId, perm_RecipientType = serviceRecipientType,
             perm_DocumentID = documentId, perm_PermissionLevel = permissionLevel,
             perm_CreatedBy = creatorId, perm_CreatedAt = p_created_at p,
             perm_LastModifiedAt = p_created_at p \<rparr>)))))"

definition parseDocumentPermission ::
  "env \<Rightarrow> documents_row \<times> sqlc_PermissionLevel \<Rightarrow> doc_err + DocumentPermission" where
  [conv_defs]: "parseDocumentPermission E row =
     checked (repoToServicePermissionLevel (snd row)) (\<lambda>e. RepoImpl (Some e)) (\<lambda>permissionLevelService.
     checked (repositoryToServiceDocument E (fst row)) (\<lambda>e. RepoImpl (Some e)) (\<lambda>serviceDocument.
       Inr \<lparr> dp_Document = serviceDocument, dp_Permission = permissionLevelService \<rparr>))"

section \<open>Documents\<close>

definition repo_CreateDocument ::
  "env \<Rightarrow> uuid \<Rightarrow> string option \<Rightarrow> string option \<Rightarrow> uuid doc_op" where
  "repo_CreateDocument E userId documentName documentDescription =
     check Begin repo_impl (\<lambda>_.
     defer_Rollback (
       let documentId = uuid_New E in
       check (driver (sql_CreateDocument (db_NOW E) documentId documentName documentDescription)) repo_impl (\<lambda>_.
       check (driver (sql_UpsertPermissionUser (db_NOW E) userId documentId PermissionLevelOwner userId)) repo_impl (\<lambda>_.
       check Commit repo_impl (\<lambda>_.
       ret documentId)))))"

definition repo_GetDocument :: "env \<Rightarrow> uuid \<Rightarrow> Document doc_op" where
  "repo_GetDocument E documentId =
     check (driver (sql_GetDocument documentId)) not_found_or_impl (\<lambda>repoDocument.
     check (State_Monad.return (repositoryToServiceDocument E repoDocument)) (\<lambda>e. RepoImpl (Some e)) (\<lambda>document.
     ret document))"

definition repo_UpdateDocument :: "uuid \<Rightarrow> string option \<Rightarrow> string option \<Rightarrow> unit doc_op" where
  "repo_UpdateDocument documentId documentName documentDescription =
     (if documentName = None \<and> documentDescription = None then fail (InvalidInput None)
      else check (driver (sql_UpdateDocument documentId documentName documentDescription)) repo_impl (\<lambda>countRows.
        if countRows < 1 then fail (NotFound None) else ret ()))"

definition deleteDocumentHelper :: "uuid \<Rightarrow> unit doc_op" where
  "deleteDocumentHelper documentId =
     check (driver (sql_DeletePermissionByDocument documentId)) repo_impl (\<lambda>_.
     check (driver (sql_DeleteGuestsByDocument documentId)) repo_impl (\<lambda>_.
     check (driver (sql_DeleteDocument documentId)) repo_impl (\<lambda>count.
     if count < 1 then fail (NotFound None) else ret ())))"

definition repo_DeleteDocument :: "uuid \<Rightarrow> unit doc_op" where
  "repo_DeleteDocument documentId =
     check Begin repo_impl (\<lambda>_.
     defer_Rollback (
       check (deleteDocumentHelper documentId) id (\<lambda>_.
       check Commit repo_impl (\<lambda>_.
       ret ()))))"

fun delete_loop :: "uuid list \<Rightarrow> unit doc_op" where
  "delete_loop [] = ret ()"
| "delete_loop (documentId # documentIds) =
     check (deleteDocumentHelper documentId) id (\<lambda>_. delete_loop documentIds)"

definition repo_DeleteDocuments :: "uuid list \<Rightarrow> uuid \<Rightarrow> unit doc_op" where
  "repo_DeleteDocuments documentIds userId =
     (if length documentIds < 1 then fail (InvalidInput None)
      else check Begin repo_impl (\<lambda>_.
        defer_Rollback (
          check (delete_loop documentIds) id (\<lambda>_.
          check Commit repo_impl (\<lambda>_.
          ret ())))))"

section \<open>Listings\<close>

definition readDocuments ::
  "env \<Rightarrow> uuid \<Rightarrow> sqlc_PermissionLevel list \<Rightarrow> Cursor \<Rightarrow> int32 \<Rightarrow> DocumentPermission list doc_op" where
  "readDocuments E principalId repoPermissionList cursor pageSize =
     (if cur_SortField cursor = Sort_CreatedAt then
        check (driver (sql_ListDocumentsByCreatedAt principalId (cur_LastSeenTime cursor)
                 (cur_LastSeenID cursor) pageSize repoPermissionList)) repo_impl (\<lambda>rows.
        State_Monad.return (map_err (parseDocumentPermission E) rows))
      else if cur_SortField cursor = Sort_LastModifiedAt then
        check (driver (sql_ListDocumentsByLastModifiedAt principalId (cur_LastSeenTime cursor)
                 (cur_LastSeenID cursor) pageSize repoPermissionList)) repo_impl (\<lambda>rows.
        State_Monad.return (map_err (parseDocumentPermission E) rows))
      else ret [])"

text \<open>The cursor of the response: the position of the last document, or the old position
  when the page is empty.\<close>

definition documents_cursor :: "Cursor \<Rightarrow> DocumentPermission list \<Rightarrow> Cursor" where
  "documents_cursor cursor documentPermissions =
     (if length documentPermissions > 0 then
        (let document = dp_Document (last documentPermissions) in
         \<lparr> cur_SortField = cur_SortField cursor,
           cur_LastSeenTime = (if cur_SortField cursor = Sort_CreatedAt then doc_CreatedAt document
                               else doc_LastModifiedAt document),
           cur_LastSeenID = doc_ID document \<rparr>)
      else
        \<lparr> cur_SortField = cur_SortField cursor, cur_LastSeenTime = cur_LastSeenTime cursor,
          cur_LastSeenID = cur_LastSeenID cursor \<rparr>)"

definition repo_ListDocumentsByPrincipal ::
  "env \<Rightarrow> uuid \<Rightarrow> PermissionLevel list \<Rightarrow> Cursor option \<Rightarrow> int32 \<Rightarrow>
   (DocumentPermission list \<times> Cursor) doc_op" where
  "repo_ListDocumentsByPrincipal E principalId permissionList cursor pageSize =
     (case cursor of
        None \<Rightarrow> fail ErrNilPointer
      | Some cur \<Rightarrow>
          if length permissionList < 1 then fail (InvalidInput None)
          else check (State_Monad.return (map_err serviceToRepoPermissionLevel permissionList))
                 (\<lambda>_. InvalidInput None) (\<lambda>repoPermissionsList.
               check (readDocuments E principalId repoPermissionsList cur pageSize) id (\<lambda>documentPermissions.
               ret (documentPermissions, documents_cursor cur documentPermissions))))"

definition repo_GetPermissionOfPrincipalOnDocument :: "env \<Rightarrow> uuid \<Rightarrow> uuid \<Rightarrow> Permission doc_op" where
  "repo_GetPermissionOfPrincipalOnDocument E documentId principalId =
     check (driver (sql_GetPermissionOfPrincipalOnDocument documentId principalId)) not_found_or_impl (\<lambda>row.
     State_Monad.return (repoToServicePermission E row))"

definition readPermissions ::
  "uuid \<Rightarrow> sqlc_PermissionLevel list \<Rightarrow> Cursor \<Rightarrow> int32 \<Rightarrow> permissions_row list doc_op" where
  "readPermissions documentId permissionFilter cursor maxPermissions =
     (if cur_SortField cursor = Sort_CreatedAt then
        check (driver (sql_ListPermissionOnDocumentCreatedAt documentId (cur_LastSeenTime cursor)
                 (cur_LastSeenID cursor) maxPermissions permissionFilter)) repo_impl ret
      else if cur_SortField cursor = Sort_LastModifiedAt then
        check (driver (sql_ListPermissionOnDocumentLastModifiedAt documentId (cur_LastSeenTime cursor)
                 (cur_LastSeenID cursor) maxPermissions permissionFilter)) repo_impl ret
      else ret [])"

definition permissions_cursor :: "Cursor \<Rightarrow> Permission list \<Rightarrow> Cursor" where
  "permissions_cursor cursor perms =
     (if length perms > 0 then
        (let permission = last perms in
         \<lparr> cur_SortField = cur_SortField cursor,
           cur_LastSeenTime = (if cur_SortField cursor = Sort_CreatedAt then perm_CreatedAt permission
                               else if cur_SortField cursor = Sort_LastModifiedAt then perm_LastModifiedAt permission
                               else time_zero),
           cur_LastSeenID = perm_RecipientID permission \<rparr>)
      else
        \<lparr> cur_SortField = cur_SortField cursor, cur_LastSeenTime = cur_LastSeenTime cursor,
          cur_LastSeenID = cur_LastSeenID cursor \<rparr>)"

definition repo_ListPermissionsOnDocument ::
  "env \<Rightarrow> uuid \<Rightarrow> PermissionLevel list \<Rightarrow> Cursor option \<Rightarrow> int32 \<Rightarrow>
   (Permission list \<times> Cursor) doc_op" where
  "repo_ListPermissionsOnDocument E documentId permissionFilter cursor pageSize =
     (if length permissionFilter < 1 then fail (InvalidInput None)
      else check (State_Monad.return (map_err serviceToRepoPermissionLevel permissionFilter))
             (\<lambda>e. InvalidInput (Some e)) (\<lambda>repoPermissionFilter.
        case cursor of
          None \<Rightarrow> fail ErrNilPointer
        | Some cur \<Rightarrow>
            check Begin repo_impl (\<lambda>_.
            defer_Rollback (
              check (driver (sql_GetDocument documentId)) not_found_or_impl (\<lambda>_.
              check (readPermissions documentId repoPermissionFilter cur pageSize) (\<lambda>e. RepoImpl (Some e)) (\<lambda>repoPermissions.
              check (State_Monad.return (map_err (repoToServicePermission E) repoPermissions)) id (\<lambda>perms.
              ret (perms, permissions_cursor cur perms))))))))"

section \<open>Guests and permissions\<close>

definition repo_CreateGuest :: "env \<Rightarrow> uuid \<Rightarrow> uuid \<Rightarrow> PermissionLevel \<Rightarrow> uuid doc_op" where
  "repo_CreateGuest E creatorId documentId permissionLevel =
     (let guestId = uuid_New E in
      check (State_Monad.return (serviceToRepoPermissionLevel permissionLevel)) (\<lambda>e. InvalidInput (Some e)) (\<lambda>repoPermission.
      check Begin repo_impl (\<lambda>_.
      defer_Rollback (
        check (driver (sql_GetDocument documentId)) not_found_or_impl (\<lambda>_.
        check (driver (sql_CreateGuest (db_NOW E) guestId documentId creatorId)) conflict_or_impl (\<lambda>_.
        check (driver (sql_InsertPermissionGuest (db_NOW E) guestId documentId repoPermission creatorId)) conflict_or_impl (\<lambda>_.
        check Commit repo_impl (\<lambda>_.
        ret guestId))))))))"

definition repo_UpsertPermissionUser :: "env \<Rightarrow> uuid \<Rightarrow> uuid \<Rightarrow> PermissionLevel \<Rightarrow> unit doc_op" where
  "repo_UpsertPermissionUser E userId documentId permissionLevel =
     check (State_Monad.return (serviceToRepoPermissionLevel permissionLevel)) (\<lambda>e. InvalidInput (Some e)) (\<lambda>repoPermission.
     check Begin repo_impl (\<lambda>_.
     defer_Rollback (
       check (driver (sql_GetDocument documentId)) not_found_or_impl (\<lambda>_.
       check (driver (sql_UpsertPermissionUser (db_NOW E) userId documentId repoPermission userId)) repo_impl (\<lambda>_.
       check Commit repo_impl (\<lambda>_.
       ret ()))))))"

definition repo_UpdatePermissionGuest :: "env \<Rightarrow> uuid \<Rightarrow> PermissionLevel \<Rightarrow> unit doc_op" where
  "repo_UpdatePermissionGuest E guestId permissionLevel =
     check (State_Monad.return (serviceToRepoPermissionLevel permissionLevel)) (\<lambda>e. InvalidInput (Some e)) (\<lambda>permissionRepo.
     check (driver (sql_SelectGuest guestId)) not_found_or_impl (\<lambda>guest.
     check (driver (sql_UpdatePermissionGuest (db_NOW E) guestId (g_document_id guest) permissionRepo)) repo_impl (\<lambda>count.
     if count < 1 then fail (NotFound None) else ret ())))"

definition repo_DeletePermissionsPrincipal :: "uuid \<Rightarrow> uuid \<Rightarrow> unit doc_op" where
  "repo_DeletePermissionsPrincipal recipientId documentId =
     check (driver (sql_DeletePermissionPrincipal recipientId documentId)) repo_impl (\<lambda>count.
     if count < 1 then fail (NotFound None) else ret ())"

section \<open>Every operation keeps the schema\<close>

lemmas doc_keeps = keeps_intros stmt_keeps_rules stmt_keeps_reads stmt_reads_rules

lemma keeps_deleteDocumentHelper: "keeps db_ok (deleteDocumentHelper i)"
  unfolding deleteDocumentHelper_def by (intro doc_keeps)

lemma keeps_delete_loop: "keeps db_ok (delete_loop ids)"
  by (induction ids) (auto intro!: keeps_intros keeps_deleteDocumentHelper)

lemma keeps_writes:
  "keeps db_ok (repo_CreateDocument E u n s)"
  "keeps db_ok (repo_UpdateDocument i n s)"
  "keeps db_ok (repo_DeleteDocument i)"
  "keeps db_ok (repo_DeleteDocuments ids u)"
  "keeps db_ok (repo_CreateGuest E u i l)"
  "keeps db_ok (repo_UpsertPermissionUser E u i l)"
  "keeps db_ok (repo_UpdatePermissionGuest E g l)"
  "keeps db_ok (repo_DeletePermissionsPrincipal u i)"
  unfolding repo_CreateDocument_def repo_UpdateDocument_def repo_DeleteDocument_def
    repo_DeleteDocuments_def repo_CreateGuest_def repo_UpsertPermissionUser_def
    repo_UpdatePermissionGuest_def repo_DeletePermissionsPrincipal_def Let_def
  by (intro doc_keeps keeps_deleteDocumentHelper keeps_delete_loop)+

lemma keeps_readDocuments: "keeps db_ok (readDocuments E u ls cur n)"
  unfolding readDocuments_def by (intro doc_keeps)

lemma keeps_readPermissions: "keeps db_ok (readPermissions i ls cur n)"
  unfolding readPermissions_def by (intro doc_keeps)

lemma keeps_reads:
  "keeps db_ok (repo_GetDocument E i)"
  "keeps db_ok (repo_ListDocumentsByPrincipal E u ls cur n)"
  "keeps db_ok (repo_GetPermissionOfPrincipalOnDocument E i u)"
  "keeps db_ok (repo_ListPermissionsOnDocument E i ls cur n)"
  unfolding repo_GetDocument_def repo_ListDocumentsByPrincipal_def
    repo_GetPermissionOfPrincipalOnDocument_def repo_ListPermissionsOnDocument_def
  by (intro doc_keeps keeps_readDocuments keeps_readPermissions)+

section \<open>Every operation is atomic\<close>

text \<open>The error of an operation that met a fault wraps the error of the driver.\<close>

definition wraps_outage :: "doc_err \<Rightarrow> bool" where
  "wraps_outage e \<longleftrightarrow> (\<exists>x. Pgx (outage_err x) \<in> set (err_chain e))"

lemma wraps_outage_wrappers:
  "is_outage e \<Longrightarrow> wraps_outage (repo_impl e)"
  "is_outage e \<Longrightarrow> wraps_outage (not_found_or_impl e)"
  "is_outage e \<Longrightarrow> wraps_outage (conflict_or_impl e)"
  "wraps_outage f \<Longrightarrow> wraps_outage (RepoImpl (Some f))"
  "wraps_outage f \<Longrightarrow> wraps_outage (id f)"
  by (auto simp: wraps_outage_def is_outage_def not_found_or_impl_def conflict_or_impl_def
      split: pgx_err.splits)

lemmas doc_atomic = atomic_intros atomic_transaction rest_Commit rest_statement
  rest_check [of wraps_outage] step_return step_if step_statement step_check [of wraps_outage]
  wraps_outage_wrappers

lemma step_deleteDocumentHelper: "step_ok wraps_outage (deleteDocumentHelper i)"
  unfolding deleteDocumentHelper_def by (intro doc_atomic)+

lemma step_delete_loop: "step_ok wraps_outage (delete_loop ids)"
  by (induction ids) (auto intro!: step_return step_check step_deleteDocumentHelper wraps_outage_wrappers)

lemma step_readDocuments: "step_ok wraps_outage (readDocuments E u ls cur n)"
  unfolding readDocuments_def by (intro doc_atomic)+

lemma step_readPermissions: "step_ok wraps_outage (readPermissions i ls cur n)"
  unfolding readPermissions_def by (intro doc_atomic)+

lemma reads_readDocuments: "reads (readDocuments E u ls cur n)"
  unfolding readDocuments_def by (auto intro!: reads_intros stmt_reads_rules)

lemma atomic_CreateDocument: "atomic wraps_outage (repo_CreateDocument E u n s)"
  unfolding repo_CreateDocument_def Let_def by (intro doc_atomic)+

lemma atomic_GetDocument: "atomic wraps_outage (repo_GetDocument E i)"
  unfolding repo_GetDocument_def by (intro atomic_select stmt_reads_rules doc_atomic)+

lemma atomic_UpdateDocument: "atomic wraps_outage (repo_UpdateDocument i n s)"
  unfolding repo_UpdateDocument_def by (intro atomic_statement doc_atomic)+

lemma atomic_DeleteDocument: "atomic wraps_outage (repo_DeleteDocument i)"
  unfolding repo_DeleteDocument_def by (intro doc_atomic step_deleteDocumentHelper)+

lemma atomic_DeleteDocuments: "atomic wraps_outage (repo_DeleteDocuments ids u)"
  unfolding repo_DeleteDocuments_def by (intro doc_atomic step_delete_loop)+

lemma atomic_ListDocumentsByPrincipal: "atomic wraps_outage (repo_ListDocumentsByPrincipal E u ls cur n)"
  unfolding repo_ListDocumentsByPrincipal_def
  by (intro doc_atomic atomic_read [of _ wraps_outage] reads_readDocuments step_readDocuments)+

lemma atomic_GetPermission: "atomic wraps_outage (repo_GetPermissionOfPrincipalOnDocument E i u)"
  unfolding repo_GetPermissionOfPrincipalOnDocument_def
  by (intro atomic_select stmt_reads_rules doc_atomic)+

lemma atomic_ListPermissionsOnDocument: "atomic wraps_outage (repo_ListPermissionsOnDocument E i ls cur n)"
  unfolding repo_ListPermissionsOnDocument_def
  by (intro doc_atomic step_readPermissions rest_step)+

lemma atomic_CreateGuest: "atomic wraps_outage (repo_CreateGuest E u i l)"
  unfolding repo_CreateGuest_def Let_def by (intro doc_atomic)+

lemma atomic_UpsertPermissionUser: "atomic wraps_outage (repo_UpsertPermissionUser E u i l)"
  unfolding repo_UpsertPermissionUser_def by (intro doc_atomic)+

lemma atomic_UpdatePermissionGuest: "atomic wraps_outage (repo_UpdatePermissionGuest E g l)"
  unfolding repo_UpdatePermissionGuest_def
  by (intro atomic_check_return atomic_select stmt_reads_rules atomic_statement doc_atomic)+

lemma atomic_DeletePermissionsPrincipal: "atomic wraps_outage (repo_DeletePermissionsPrincipal u i)"
  unfolding repo_DeletePermissionsPrincipal_def by (intro atomic_statement doc_atomic)+

end
