(* ===== verification/Keyset.thy ===== *)
theory Keyset
  imports Prelude
begin

text \<open>
  Keyset pagination, the technique behind the four listings of the document service: a page
  holds the first items below a cursor in descending key order, and the next cursor is the
  key of its last item. \<open>is_page\<close> says what a page must be; the locale \<open>keyset_listing\<close>
  states the contract of one listing call and derives, once for all listings, that a client
  who follows the cursors sees every item below the first cursor exactly once, in order.
\<close>

section \<open>Pages\<close>

definition is_page :: "('i \<Rightarrow> 'k::linorder) \<Rightarrow> 'i set \<Rightarrow> 'k \<Rightarrow> nat \<Rightarrow> 'i list \<Rightarrow> bool" where
  "is_page key items k n xs \<longleftrightarrow>
     sorted_wrt (\<lambda>a b. key b < key a) xs \<and> length xs \<le> n \<and>
     set xs \<subseteq> {x \<in> items. key x < k} \<and>
     (\<forall>y \<in> items. key y < k \<longrightarrow> y \<notin> set xs \<longrightarrow> length xs = n \<and> (\<forall>x \<in> set xs. key y < key x))"

text \<open>A client that asks for page after page until one is empty.\<close>

fun walk :: "('cur \<Rightarrow> 'i list \<times> 'cur) \<Rightarrow> nat \<Rightarrow> 'cur \<Rightarrow> 'i list" where
  "walk fetch 0 cur = []"
| "walk fetch (Suc fuel) cur =
     (case fetch cur of (xs, cur') \<Rightarrow> if xs = [] then [] else xs @ walk fetch fuel cur')"

text \<open>The same client without a bound on the number of its calls: None if it never ends.\<close>

partial_function (option) page_loop :: "('cur \<Rightarrow> 'i list \<times> 'cur) \<Rightarrow> 'cur \<Rightarrow> 'i list option" where
  "page_loop fetch cur = (if fst (fetch cur) = [] then Some []
     else Option.bind (page_loop fetch (snd (fetch cur))) (\<lambda>ys. Some (fst (fetch cur) @ ys)))"

lemma is_page_take:
  assumes "distinct (map key rows)"
  shows "is_page key (set rows) k n (take n (order_desc key (filter (\<lambda>x. key x < k) rows)))"
proof -
  define l where "l = order_desc key (filter (\<lambda>x. key x < k) rows)"
  have "distinct (map key (filter (\<lambda>x. key x < k) rows))"
    using assms by (simp add: distinct_map_filter)
  then have desc: "sorted_wrt (\<lambda>a b. key b < key a) l"
    unfolding l_def by (rule strict_sorted_order_desc)
  have l: "set l = {x \<in> set rows. key x < k}" by (auto simp: l_def)
  have rest: "length (take n l) = n \<and> (\<forall>x \<in> set (take n l). key y < key x)"
    if "y \<in> set l" "y \<notin> set (take n l)" for y
  proof -
    from that have y: "y \<in> set (drop n l)"
      by (metis append_take_drop_id Un_iff set_append)
    then have "length (take n l) = n" by (cases "n \<le> length l") auto
    moreover have "sorted_wrt (\<lambda>a b. key b < key a) (take n l @ drop n l)" using desc by simp
    ultimately show ?thesis using y by (auto simp: sorted_wrt_append simp del: append_take_drop_id)
  qed
  show ?thesis
    unfolding is_page_def l_def [symmetric]
    using desc l rest by (auto simp: sorted_wrt_take dest: in_set_takeD)
qed

lemma is_page_map:
  assumes page: "is_page key items k n xs" and key: "\<And>x. x \<in> items \<Longrightarrow> key' (f x) = key x"
  shows "is_page key' (f ` items) k n (map f xs)"
  unfolding is_page_def
proof (intro conjI ballI impI)
  have sub: "x \<in> items" "key x < k" if "x \<in> set xs" for x
    using page that by (auto simp: is_page_def)
  have eq: "key' (f x) = key x" if "x \<in> set xs" for x
    using key [OF sub(1) [OF that]] .
  have "sorted_wrt (\<lambda>a b. key' (f b) < key' (f a)) xs"
  proof (rule sorted_wrt_mono_rel)
    show "sorted_wrt (\<lambda>a b. key b < key a) xs" using page by (simp add: is_page_def)
  qed (simp add: eq)
  then show "sorted_wrt (\<lambda>a b. key' b < key' a) (map f xs)" by (simp add: sorted_wrt_map)
  show "length (map f xs) \<le> n" using page by (simp add: is_page_def)
  show "set (map f xs) \<subseteq> {x \<in> f ` items. key' x < k}" using sub key by auto
  fix y assume y: "y \<in> f ` items" "key' y < k" "y \<notin> set (map f xs)"
  from y(1) obtain z where z: "y = f z" "z \<in> items" by auto
  with y key have z': "z \<notin> set xs" "key z < k" by auto
  show "length (map f xs) = n" using page z z' by (simp add: is_page_def)
  fix x assume "x \<in> set (map f xs)"
  then obtain w where "x = f w" "w \<in> set xs" by auto
  then show "key' y < key' x" using page z z' key [OF z(2)] eq by (simp add: is_page_def)
qed

lemma last_lowest: "sorted_wrt (\<lambda>a b. key b < key a) xs \<Longrightarrow> x \<in> set xs \<Longrightarrow> (key (last xs)::'k::linorder) \<le> key x"
  by (induction xs) (auto intro: less_imp_le)

lemma is_page_below:
  assumes "is_page key items k n xs" "xs \<noteq> []"
  shows "{x \<in> items. key x < k} = set xs \<union> {x \<in> items. key x < key (last xs)}"
    and "x \<in> set xs \<Longrightarrow> \<not> key x < key (last xs)"
proof -
  have "last xs \<in> set xs" using assms(2) by simp
  then show "{x \<in> items. key x < k} = set xs \<union> {x \<in> items. key x < key (last xs)}"
    using assms(1) unfolding is_page_def by fastforce
  show "x \<in> set xs \<Longrightarrow> \<not> key x < key (last xs)"
    using assms(1) last_lowest [of key xs x] by (auto simp: is_page_def)
qed

lemma is_page_empty: "is_page key items k n [] \<Longrightarrow> 0 < n \<Longrightarrow> {x \<in> items. key x < k} = {}"
  by (auto simp: is_page_def)

section \<open>The contract of a listing and its client\<close>

text \<open>A listing call is made in a setting \<open>e\<close> (the database, the principal, the filter, the
  page size); \<open>valid\<close> are the settings and \<open>curs\<close> the cursors the contract covers.\<close>

locale keyset_listing =
  fixes valid :: "'e \<Rightarrow> bool"
    and items :: "'e \<Rightarrow> 'i set"
    and key :: "'i \<Rightarrow> 'k::linorder"
    and size :: "'e \<Rightarrow> nat"
    and fetch :: "'e \<Rightarrow> 'cur \<Rightarrow> 'i list \<times> 'cur"
    and curs :: "'cur \<Rightarrow> bool"
    and pos :: "'cur \<Rightarrow> 'k"
  assumes finite_items: "valid e \<Longrightarrow> finite (items e)"
    and size_pos: "valid e \<Longrightarrow> 0 < size e"
    and fetch_page: "valid e \<Longrightarrow> curs cur \<Longrightarrow>
      is_page key (items e) (pos cur) (size e) (fst (fetch e cur))"
    and fetch_next: "valid e \<Longrightarrow> curs cur \<Longrightarrow> fst (fetch e cur) \<noteq> [] \<Longrightarrow>
      curs (snd (fetch e cur)) \<and> pos (snd (fetch e cur)) = key (last (fst (fetch e cur)))"
begin

definition below :: "'e \<Rightarrow> 'cur \<Rightarrow> 'i set" where
  "below e cur = {x \<in> items e. key x < pos cur}"

lemma page_bounds:
  assumes "valid e" "curs cur"
  shows "length (fst (fetch e cur)) \<le> size e" "set (fst (fetch e cur)) \<subseteq> below e cur"
  using fetch_page [OF assms] by (auto simp: is_page_def below_def)

lemma next_below:
  assumes "valid e" "curs cur" "fetch e cur = (xs, cur')" "xs \<noteq> []"
  shows "curs cur'" and "below e cur = set xs \<union> below e cur'"
    and "x \<in> set xs \<Longrightarrow> y \<in> below e cur' \<Longrightarrow> key y < key x"
    and "card (below e cur') < card (below e cur)"
proof -
  have page: "is_page key (items e) (pos cur) (size e) xs"
    using fetch_page [OF assms(1,2)] assms(3) by simp
  have cur': "curs cur' \<and> pos cur' = key (last xs)"
    using fetch_next [OF assms(1,2)] assms(3,4) by simp
  then show "curs cur'" ..
  note step = is_page_below [OF page assms(4)]
  show un: "below e cur = set xs \<union> below e cur'"
    using step(1) cur' by (simp add: below_def)
  show "key y < key x" if "x \<in> set xs" "y \<in> below e cur'" for x y
    using step(2) [OF that(1)] that(2) cur' by (auto simp: below_def not_less)
  have "last xs \<in> below e cur" "last xs \<notin> below e cur'"
    using un cur' assms(4) by (auto simp: below_def)
  moreover have "finite (below e cur)" using finite_items [OF assms(1)] by (simp add: below_def)
  ultimately show "card (below e cur') < card (below e cur)"
    using un by (intro psubset_card_mono) auto
qed

text \<open>As many calls as there are items, and one more, are enough.\<close>

theorem walk_visits_all:
  assumes "valid e" "curs cur" "card (below e cur) < fuel"
  shows "set (walk (fetch e) fuel cur) = below e cur"
    and "sorted_wrt (\<lambda>a b. key b < key a) (walk (fetch e) fuel cur)"
proof -
  have "set (walk (fetch e) fuel cur) = below e cur \<and>
        sorted_wrt (\<lambda>a b. key b < key a) (walk (fetch e) fuel cur)"
    using assms(2,3)
  proof (induction fuel arbitrary: cur)
    case (Suc fuel)
    obtain xs cur' where f: "fetch e cur = (xs, cur')" by fastforce
    show ?case
    proof (cases "xs = []")
      case True
      with f fetch_page [OF assms(1) Suc.prems(1)] size_pos [OF assms(1)] show ?thesis
        by (auto simp: below_def is_page_def)
    next
      case False
      note nb = next_below [OF assms(1) Suc.prems(1) f False]
      have "sorted_wrt (\<lambda>a b. key b < key a) xs"
        using fetch_page [OF assms(1) Suc.prems(1)] f by (simp add: is_page_def)
      with Suc.IH [OF nb(1)] nb Suc.prems(2) f False show ?thesis
        by (simp add: sorted_wrt_append)
    qed
  qed simp
  then show "set (walk (fetch e) fuel cur) = below e cur"
    and "sorted_wrt (\<lambda>a b. key b < key a) (walk (fetch e) fuel cur)" by auto
qed

text \<open>The unbounded client ends: also one that sees converted items and holds other cursors, as
  long as its calls simulate those of the listing.\<close>

lemma loop_simulates:
  assumes "valid e"
    and step: "\<And>s cur. R s cur \<Longrightarrow> curs cur \<Longrightarrow> fst (g s) = map h (fst (fetch e cur)) \<and>
      (fst (fetch e cur) \<noteq> [] \<longrightarrow> R (snd (g s)) (snd (fetch e cur)))"
    and "R s cur" "curs cur" "card (below e cur) < n"
  shows "page_loop g s = Some (map h (walk (fetch e) n cur))"
  using assms(3-5)
proof (induction n arbitrary: s cur)
  case (Suc n)
  obtain xs cur' where f: "fetch e cur = (xs, cur')" by fastforce
  have g: "fst (g s) = map h xs" "xs \<noteq> [] \<Longrightarrow> R (snd (g s)) cur'"
    using step [OF Suc.prems(1,2)] f by auto
  show ?case
  proof (cases "xs = []")
    case True
    with f g show ?thesis by (simp add: page_loop.simps [of g s])
  next
    case False
    note nb = next_below [OF assms(1) Suc.prems(2) f False]
    have "page_loop g (snd (g s)) = Some (map h (walk (fetch e) n cur'))"
      using nb(4) Suc.prems(3) by (intro Suc.IH [OF g(2) [OF False] nb(1)]) simp
    with f g False show ?thesis by (simp add: page_loop.simps [of g s])
  qed
qed simp

end

end
