(* ===== verification/Doc_Store.thy ===== *)
theory Doc_Store
  imports Doc_Repository Keyset
begin

text \<open>
  The abstract specification of the document repository. The abstract state is a
  \<open>doc_store\<close>: finite maps from keys to the service's own structs instead of lists of rows.
  Each operation has a specification \<open>spec_*\<close>, one atomic function on stores that returns
  the result and the new store. \<open>refines m spec\<close> says that an operation on a database
  connection implements its specification under every fault schedule: without a fault the
  result and the store are those of the specification; with one, the operation may instead
  return an error that wraps the driver's, and then the store is the old one or the
  specified one, never something in between; the schema holds again and no transaction is
  left open. \<open>store\<close> is the abstraction function.
\<close>

section \<open>Abstract state\<close>

fun level_of :: "sqlc_PermissionLevel \<Rightarrow> PermissionLevel" where
  "level_of PermissionLevelViewer = Viewer"
| "level_of PermissionLevelEditor = Editor"
| "level_of PermissionLevelOwner = Owner"
| "level_of (PermissionLevelOther _) = - 1"

fun recipient_of :: "sqlc_RecipientType \<Rightarrow> RecipientType" where
  "recipient_of RecipientTypeUser = Recipient_User"
| "recipient_of RecipientTypeGuest = Recipient_Guest"
| "recipient_of (RecipientTypeOther _) = - 1"

definition document_of :: "documents_row \<Rightarrow> Document" where
  "document_of r = \<lparr> doc_ID = d_id r, doc_Name = d_name r, doc_Description = d_description r,
     doc_CreatedAt = d_created_at r, doc_LastModifiedAt = d_last_modified_at r \<rparr>"

definition permission_of :: "permissions_row \<Rightarrow> Permission" where
  "permission_of p = \<lparr> perm_RecipientID = p_recipient_id p,
     perm_RecipientType = recipient_of (p_recipient_type p), perm_DocumentID = p_document_id p,
     perm_PermissionLevel = level_of (p_permission_level p), perm_CreatedBy = p_created_by p,
     perm_CreatedAt = p_created_at p, perm_LastModifiedAt = p_last_modified_at p \<rparr>"

record doc_store =
  st_documents :: "uuid \<Rightarrow> Document option"
  st_guests :: "uuid \<Rightarrow> guests_row option"
  st_permissions :: "uuid \<times> uuid \<Rightarrow> Permission option"

definition docs_map :: "documents_row list \<Rightarrow> uuid \<Rightarrow> Document option" where
  "docs_map rows = map_of (map (\<lambda>r. (d_id r, document_of r)) rows)"

definition guests_map :: "guests_row list \<Rightarrow> uuid \<Rightarrow> guests_row option" where
  "guests_map rows = map_of (map (\<lambda>r. (g_id r, r)) rows)"

definition perms_map :: "permissions_row list \<Rightarrow> uuid \<times> uuid \<Rightarrow> Permission option" where
  "perms_map rows = map_of (map (\<lambda>r. (perm_key r, permission_of r)) rows)"

definition store :: "doc_db \<Rightarrow> doc_store" where
  "store d = \<lparr> st_documents = docs_map (documents d), st_guests = guests_map (guests d),
     st_permissions = perms_map (permissions d) \<rparr>"

definition keep_values :: "('v \<Rightarrow> bool) \<Rightarrow> ('k \<Rightarrow> 'v option) \<Rightarrow> 'k \<Rightarrow> 'v option" where
  "keep_values P m k = (case m k of None \<Rightarrow> None | Some v \<Rightarrow> if P v then Some v else None)"

section \<open>Specifications\<close>

type_synonym 'a spec = "doc_store \<Rightarrow> (doc_err + 'a) \<times> doc_store"

definition spec_CreateDocument ::
  "env \<Rightarrow> uuid \<Rightarrow> string option \<Rightarrow> string option \<Rightarrow> uuid spec" where
  "spec_CreateDocument E userId name description s =
     (let i = uuid_New E; now = db_NOW E in
      if st_documents s i \<noteq> None then (Inl (repo_impl (PgError unique_violation)), s)
      else (Inr i, s\<lparr>
        st_documents := (st_documents s)(i \<mapsto>
          \<lparr> doc_ID = i, doc_Name = name, doc_Description = description,
            doc_CreatedAt = now, doc_LastModifiedAt = now \<rparr>),
        st_permissions := (st_permissions s)((userId, i) \<mapsto>
          \<lparr> perm_RecipientID = userId, perm_RecipientType = Recipient_User, perm_DocumentID = i,
            perm_PermissionLevel = Owner, perm_CreatedBy = userId,
            perm_CreatedAt = now, perm_LastModifiedAt = now \<rparr>)\<rparr>))"

definition spec_GetDocument :: "uuid \<Rightarrow> Document spec" where
  "spec_GetDocument i s =
     (case st_documents s i of None \<Rightarrow> Inl (NotFound (Some (Pgx ErrNoRows))) | Some x \<Rightarrow> Inr x, s)"

definition spec_UpdateDocument :: "uuid \<Rightarrow> string option \<Rightarrow> string option \<Rightarrow> unit spec" where
  "spec_UpdateDocument i name description s =
     (if name = None \<and> description = None then (Inl (InvalidInput None), s)
      else case st_documents s i of
        None \<Rightarrow> (Inl (NotFound None), s)
      | Some x \<Rightarrow> (Inr (), s\<lparr>st_documents := (st_documents s)(i \<mapsto>
          x\<lparr>doc_Name := coalesce name (doc_Name x),
            doc_Description := coalesce description (doc_Description x)\<rparr>)\<rparr>))"

text \<open>A deleted document takes its permissions and its guests with it.\<close>

definition delete_document :: "uuid \<Rightarrow> doc_store \<Rightarrow> doc_store" where
  "delete_document i s = \<lparr>
     st_documents = (st_documents s)(i := None),
     st_guests = keep_values (\<lambda>g. g_document_id g \<noteq> i) (st_guests s),
     st_permissions = (\<lambda>k. if snd k = i then None else st_permissions s k) \<rparr>"

definition spec_DeleteDocument :: "uuid \<Rightarrow> unit spec" where
  "spec_DeleteDocument i s =
     (if st_documents s i = None then (Inl (NotFound None), s) else (Inr (), delete_document i s))"

definition spec_DeleteDocuments :: "uuid list \<Rightarrow> unit spec" where
  "spec_DeleteDocuments ids s =
     (if ids = [] then (Inl (InvalidInput None), s)
      else if distinct ids \<and> (\<forall>i \<in> set ids. st_documents s i \<noteq> None)
      then (Inr (), fold delete_document ids s)
      else (Inl (NotFound None), s))"

text \<open>A permission is returned with its creation time in the place of its modification time.\<close>

definition as_listed :: "Permission \<Rightarrow> Permission" where
  "as_listed p = p\<lparr>perm_LastModifiedAt := perm_CreatedAt p\<rparr>"

definition spec_GetPermission :: "uuid \<Rightarrow> uuid \<Rightarrow> Permission spec" where
  "spec_GetPermission i u s =
     (case st_permissions s (u, i) of
        None \<Rightarrow> Inl (NotFound (Some (Pgx ErrNoRows)))
      | Some p \<Rightarrow> Inr (as_listed p), s)"

definition spec_CreateGuest :: "env \<Rightarrow> uuid \<Rightarrow> uuid \<Rightarrow> PermissionLevel \<Rightarrow> uuid spec" where
  "spec_CreateGuest E creator i level s =
     (let g = uuid_New E; now = db_NOW E in
      if level \<notin> set AllPermissions then (Inl (InvalidInput (Some (Errorf None))), s)
      else if st_documents s i = None then (Inl (NotFound (Some (Pgx ErrNoRows))), s)
      else if st_guests s g \<noteq> None \<or> st_permissions s (g, i) \<noteq> None
      then (Inl (UniqueConflict (Some (Pgx (PgError unique_violation)))), s)
      else (Inr g, s\<lparr>
        st_guests := (st_guests s)(g \<mapsto> \<lparr> g_id = g, g_document_id = i, g_description = None,
          g_created_by = creator, g_created_at = now, g_last_modified_at = now \<rparr>),
        st_permissions := (st_permissions s)((g, i) \<mapsto>
          \<lparr> perm_RecipientID = g, perm_RecipientType = Recipient_Guest, perm_DocumentID = i,
            perm_PermissionLevel = level, perm_CreatedBy = creator,
            perm_CreatedAt = now, perm_LastModifiedAt = now \<rparr>)\<rparr>))"

definition spec_UpsertPermissionUser :: "env \<Rightarrow> uuid \<Rightarrow> uuid \<Rightarrow> PermissionLevel \<Rightarrow> unit spec" where
  "spec_UpsertPermissionUser E u i level s =
     (let now = db_NOW E in
      if level \<notin> set AllPermissions then (Inl (InvalidInput (Some (Errorf None))), s)
      else if st_documents s i = None then (Inl (NotFound (Some (Pgx ErrNoRows))), s)
      else (Inr (), s\<lparr>st_permissions := (st_permissions s)((u, i) \<mapsto>
        (case st_permissions s (u, i) of
           Some p \<Rightarrow> p\<lparr>perm_PermissionLevel := level, perm_LastModifiedAt := now\<rparr>
         | None \<Rightarrow>
             \<lparr> perm_RecipientID = u, perm_RecipientType = Recipient_User, perm_DocumentID = i,
               perm_PermissionLevel = level, perm_CreatedBy = u,
               perm_CreatedAt = now, perm_LastModifiedAt = now \<rparr>))\<rparr>))"

definition spec_UpdatePermissionGuest :: "env \<Rightarrow> uuid \<Rightarrow> PermissionLevel \<Rightarrow> unit spec" where
  "spec_UpdatePermissionGuest E g level s =
     (if level \<notin> set AllPermissions then (Inl (InvalidInput (Some (Errorf None))), s)
      else case st_guests s g of
        None \<Rightarrow> (Inl (NotFound (Some (Pgx ErrNoRows))), s)
      | Some r \<Rightarrow> (case st_permissions s (g, g_document_id r) of
          None \<Rightarrow> (Inl (NotFound None), s)
        | Some p \<Rightarrow>
            if perm_RecipientType p = Recipient_Guest then
              (Inr (), s\<lparr>st_permissions := (st_permissions s)((g, g_document_id r) \<mapsto>
                 p\<lparr>perm_PermissionLevel := level, perm_LastModifiedAt := db_NOW E\<rparr>)\<rparr>)
            else (Inl (NotFound None), s)))"

definition spec_DeletePermissionsPrincipal :: "uuid \<Rightarrow> uuid \<Rightarrow> unit spec" where
  "spec_DeletePermissionsPrincipal u i s =
     (if st_permissions s (u, i) = None then (Inl (NotFound None), s)
      else (Inr (), s\<lparr>st_permissions := (st_permissions s)((u, i) := None)\<rparr>))"

text \<open>The listings: what a principal may see, and the page of it a request gets. The store
  has no order of its own, so the specification of a listing is a predicate on the reply.\<close>

definition visible_documents :: "uuid \<Rightarrow> PermissionLevel list \<Rightarrow> doc_store \<Rightarrow> DocumentPermission set" where
  "visible_documents who levels s =
     {\<lparr> dp_Document = x, dp_Permission = perm_PermissionLevel p \<rparr> | x p.
        \<exists>i. st_documents s i = Some x \<and> st_permissions s (who, i) = Some p \<and>
            perm_PermissionLevel p \<in> set levels}"

definition visible_permissions :: "uuid \<Rightarrow> PermissionLevel list \<Rightarrow> doc_store \<Rightarrow> Permission set" where
  "visible_permissions i levels s =
     {p. (\<exists>u. st_permissions s (u, i) = Some p) \<and> perm_PermissionLevel p \<in> set levels}"

definition document_key :: "SortField \<Rightarrow> DocumentPermission \<Rightarrow> time \<times> uuid" where
  "document_key sf x = (if sf = Sort_CreatedAt then doc_CreatedAt (dp_Document x)
      else doc_LastModifiedAt (dp_Document x), doc_ID (dp_Document x))"

definition permission_key :: "SortField \<Rightarrow> Permission \<Rightarrow> time \<times> uuid" where
  "permission_key sf p = (if sf = Sort_CreatedAt then perm_CreatedAt p else perm_LastModifiedAt p,
      perm_RecipientID p)"

definition valid_levels :: "PermissionLevel list \<Rightarrow> bool" where
  "valid_levels levels \<longleftrightarrow> levels \<noteq> [] \<and> set levels \<subseteq> set AllPermissions"

definition valid_sort :: "Cursor \<Rightarrow> bool" where
  "valid_sort cur \<longleftrightarrow> cur_SortField cur \<in> {Sort_CreatedAt, Sort_LastModifiedAt}"

definition documents_listed ::
  "uuid \<Rightarrow> PermissionLevel list \<Rightarrow> Cursor option \<Rightarrow> int32 \<Rightarrow> doc_store \<Rightarrow>
   doc_err + DocumentPermission list \<times> Cursor \<Rightarrow> bool" where
  "documents_listed who levels cursor n s r =
     (case cursor of
        None \<Rightarrow> r = Inl ErrNilPointer
      | Some cur \<Rightarrow>
          if \<not> valid_levels levels then r = Inl (InvalidInput None)
          else if \<not> valid_sort cur then r = Inr ([], cur)
          else if sint n < 0 then r = Inl (repo_impl (PgError invalid_row_count_in_limit))
          else \<exists>xs. r = Inr (xs, documents_cursor cur xs) \<and>
            is_page (document_key (cur_SortField cur)) (visible_documents who levels s)
              (cursor_key cur) (nat (sint n)) xs)"

definition permissions_listed ::
  "uuid \<Rightarrow> PermissionLevel list \<Rightarrow> Cursor option \<Rightarrow> int32 \<Rightarrow> doc_store \<Rightarrow>
   doc_err + Permission list \<times> Cursor \<Rightarrow> bool" where
  "permissions_listed i levels cursor n s r =
     (if levels = [] then r = Inl (InvalidInput None)
      else if \<not> valid_levels levels then r = Inl (InvalidInput (Some (Errorf None)))
      else case cursor of
        None \<Rightarrow> r = Inl ErrNilPointer
      | Some cur \<Rightarrow>
          if st_documents s i = None then r = Inl (NotFound (Some (Pgx ErrNoRows)))
          else if \<not> valid_sort cur then r = Inr ([], cur)
          else if sint n < 0
          then r = Inl (RepoImpl (Some (repo_impl (PgError invalid_row_count_in_limit))))
          else \<exists>ps. r = Inr (map as_listed ps, permissions_cursor cur (map as_listed ps)) \<and>
            is_page (permission_key (cur_SortField cur)) (visible_permissions i levels s)
              (cursor_key cur) (nat (sint n)) ps)"

section \<open>Refinement\<close>

definition meets :: "'a spec \<Rightarrow> doc_db conn \<Rightarrow> doc_err + 'a \<Rightarrow> doc_db conn \<Rightarrow> bool" where
  "meets spec c r c' \<longleftrightarrow>
     (r, store (tables c')) = spec (store (tables c)) \<or>
     faults c \<noteq> [] \<and> failed wraps_outage r \<and>
     (store (tables c') = store (tables c) \<or> store (tables c') = snd (spec (store (tables c))))"

definition refines :: "'a doc_op \<Rightarrow> 'a spec \<Rightarrow> bool" where
  "refines m spec \<longleftrightarrow> (\<forall>c. snapshot c = None \<longrightarrow> db_ok (tables c) \<longrightarrow>
     wp m (\<lambda>r c'. snapshot c' = None \<and> db_ok (tables c') \<and> meets spec c r c') c)"

text \<open>A listing leaves the tables as they are and answers according to its predicate.\<close>

definition answers :: "'a doc_op \<Rightarrow> (doc_store \<Rightarrow> doc_err + 'a \<Rightarrow> bool) \<Rightarrow> bool" where
  "answers m P \<longleftrightarrow> (\<forall>c. snapshot c = None \<longrightarrow> db_ok (tables c) \<longrightarrow>
     wp m (\<lambda>r c'. snapshot c' = None \<and> tables c' = tables c \<and>
       (P (store (tables c)) r \<or> faults c \<noteq> [] \<and> failed wraps_outage r)) c)"

text \<open>An atomic operation that keeps the schema refines a specification as soon as its
  faultless run computes it.\<close>

lemma refinesI:
  assumes "atomic wraps_outage m" and "keeps db_ok m"
    and run: "\<And>c. faults c = [] \<Longrightarrow> snapshot c = None \<Longrightarrow> db_ok (tables c) \<Longrightarrow>
      wp m (\<lambda>r c'. (r, store (tables c')) = spec (store (tables c))) c"
  shows "refines m spec"
  unfolding refines_def
proof (intro allI impI)
  fix c :: "doc_db conn"
  assume c: "snapshot c = None" "db_ok (tables c)"
  from c assms(2) have ok: "wp m (\<lambda>_. conn_ok db_ok) c"
    by (simp add: keeps_def conn_ok_def)
  have at: "wp m (\<lambda>r c'. snapshot c' = None \<and> (as_healthy m c r c' \<or> faults c \<noteq> [] \<and> failed wraps_outage r \<and>
      (tables c' = tables c \<or> tables c' = tables (snd (run_state m (healthy c)))))) c"
    using assms(1) c(1) by (simp add: atomic_def)
  from run [of "healthy c"] c have
    "(fst (run_state m (healthy c)), store (tables (snd (run_state m (healthy c))))) = spec (store (tables c))"
    by (simp add: wp_run)
  then have "meets spec c r c'"
    if "as_healthy m c r c' \<or> faults c \<noteq> [] \<and> failed wraps_outage r \<and>
      (tables c' = tables c \<or> tables c' = tables (snd (run_state m (healthy c))))" for r c'
    using that by (auto simp: meets_def as_healthy_def dest: arg_cong [where f = snd])
  with wp_conj [OF ok at]
  show "wp m (\<lambda>r c'. snapshot c' = None \<and> db_ok (tables c') \<and> meets spec c r c') c"
    by (auto simp: conn_ok_def elim: wp_mono)
qed

lemma answersI:
  assumes "atomic wraps_outage m"
    and run: "\<And>c. faults c = [] \<Longrightarrow> snapshot c = None \<Longrightarrow> db_ok (tables c) \<Longrightarrow>
      wp m (\<lambda>r c'. tables c' = tables c \<and> P (store (tables c)) r) c"
  shows "answers m P"
  unfolding answers_def
proof (intro allI impI)
  fix c :: "doc_db conn"
  assume c: "snapshot c = None" "db_ok (tables c)"
  from assms(1) c(1) have at: "wp m (\<lambda>r c'. snapshot c' = None \<and>
      (as_healthy m c r c' \<or> faults c \<noteq> [] \<and> failed wraps_outage r \<and>
      (tables c' = tables c \<or> tables c' = tables (snd (run_state m (healthy c)))))) c"
    by (simp add: atomic_def)
  from run [of "healthy c"] c
  have "tables (snd (run_state m (healthy c))) = tables c"
    "P (store (tables c)) (fst (run_state m (healthy c)))"
    by (simp_all add: wp_run)
  with at show "wp m (\<lambda>r c'. snapshot c' = None \<and> tables c' = tables c \<and>
       (P (store (tables c)) r \<or> faults c \<noteq> [] \<and> failed wraps_outage r)) c"
    by (elim wp_mono) (auto simp: as_healthy_def)
qed

lemma answersD:
  assumes "answers m P" "run_state m c = (r, c')" "snapshot c = None" "db_ok (tables c)"
  shows "snapshot c' = None" "tables c' = tables c"
    "P (store (tables c)) r \<or> faults c \<noteq> [] \<and> failed wraps_outage r"
  using assms by (auto simp: answers_def dest: wpD)

lemma refinesD:
  assumes "refines m spec" "run_state m c = (r, c')" "snapshot c = None" "db_ok (tables c)"
  shows "snapshot c' = None" "db_ok (tables c')" "meets spec c r c'"
  using assms by (auto simp: refines_def dest: wpD)

text \<open>Lookups in the store are lookups in the tables.\<close>

lemma map_of_key_None:
  "map_of (map (\<lambda>r. (key r, val r)) rows) k = None \<longleftrightarrow> (\<forall>r \<in> set rows. key r \<noteq> k)"
  by (induction rows) auto

lemma map_of_key_find:
  "map_of (map (\<lambda>r. (key r, val r)) rows) k = map_option val (find (\<lambda>r. key r = k) rows)"
  by (induction rows) auto

lemma docs_map_None: "docs_map (documents d) i = None \<longleftrightarrow> \<not> has_document i d"
  by (auto simp: docs_map_def map_of_key_None has_document_def)

lemma guests_map_None: "guests_map (guests d) g = None \<longleftrightarrow> \<not> has_guest g d"
  by (auto simp: guests_map_def map_of_key_None [where val = "\<lambda>r. r"] has_guest_def)

lemma perms_map_None: "perms_map (permissions d) (u, i) = None \<longleftrightarrow> \<not> has_permission u i d"
  by (auto simp: perms_map_def map_of_key_None has_permission_def)

text \<open>What each kind of change of a table does to the maps of the store.\<close>

lemma map_of_key_snoc:
  "\<forall>r \<in> set rows. key r \<noteq> key r0 \<Longrightarrow>
   map_of (map (\<lambda>r. (key r, val r)) (rows @ [r0])) = (map_of (map (\<lambda>r. (key r, val r)) rows))(key r0 \<mapsto> val r0)"
  by (induction rows) (auto simp: fun_eq_iff)

lemma map_of_key_filter:
  "map_of (map (\<lambda>r. (key r, val r)) (filter (\<lambda>r. P (key r)) rows)) =
   (\<lambda>k. if P k then map_of (map (\<lambda>r. (key r, val r)) rows) k else None)"
  by (induction rows) (auto simp: fun_eq_iff)

lemma map_of_value_filter:
  "distinct (map key rows) \<Longrightarrow>
   map_of (map (\<lambda>r. (key r, r)) (filter P rows)) = keep_values P (map_of (map (\<lambda>r. (key r, r)) rows))"
proof (induction rows)
  case (Cons r rows)
  then have "key r \<notin> key ` set rows" by simp
  then have "map_of (map (\<lambda>r. (key r, r)) rows) (key r) = None"
    unfolding map_of_key_None [where val = "\<lambda>r. r"] by (metis imageI)
  with Cons show ?case by (auto simp: keep_values_def fun_eq_iff)
qed (simp add: keep_values_def fun_eq_iff)

lemma map_of_key_update:
  assumes key: "\<And>r. key (upd r) = key r" and other: "\<And>r. key r \<noteq> k \<Longrightarrow> upd r = r"
    and found: "find (\<lambda>r. key r = k) rows = Some row"
  shows "map_of (map (\<lambda>r. (key r, val r)) (map upd rows)) =
         (map_of (map (\<lambda>r. (key r, val r)) rows))(k \<mapsto> val (upd row))"
proof
  fix x
  have "find (\<lambda>r. key r = x) (map upd rows) = map_option upd (find (\<lambda>r. key r = x) rows)"
    using key by (induction rows) auto
  moreover have "upd r = r" if "find (\<lambda>r. key r = x) rows = Some r" "x \<noteq> k" for r
    using that other by (auto simp: find_Some_iff)
  ultimately show "map_of (map (\<lambda>r. (key r, val r)) (map upd rows)) x =
      ((map_of (map (\<lambda>r. (key r, val r)) rows))(k \<mapsto> val (upd row))) x"
    using found by (cases "find (\<lambda>r. key r = x) rows") (auto simp: map_of_key_find simp del: map_map)
qed

lemma docs_map_snoc:
  "\<not> has_document (d_id r) d \<Longrightarrow> docs_map (documents d @ [r]) = (docs_map (documents d))(d_id r \<mapsto> document_of r)"
  unfolding docs_map_def has_document_def by (simp add: map_of_key_snoc del: map_append)

lemma guests_map_snoc:
  "\<not> has_guest (g_id r) d \<Longrightarrow> guests_map (guests d @ [r]) = (guests_map (guests d))(g_id r \<mapsto> r)"
  unfolding guests_map_def has_guest_def by (simp add: map_of_key_snoc [where val = "\<lambda>r. r"] del: map_append)

lemma perms_map_snoc:
  "\<not> has_permission (p_recipient_id r) (p_document_id r) d \<Longrightarrow>
   perms_map (permissions d @ [r]) = (perms_map (permissions d))(perm_key r \<mapsto> permission_of r)"
  unfolding perms_map_def has_permission_def by (simp add: map_of_key_snoc del: map_append)

end
