(* ===== verification/Doc_Refinement.thy ===== *)
theory Doc_Refinement
  imports Doc_Store
begin

text \<open>
  The PostgreSQL repository implements the abstract specification: for every operation of
  \<open>Doc_Repository\<close> a lemma \<open>refines_*\<close> (or \<open>answers_*\<close> for the two listings), proved by
  computing its faultless run and reading the result through the abstraction function.
  Atomicity and the invariant of the schema come from \<open>Doc_Repository\<close>.
\<close>

text \<open>The tables \<^verbatim>\<open>deleteDocumentHelper\<close> leaves.\<close>

definition drop_document :: "uuid \<Rightarrow> doc_db \<Rightarrow> doc_db" where
  "drop_document i d = \<lparr> documents = filter (\<lambda>r. d_id r \<noteq> i) (documents d),
     guests = filter (\<lambda>r. g_document_id r \<noteq> i) (guests d),
     permissions = filter (\<lambda>r. p_document_id r \<noteq> i) (permissions d) \<rparr>"

text \<open>A row of a page of documents, seen through the abstraction.\<close>

definition listed_document :: "documents_row \<times> sqlc_PermissionLevel \<Rightarrow> DocumentPermission" where
  "listed_document x = \<lparr> dp_Document = document_of (fst x), dp_Permission = level_of (snd x) \<rparr>"

section \<open>The maps of the store after a statement\<close>

lemma store_simps [simp]:
  "st_documents (store d) = docs_map (documents d)"
  "st_guests (store d) = guests_map (guests d)"
  "st_permissions (store d) = perms_map (permissions d)"
  "store (d\<lparr>documents := ds\<rparr>) = (store d)\<lparr>st_documents := docs_map ds\<rparr>"
  "store (d\<lparr>guests := gs\<rparr>) = (store d)\<lparr>st_guests := guests_map gs\<rparr>"
  "store (d\<lparr>permissions := ps\<rparr>) = (store d)\<lparr>st_permissions := perms_map ps\<rparr>"
  by (simp_all add: store_def)

lemma store_cong: "st_documents s = st_documents t \<Longrightarrow> st_guests s = st_guests t \<Longrightarrow>
   st_permissions s = st_permissions t \<Longrightarrow> s = (t::doc_store)"
  by (rule doc_store.equality) simp_all

lemma has_permission_document: "db_ok d \<Longrightarrow> has_permission u i d \<Longrightarrow> has_document i d"
  by (auto simp: db_ok_def has_permission_def)

lemma has_simps [simp]:
  "has_document i (d\<lparr>documents := documents d @ [r]\<rparr>) \<longleftrightarrow> has_document i d \<or> d_id r = i"
  "has_permission u i (d\<lparr>documents := ds\<rparr>) = has_permission u i d"
  "has_permission u i (d\<lparr>guests := gs\<rparr>) = has_permission u i d"
  by (auto simp: has_document_def has_permission_def)

lemma refines_CreateDocument: "refines (repo_CreateDocument E u n s) (spec_CreateDocument E u n s)"
proof (rule refinesI [OF atomic_CreateDocument keeps_writes(1)], goal_cases)
  case (1 c)
  note new = has_permission_document [OF \<open>db_ok (tables c)\<close>, of u "uuid_New E"]
  show ?case
    unfolding wp_run repo_CreateDocument_def Let_def spec_CreateDocument_def
    using 1 new
    by (auto simp: healthy_simps sql_defs docs_map_None docs_map_snoc 
     perms_map_snoc document_of_def permission_of_def)
qed

lemma docs_map_find: "docs_map rows i = map_option document_of (find (\<lambda>r. d_id r = i) rows)"
  by (simp add: docs_map_def map_of_key_find)

lemma guests_map_find: "guests_map rows i = find (\<lambda>r. g_id r = i) rows"
  by (simp add: guests_map_def map_of_key_find [where val = "\<lambda>r. r"] option.map_ident)

lemma perms_map_find:
  "perms_map rows (u, i) = map_option permission_of (find (\<lambda>r. p_document_id r = i \<and> p_recipient_id r = u) rows)"
  by (simp add: perms_map_def map_of_key_find conj_commute)

lemma refines_GetDocument: "env_ok E \<Longrightarrow> refines (repo_GetDocument E i) (spec_GetDocument i)"
proof (rule refinesI [OF atomic_GetDocument keeps_reads(1)], goal_cases)
  case (1 c)
  then show ?case
    unfolding wp_run repo_GetDocument_def spec_GetDocument_def
    by (auto simp: healthy_simps sql_defs docs_map_find conv_defs document_of_def
         not_found_or_impl_def split: option.splits)
qed

lemma count_documents: "filter (\<lambda>r. d_id r = i) (documents d) = [] \<longleftrightarrow> \<not> has_document i d"
  by (auto simp: has_document_def filter_empty_conv)

lemma has_document_find: "has_document i d \<Longrightarrow> \<exists>r. find (\<lambda>r. d_id r = i) (documents d) = Some r"
  by (cases "find (\<lambda>r. d_id r = i) (documents d)") (auto simp: has_document_def find_None_iff)

lemma docs_map_update:
  assumes "\<And>r. d_id (f r) = d_id r" "find (\<lambda>r. d_id r = i) rows = Some r0"
  shows "docs_map (map (\<lambda>r. if d_id r = i then f r else r) rows) =
         (docs_map rows)(i \<mapsto> document_of (f r0))"
proof -
  have "d_id r0 = i" using assms(2) by (auto simp: find_Some_iff)
  then show ?thesis
    unfolding docs_map_def by (subst map_of_key_update [OF _ _ assms(2)]) (auto simp: assms(1))
qed

lemma perms_map_update:
  assumes "\<And>r. perm_key (f r) = perm_key r"
    and found: "find (\<lambda>r. p_document_id r = i \<and> p_recipient_id r = u) rows = Some r0"
  shows "perms_map (map (\<lambda>r. if perm_key r = (u, i) \<and> P r then f r else r) rows) =
         (perms_map rows)((u, i) \<mapsto> permission_of (if P r0 then f r0 else r0))"
proof -
  have "find (\<lambda>r. perm_key r = (u, i)) rows = Some r0" using found by (simp add: conj_commute)
  moreover have "perm_key r0 = (u, i)" using found by (auto simp: find_Some_iff)
  ultimately show ?thesis
    unfolding perms_map_def using assms(1) by (subst map_of_key_update [where k = "(u, i)" and row = r0]) auto
qed

lemma docs_map_absent:
  "\<not> has_document i d \<Longrightarrow> map (\<lambda>r. if d_id r = i then f r else r) (documents d) = documents d"
  by (rule map_idI) (auto simp: has_document_def)

lemma refines_UpdateDocument: "refines (repo_UpdateDocument i n s) (spec_UpdateDocument i n s)"
proof (rule refinesI [OF atomic_UpdateDocument keeps_writes(2)], goal_cases)
  case (1 c)
  show ?case
  proof (cases "has_document i (tables c)")
    case True
    then obtain r0 where "find (\<lambda>r. d_id r = i) (documents (tables c)) = Some r0"
      using has_document_find by blast
    with 1 True show ?thesis
    unfolding wp_run repo_UpdateDocument_def spec_UpdateDocument_def
    by (auto simp: healthy_simps sql_defs count_documents docs_map_find docs_map_update document_of_def)
  next
    case False
    with 1 docs_map_None [of "tables c" i] show ?thesis
      unfolding wp_run repo_UpdateDocument_def spec_UpdateDocument_def
      by (auto simp: healthy_simps sql_defs count_documents docs_map_absent)
  qed
qed

lemma docs_map_delete: "docs_map (filter (\<lambda>r. d_id r \<noteq> i) rows) = (docs_map rows)(i := None)"
  unfolding docs_map_def by (subst map_of_key_filter [where P = "\<lambda>k. k \<noteq> i"]) (auto simp: fun_eq_iff)

lemma perms_map_delete:
  "perms_map (filter (\<lambda>r. perm_key r \<noteq> (u, i)) rows) = (perms_map rows)((u, i) := None)"
  unfolding perms_map_def by (subst map_of_key_filter [where P = "\<lambda>k. k \<noteq> (u, i)"]) (auto simp: fun_eq_iff)

lemma perms_map_delete_document:
  "perms_map (filter (\<lambda>r. p_document_id r \<noteq> i) rows) = (\<lambda>k. if snd k = i then None else perms_map rows k)"
  unfolding perms_map_def
  using map_of_key_filter [where P = "\<lambda>k. snd k \<noteq> i" and key = perm_key and val = permission_of and rows = rows]
  by (auto simp: fun_eq_iff)

lemma guests_map_delete_document:
  "distinct (map g_id rows) \<Longrightarrow>
   guests_map (filter (\<lambda>r. g_document_id r \<noteq> i) rows) = keep_values (\<lambda>g. g_document_id g \<noteq> i) (guests_map rows)"
  unfolding guests_map_def by (rule map_of_value_filter)

lemma run_deleteDocumentHelper:
  "faults c = [] \<Longrightarrow> run_state (deleteDocumentHelper i) c =
     (if has_document i (tables c) then Inr () else Inl (NotFound None),
      c\<lparr>tables := drop_document i (tables c)\<rparr>)"
  by (cases "tables c") (auto simp: deleteDocumentHelper_def healthy_simps sql_defs drop_document_def has_document_def
     filter_empty_conv)

lemma store_drop_document: "db_ok d \<Longrightarrow> store (drop_document i d) = delete_document i (store d)"
  by (rule store_cong)
    (simp_all add: drop_document_def delete_document_def docs_map_delete guests_map_delete_document
      perms_map_delete_document db_ok_def cong: if_cong)

lemma has_document_drop: "has_document j (drop_document i d) \<longleftrightarrow> j \<noteq> i \<and> has_document j d"
  by (auto simp: has_document_def drop_document_def)

lemma db_ok_drop_document: "db_ok d \<Longrightarrow> db_ok (drop_document i d)"
  by (simp add: db_ok_def has_document_drop) (simp add: drop_document_def distinct_map_filter_keep)

lemma refines_DeleteDocument: "refines (repo_DeleteDocument i) (spec_DeleteDocument i)"
proof (rule refinesI [OF atomic_DeleteDocument keeps_writes(3)], goal_cases)
  case (1 c)
  then show ?case
    unfolding wp_run repo_DeleteDocument_def spec_DeleteDocument_def
    by (simp add: healthy_simps run_deleteDocumentHelper docs_map_None store_drop_document)
qed

lemma run_delete_loop:
  "faults c = [] \<Longrightarrow> distinct ids \<Longrightarrow> \<forall>i \<in> set ids. has_document i (tables c) \<Longrightarrow>
   run_state (delete_loop ids) c = (Inr (), c\<lparr>tables := fold drop_document ids (tables c)\<rparr>)"
proof (induction ids arbitrary: c)
  case (Cons i ids)
  let ?c = "c\<lparr>tables := drop_document i (tables c)\<rparr>"
  have "\<forall>j \<in> set ids. has_document j (tables ?c)"
    using Cons.prems by (auto simp: has_document_drop)
  with Cons show ?case by (simp add: run_check run_deleteDocumentHelper)
qed simp

lemma run_delete_loop_fails:
  "faults c = [] \<Longrightarrow> \<not> (distinct ids \<and> (\<forall>i \<in> set ids. has_document i (tables c))) \<Longrightarrow>
   \<exists>d. run_state (delete_loop ids) c = (Inl (NotFound None), c\<lparr>tables := d\<rparr>)"
proof (induction ids arbitrary: c)
  case (Cons i ids)
  show ?case
  proof (cases "has_document i (tables c)")
    case True
    let ?c = "c\<lparr>tables := drop_document i (tables c)\<rparr>"
    have "\<not> (distinct ids \<and> (\<forall>j \<in> set ids. has_document j (tables ?c)))"
      using Cons.prems True by (auto simp: has_document_drop)
    with Cons.IH [of ?c] Cons.prems True show ?thesis
      by (auto simp: run_check run_deleteDocumentHelper)
  qed (use Cons.prems in \<open>auto simp: run_check run_deleteDocumentHelper\<close>)
qed auto

lemma store_fold_drop: "db_ok d \<Longrightarrow> store (fold drop_document ids d) = fold delete_document ids (store d)"
  by (induction ids arbitrary: d) (simp_all add: store_drop_document db_ok_drop_document)

lemma refines_DeleteDocuments: "refines (repo_DeleteDocuments ids u) (spec_DeleteDocuments ids)"
proof (rule refinesI [OF atomic_DeleteDocuments keeps_writes(4)], goal_cases)
  case (1 c)
  let ?c = "c\<lparr>snapshot := Some (tables c)\<rparr>"
  show ?case
  proof (cases "distinct ids \<and> (\<forall>i \<in> set ids. has_document i (tables c))")
    case True
    with 1 run_delete_loop [of ?c ids] show ?thesis
      unfolding wp_run repo_DeleteDocuments_def spec_DeleteDocuments_def
      by (auto simp: healthy_simps docs_map_None store_fold_drop Suc_le_eq)
  next
    case False
    with 1 run_delete_loop_fails [of ?c ids] show ?thesis
      unfolding wp_run repo_DeleteDocuments_def spec_DeleteDocuments_def
      by (auto simp: healthy_simps docs_map_None)
  qed
qed

text \<open>The two checks the permission operations begin with.\<close>

lemma level_cases:
  obtains (valid) pl where "serviceToRepoPermissionLevel l = Inr pl" "l \<in> set AllPermissions"
      "permission_level_label pl" "level_of pl = l"
    | (invalid) "serviceToRepoPermissionLevel l = Inl (Errorf None)" "l \<notin> set AllPermissions"
proof -
  consider "l = Viewer" | "l = Editor" | "l = Owner" | "l \<notin> set AllPermissions"
    by (auto simp: AllPermissions_def)
  then show thesis
    by cases (auto simp: conv_defs AllPermissions_def intro: that)
qed

lemma lookup_document:
  obtains (absent) "sql_GetDocument i d = (Inl ErrNoRows, d)" "\<not> has_document i d"
    | (present) r where "sql_GetDocument i d = (Inr r, d)" "has_document i d"
  by (cases "find (\<lambda>r. d_id r = i) (documents d)")
    (auto simp: sql_GetDocument_def has_document_def find_None_iff find_Some_iff intro: that nth_mem)

lemma refines_CreateGuest: "refines (repo_CreateGuest E u i l) (spec_CreateGuest E u i l)"
proof (rule refinesI [OF atomic_CreateGuest keeps_writes(5)], goal_cases)
  case (1 c)
  show ?case
  proof (cases l rule: level_cases)
    case (valid pl)
    with 1 show ?thesis
      unfolding wp_run repo_CreateGuest_def spec_CreateGuest_def Let_def
      by (cases i "tables c" rule: lookup_document)
        (simp_all add: healthy_simps sql_CreateGuest_def sql_InsertPermissionGuest_def docs_map_None
          guests_map_None perms_map_None not_found_or_impl_def conflict_or_impl_def
          guests_map_snoc perms_map_snoc permission_of_def)
  qed (use 1 in \<open>simp add: wp_run repo_CreateGuest_def spec_CreateGuest_def Let_def healthy_simps\<close>)
qed

lemma has_permission_find:
  "has_permission u i d \<Longrightarrow> \<exists>r. find (\<lambda>r. p_document_id r = i \<and> p_recipient_id r = u) (permissions d) = Some r"
  by (cases "find (\<lambda>r. p_document_id r = i \<and> p_recipient_id r = u) (permissions d)")
    (auto simp: has_permission_def find_None_iff)

lemma perms_map_upsert:
  assumes "has_permission u i d"
  shows "\<exists>p. perms_map (permissions d) (u, i) = Some p \<and>
    perms_map (map (\<lambda>r. if perm_key r = (u, i)
       then r\<lparr>p_last_modified_at := now, p_permission_level := pl\<rparr> else r) (permissions d)) =
    (perms_map (permissions d))((u, i) \<mapsto> p\<lparr>perm_PermissionLevel := level_of pl, perm_LastModifiedAt := now\<rparr>)"
proof -
  obtain r where r: "find (\<lambda>r. p_document_id r = i \<and> p_recipient_id r = u) (permissions d) = Some r"
    using has_permission_find [OF assms] by blast
  with perms_map_update [OF _ this, of "\<lambda>r. r\<lparr>p_last_modified_at := now, p_permission_level := pl\<rparr>" "\<lambda>_. True"]
  show ?thesis by (simp add: perms_map_find permission_of_def)
qed

lemma refines_UpsertPermissionUser:
  "refines (repo_UpsertPermissionUser E u i l) (spec_UpsertPermissionUser E u i l)"
proof (rule refinesI [OF atomic_UpsertPermissionUser keeps_writes(6)], goal_cases)
  case (1 c)
  show ?case
  proof (cases l rule: level_cases)
    case (valid pl)
    note lvl = valid
    show ?thesis
    proof (cases i "tables c" rule: lookup_document)
      case absent
      with 1 lvl show ?thesis
        by (simp add: wp_run repo_UpsertPermissionUser_def spec_UpsertPermissionUser_def Let_def
            healthy_simps docs_map_None not_found_or_impl_def)
    next
      case (present r)
      with 1 lvl perms_map_upsert [where d = "tables c" and u = u and i = i and now = "db_NOW E" and pl = pl] perms_map_None [of "tables c" u i]
      show ?thesis
        by (auto simp: wp_run repo_UpsertPermissionUser_def spec_UpsertPermissionUser_def Let_def
            healthy_simps sql_UpsertPermissionUser_def docs_map_None perms_map_snoc permission_of_def)
    qed
  qed (use 1 in \<open>simp add: wp_run repo_UpsertPermissionUser_def spec_UpsertPermissionUser_def Let_def healthy_simps\<close>)
qed

lemma refines_DeletePermissionsPrincipal:
  "refines (repo_DeletePermissionsPrincipal u i) (spec_DeletePermissionsPrincipal u i)"
proof (rule refinesI [OF atomic_DeletePermissionsPrincipal keeps_writes(8)], goal_cases)
  case (1 c)
  have "filter (\<lambda>r. perm_key r = (u, i)) (permissions (tables c)) = [] \<longleftrightarrow> \<not> has_permission u i (tables c)"
    by (auto simp: has_permission_def filter_empty_conv)
  moreover have "(perms_map (permissions (tables c)))((u, i) := None) = perms_map (permissions (tables c))"
    if "\<not> has_permission u i (tables c)"
    using that perms_map_None [of "tables c" u i] by (auto simp: fun_eq_iff)
  ultimately show ?case
    using 1 perms_map_delete [of u i "permissions (tables c)"]
    by (auto simp: wp_run repo_DeletePermissionsPrincipal_def spec_DeletePermissionsPrincipal_def
        healthy_simps sql_DeletePermissionPrincipal_def perms_map_None)
qed

lemma repoToServicePermission_ok:
  assumes "env_ok E" "permission_level_label (p_permission_level r)" "recipient_type_label (p_recipient_type r)"
  shows "repoToServicePermission E r = Inr (as_listed (permission_of r))"
proof -
  have "repoToServicePermissionLevel (p_permission_level r) = Inr (level_of (p_permission_level r))"
    using assms by (cases "p_permission_level r") simp_all
  moreover have "repoToServiceRecipientType (p_recipient_type r) = Inr (recipient_of (p_recipient_type r))"
    using assms by (cases "p_recipient_type r") simp_all
  ultimately show ?thesis using assms by (simp add: conv_defs permission_of_def as_listed_def)
qed

lemma refines_GetPermission:
  "env_ok E \<Longrightarrow> refines (repo_GetPermissionOfPrincipalOnDocument E i u) (spec_GetPermission i u)"
proof (rule refinesI [OF atomic_GetPermission keeps_reads(3)], goal_cases)
  case (1 c)
  show ?case
  proof (cases "find (\<lambda>r. p_document_id r = i \<and> p_recipient_id r = u) (permissions (tables c))")
    case None
    with 1 show ?thesis
      by (simp add: wp_run repo_GetPermissionOfPrincipalOnDocument_def spec_GetPermission_def
        sql_defs healthy_simps perms_map_find not_found_or_impl_def)
  next
    case (Some r)
    then have "r \<in> set (permissions (tables c))" by (auto simp: find_Some_iff)
    with 1 have "repoToServicePermission E r = Inr (as_listed (permission_of r))"
      by (intro repoToServicePermission_ok) (auto simp: db_ok_def)
    with 1 Some show ?thesis
      by (simp add: wp_run repo_GetPermissionOfPrincipalOnDocument_def spec_GetPermission_def
        sql_defs healthy_simps perms_map_find permission_of_def)
  qed
qed

lemma perms_map_update_guest:
  assumes "find (\<lambda>r. p_document_id r = i \<and> p_recipient_id r = g) (permissions d) = Some r"
  shows "perms_map (map (\<lambda>r. if perm_key r = (g, i) \<and> p_recipient_type r = RecipientTypeGuest
       then r\<lparr>p_permission_level := pl, p_last_modified_at := now\<rparr> else r) (permissions d)) =
    (perms_map (permissions d))((g, i) \<mapsto> (if p_recipient_type r = RecipientTypeGuest
       then (permission_of r)\<lparr>perm_PermissionLevel := level_of pl, perm_LastModifiedAt := now\<rparr>
       else permission_of r))"
  using perms_map_update [OF _ assms, of "\<lambda>r. r\<lparr>p_permission_level := pl, p_last_modified_at := now\<rparr>"
      "\<lambda>r. p_recipient_type r = RecipientTypeGuest"]
  by (simp add: permission_of_def)

lemma recipient_of_guest: "recipient_type_label t \<Longrightarrow> recipient_of t = Recipient_Guest \<longleftrightarrow> t = RecipientTypeGuest"
  by (cases t) simp_all

lemma count_guest_permission:
  assumes "db_ok d"
  shows "(filter (\<lambda>r. perm_key r = (g, i) \<and> p_recipient_type r = RecipientTypeGuest) (permissions d) = []) \<longleftrightarrow>
   (\<forall>r. find (\<lambda>r. p_document_id r = i \<and> p_recipient_id r = g) (permissions d) = Some r \<longrightarrow>
      p_recipient_type r \<noteq> RecipientTypeGuest)"
proof (cases "find (\<lambda>r. p_document_id r = i \<and> p_recipient_id r = g) (permissions d)")
  case None
  then have "\<forall>r \<in> set (permissions d). perm_key r \<noteq> (g, i)" by (auto simp: find_None_iff)
  with None show ?thesis by (auto simp: filter_empty_conv)
next
  case (Some r)
  then have r: "r \<in> set (permissions d)" "perm_key r = (g, i)" by (auto simp: find_Some_iff)
  have "r' = r" if "r' \<in> set (permissions d)" "perm_key r' = (g, i)" for r'
  proof (rule inj_onD)
    show "inj_on perm_key (set (permissions d))" using assms by (simp add: db_ok_def distinct_map)
    show "perm_key r' = perm_key r" using that r by (simp only:)
  qed (use that r in auto)
  with r have "(\<forall>r' \<in> set (permissions d). \<not> (perm_key r' = (g, i) \<and> p_recipient_type r' = RecipientTypeGuest)) \<longleftrightarrow>
      p_recipient_type r \<noteq> RecipientTypeGuest"
    by blast
  with Some show ?thesis unfolding filter_empty_conv by simp
qed

lemma refines_UpdatePermissionGuest:
  "refines (repo_UpdatePermissionGuest E g l) (spec_UpdatePermissionGuest E g l)"
proof (rule refinesI [OF atomic_UpdatePermissionGuest keeps_writes(7)], goal_cases)
  case (1 c)
  show ?case
  proof (cases l rule: level_cases)
    case (valid pl)
    note defs = wp_run repo_UpdatePermissionGuest_def spec_UpdatePermissionGuest_def healthy_simps sql_defs
      guests_map_find not_found_or_impl_def
    show ?thesis
    proof (cases "find (\<lambda>r. g_id r = g) (guests (tables c))")
      case None
      with 1 valid show ?thesis by (simp add: defs)
    next
      case (Some gr)
      let ?i = "g_document_id gr"
      note count = count_guest_permission [OF \<open>db_ok (tables c)\<close>, of g ?i]
      show ?thesis
      proof (cases "find (\<lambda>r. p_document_id r = ?i \<and> p_recipient_id r = g) (permissions (tables c))")
        case None
        then have "map (\<lambda>r. if perm_key r = (g, ?i) \<and> p_recipient_type r = RecipientTypeGuest
            then r\<lparr>p_permission_level := pl, p_last_modified_at := db_NOW E\<rparr> else r) (permissions (tables c))
            = permissions (tables c)"
          by (intro map_idI) (auto simp: find_None_iff)
        with 1 valid Some None count show ?thesis by (simp add: defs perms_map_find)
      next
        case (Some pr)
        then have "pr \<in> set (permissions (tables c))" by (auto simp: find_Some_iff)
        then have "recipient_type_label (p_recipient_type pr)" using 1 by (auto simp: db_ok_def)
        moreover have "perm_RecipientType (permission_of pr) = recipient_of (p_recipient_type pr)"
          by (simp add: permission_of_def)
        moreover have "(perms_map (permissions (tables c)))((g, ?i) \<mapsto> permission_of pr) = perms_map (permissions (tables c))"
          using Some by (auto simp: fun_eq_iff perms_map_find)
        ultimately show ?thesis
          using 1 valid Some \<open>find (\<lambda>r. g_id r = g) (guests (tables c)) = Some gr\<close> count
            perms_map_update_guest [OF Some, where pl = pl and now = "db_NOW E"]
          by (auto simp: defs perms_map_find recipient_of_guest)
      qed
    qed
  qed (use 1 in \<open>simp add: wp_run repo_UpdatePermissionGuest_def spec_UpdatePermissionGuest_def healthy_simps\<close>)
qed

section \<open>Listings\<close>

lemma map_err_levels:
  obtains (valid) pls where "map_err serviceToRepoPermissionLevel levels = Inr pls"
      "set levels \<subseteq> set AllPermissions" "list_all permission_level_label pls"
      "\<And>pl. permission_level_label pl \<Longrightarrow> pl \<in> set pls \<longleftrightarrow> level_of pl \<in> set levels"
    | (invalid) "map_err serviceToRepoPermissionLevel levels = Inl (Errorf None)"
      "\<not> set levels \<subseteq> set AllPermissions"
proof (cases "map_err serviceToRepoPermissionLevel levels")
  case (Inl e)
  then obtain l where l: "l \<in> set levels" "serviceToRepoPermissionLevel l = Inl e"
    using map_err_Inl by metis
  then have "e = Errorf None \<and> l \<notin> set AllPermissions"
    by (cases l rule: level_cases) auto
  with Inl l show ?thesis by (intro invalid) auto
next
  case (Inr pls)
  have conv: "serviceToRepoPermissionLevel l = Inr pl \<longleftrightarrow> permission_level_label pl \<and> level_of pl = l" for l pl
    by (cases pl) (auto simp: conv_defs)
  have all2: "list_all2 (\<lambda>l pl. permission_level_label pl \<and> level_of pl = l) levels pls"
    using Inr by (simp add: map_err_Inr_iff conv)
  have eq: "levels = map level_of pls" "list_all permission_level_label pls"
    using all2 by (induction rule: list_all2_induct) auto
  have inj: "level_of pl = level_of pl' \<Longrightarrow> pl = pl'"
    if "permission_level_label pl" "permission_level_label pl'" for pl pl'
    using that by (cases pl; cases pl') auto
  have "set levels \<subseteq> set AllPermissions"
  proof
    fix l assume "l \<in> set levels"
    then obtain pl where "l = level_of pl" "permission_level_label pl" using eq by (auto simp: list_all_iff)
    then show "l \<in> set AllPermissions" by (cases pl) (auto simp: AllPermissions_def)
  qed
  moreover have "pl \<in> set pls \<longleftrightarrow> level_of pl \<in> set levels" if "permission_level_label pl" for pl
    using that eq inj by (auto simp: list_all_iff)
  ultimately show ?thesis using Inr eq(2) by (intro valid)
qed

lemma documents_of_principal_iff:
  "(r, l) \<in> set (documents_of_principal who ls d) \<longleftrightarrow>
     r \<in> set (documents d) \<and> (\<exists>p \<in> set (permissions d). p_recipient_id p = who \<and>
       p_document_id p = d_id r \<and> p_permission_level p = l \<and> l \<in> set ls)"
  by (auto simp: documents_of_principal_def)

lemma distinct_concat_map:
  assumes "distinct (map f xs)" "\<And>x. x \<in> set xs \<Longrightarrow> length (g x) \<le> 1"
    "\<And>x y. x \<in> set xs \<Longrightarrow> y \<in> set (g x) \<Longrightarrow> k y = f x"
  shows "distinct (map k (concat (map g xs)))"
  using assms
proof (induction xs)
  case (Cons x xs)
  have "distinct (map k (g x))" using Cons.prems(2) [of x] by (cases "g x") auto
  moreover have "k y \<noteq> k z" if "y \<in> set (g x)" "z \<in> set (concat (map g xs))" for y z
    using that Cons.prems by (auto simp: image_iff) metis
  ultimately show ?case using Cons by (auto simp: image_iff)
qed simp

lemma at_most_one: "distinct (map f xs) \<Longrightarrow> length (filter (\<lambda>x. f x = k \<and> P x) xs) \<le> 1"
proof (induction xs)
  case (Cons x xs)
  have "filter (\<lambda>x. f x = k \<and> P x) xs = []" if "f x = k"
    using Cons.prems that by (auto simp: filter_empty_conv image_iff)
  with Cons show ?case by auto
qed simp

lemma distinct_documents_of_principal:
  assumes "db_ok d"
  shows "distinct (map (\<lambda>x. d_id (fst x)) (documents_of_principal who ls d))"
  unfolding documents_of_principal_def
proof (rule distinct_concat_map [where f = d_id])
  show "distinct (map d_id (documents d))" using assms by (simp add: db_ok_def)
  fix r
  let ?row = "\<lambda>p. if d_id r = p_document_id p \<and> p_permission_level p \<in> set ls \<and> p_recipient_id p = who
      then [(r, p_permission_level p)] else []"
  have "concat (map ?row ps) = map (\<lambda>p. (r, p_permission_level p))
      (filter (\<lambda>p. perm_key p = (who, d_id r) \<and> p_permission_level p \<in> set ls) ps)" for ps
    by (induction ps) auto
  then show "length (concat (map ?row (permissions d))) \<le> 1"
    using at_most_one [of perm_key "permissions d" "(who, d_id r)"] assms by (simp add: db_ok_def)
qed auto

lemma distinct_paired_key: "distinct (map g xs) \<Longrightarrow> distinct (map (\<lambda>x. (f x, g x)) xs)"
  by (induction xs) auto

lemma docs_map_Some:
  "distinct (map d_id rows) \<Longrightarrow> docs_map rows i = Some x \<longleftrightarrow> (\<exists>r \<in> set rows. d_id r = i \<and> document_of r = x)"
  by (auto simp: docs_map_def map_of_eq_Some_iff comp_def)

lemma perms_map_Some:
  "distinct (map perm_key rows) \<Longrightarrow>
   perms_map rows k = Some x \<longleftrightarrow> (\<exists>r \<in> set rows. perm_key r = k \<and> permission_of r = x)"
  by (auto simp: perms_map_def map_of_eq_Some_iff comp_def)

lemma listed_documents_visible:
  assumes ok: "db_ok d" and ls: "\<And>pl. permission_level_label pl \<Longrightarrow> pl \<in> set pls \<longleftrightarrow> level_of pl \<in> set levels"
  shows "listed_document ` set (documents_of_principal who pls d) = visible_documents who levels (store d)"
proof -
  have dd: "distinct (map d_id (documents d))" and dp: "distinct (map perm_key (permissions d))"
    using ok by (simp_all add: db_ok_def)
  have lv: "p_permission_level p \<in> set pls \<longleftrightarrow> perm_PermissionLevel (permission_of p) \<in> set levels"
    if "p \<in> set (permissions d)" for p
    using ok that ls by (simp add: db_ok_def permission_of_def)
  have "x \<in> listed_document ` set (documents_of_principal who pls d) \<longleftrightarrow>
      (\<exists>r \<in> set (documents d). \<exists>p \<in> set (permissions d). perm_key p = (who, d_id r) \<and>
        p_permission_level p \<in> set pls \<and>
        x = \<lparr> dp_Document = document_of r, dp_Permission = perm_PermissionLevel (permission_of p) \<rparr>)" for x
  proof -
    have "x \<in> listed_document ` set (documents_of_principal who pls d) \<longleftrightarrow>
        (\<exists>r l. (r, l) \<in> set (documents_of_principal who pls d) \<and> x = listed_document (r, l))"
      by force
    then show ?thesis
      unfolding documents_of_principal_iff listed_document_def permission_of_def by auto
  qed
  moreover have "x \<in> visible_documents who levels (store d) \<longleftrightarrow>
      (\<exists>r \<in> set (documents d). \<exists>p \<in> set (permissions d). perm_key p = (who, d_id r) \<and>
        perm_PermissionLevel (permission_of p) \<in> set levels \<and>
        x = \<lparr> dp_Document = document_of r, dp_Permission = perm_PermissionLevel (permission_of p) \<rparr>)" for x
    unfolding visible_documents_def store_simps docs_map_Some [OF dd] perms_map_Some [OF dp] mem_Collect_eq
    by blast
  ultimately show ?thesis using lv by (simp add: set_eq_iff cong: bex_cong conj_cong)
qed

lemma parseDocumentPermission_ok:
  assumes "env_ok E" "permission_level_label (snd x)"
  shows "parseDocumentPermission E x = Inr (listed_document x)"
  using assms by (cases "snd x") (simp_all add: conv_defs listed_document_def document_of_def)

lemma documents_page:
  assumes ok: "db_ok d" and E: "env_ok E"
    and ls: "list_all permission_level_label pls"
      "\<And>pl. permission_level_label pl \<Longrightarrow> pl \<in> set pls \<longleftrightarrow> level_of pl \<in> set levels"
    and key: "\<And>x. key x = (t x, d_id (fst x))" "\<And>x. key' (listed_document x) = key x"
    and rows_def: "rows = take n (order_desc key (filter (\<lambda>x. key x < k) (documents_of_principal who pls d)))"
  shows "map_err (parseDocumentPermission E) rows = Inr (map listed_document rows)"
    and "is_page key' (visible_documents who levels (store d)) k n (map listed_document rows)"
proof -
  have "distinct (map key (documents_of_principal who pls d))"
    using distinct_paired_key [OF distinct_documents_of_principal [OF ok], of t who pls] key(1) by (simp cong: map_cong)
  then have "is_page key (set (documents_of_principal who pls d)) k n rows"
    unfolding rows_def by (rule is_page_take)
  from is_page_map [OF this, of key' listed_document] key(2)
  show "is_page key' (visible_documents who levels (store d)) k n (map listed_document rows)"
    by (simp add: listed_documents_visible [OF ok ls(2)])
  have "permission_level_label (snd x)" if "x \<in> set rows" for x
  proof -
    from that have "x \<in> set (documents_of_principal who pls d)"
      by (auto simp: rows_def dest: in_set_takeD)
    moreover obtain r l where "x = (r, l)" by (cases x)
    ultimately show ?thesis using ls(1) by (auto simp: documents_of_principal_iff list_all_iff)
  qed
  then show "map_err (parseDocumentPermission E) rows = Inr (map listed_document rows)"
    by (intro map_err_total parseDocumentPermission_ok [OF E])
qed

lemma below_key: "(a < t \<or> a = t \<and> b < i) \<longleftrightarrow> (a, b) < (t, i)" for a t :: "'a::linorder" and b i :: "'b::linorder"
  by auto

lemma answers_ListDocumentsByPrincipal:
  assumes E: "env_ok E"
  shows "answers (repo_ListDocumentsByPrincipal E who levels cursor n) (documents_listed who levels cursor n)"
proof (rule answersI [OF atomic_ListDocumentsByPrincipal], goal_cases)
  case (1 c)
  note defs = wp_run repo_ListDocumentsByPrincipal_def documents_listed_def valid_levels_def healthy_simps
  show ?case
  proof (cases cursor)
    case (Some cur)
    show ?thesis
    proof (cases levels rule: map_err_levels)
      case (valid pls)
      note pages = documents_page [OF \<open>db_ok (tables c)\<close> E valid(3,4) _ _ refl,
          where n = "nat (sint n)" and k = "cursor_key cur" and who = who and key' = "document_key (cur_SortField cur)"]
      note read = defs readDocuments_def sql_defs sql_limit_def below_key cursor_key_def [symmetric]
      consider "\<not> valid_sort cur" | "sint n < 0" | "0 \<le> sint n" "cur_SortField cur = Sort_CreatedAt"
        | "0 \<le> sint n" "cur_SortField cur = Sort_LastModifiedAt"
        unfolding valid_sort_def by (meson empty_iff insert_iff not_le)
      then show ?thesis
      proof cases
        case 3
        with 1 Some valid(1-3) pages [where key = created_key] show ?thesis
          by (simp add: read valid_sort_def document_key_def listed_document_def document_of_def)
      next
        case 4
        with 1 Some valid(1-3) pages [where key = modified_key] show ?thesis
          by (simp add: read valid_sort_def document_key_def listed_document_def document_of_def)
      qed (use 1 Some valid(1-3) in \<open>auto simp: read valid_sort_def documents_cursor_def\<close>)
    qed (use 1 Some in \<open>auto simp: defs\<close>)
  qed (use 1 in \<open>simp add: defs\<close>)
qed

lemma permissions_on_document_visible:
  assumes ok: "db_ok d" and ls: "\<And>pl. permission_level_label pl \<Longrightarrow> pl \<in> set pls \<longleftrightarrow> level_of pl \<in> set levels"
  shows "permission_of ` set (permissions_on_document i pls d) = visible_permissions i levels (store d)"
proof -
  have dp: "distinct (map perm_key (permissions d))" using ok by (simp add: db_ok_def)
  have lv: "p_permission_level p \<in> set pls \<longleftrightarrow> perm_PermissionLevel (permission_of p) \<in> set levels"
    if "p \<in> set (permissions d)" for p
    using ok that ls by (simp add: db_ok_def permission_of_def)
  have "x \<in> visible_permissions i levels (store d) \<longleftrightarrow>
      (\<exists>p \<in> set (permissions d). p_document_id p = i \<and> perm_PermissionLevel (permission_of p) \<in> set levels \<and>
        x = permission_of p)" for x
    unfolding visible_permissions_def store_simps perms_map_Some [OF dp] mem_Collect_eq by auto
  then show ?thesis
    using lv by (auto simp: permissions_on_document_def set_eq_iff image_iff)
qed

lemma permissions_page:
  assumes ok: "db_ok d" and E: "env_ok E"
    and ls: "list_all permission_level_label pls"
      "\<And>pl. permission_level_label pl \<Longrightarrow> pl \<in> set pls \<longleftrightarrow> level_of pl \<in> set levels"
    and key: "\<And>x. key x = (t x, p_recipient_id x)" "\<And>x. key' (permission_of x) = key x"
    and rows_def: "rows = take n (order_desc key (filter (\<lambda>x. key x < k) (permissions_on_document i pls d)))"
  shows "map_err (repoToServicePermission E) rows = Inr (map as_listed (map permission_of rows))"
    and "is_page key' (visible_permissions i levels (store d)) k n (map permission_of rows)"
proof -
  have "distinct (map perm_key (permissions_on_document i pls d))"
    using ok by (simp add: db_ok_def permissions_on_document_def distinct_map_filter)
  then have "distinct (map p_recipient_id (permissions_on_document i pls d))"
    by (auto simp: distinct_map permissions_on_document_def inj_on_def)
  then have "distinct (map key (permissions_on_document i pls d))"
    using distinct_paired_key [of p_recipient_id _ t] key(1) by (simp cong: map_cong)
  then have "is_page key (set (permissions_on_document i pls d)) k n rows"
    unfolding rows_def by (rule is_page_take)
  from is_page_map [OF this, of key' permission_of] key(2)
  show "is_page key' (visible_permissions i levels (store d)) k n (map permission_of rows)"
    by (simp add: permissions_on_document_visible [OF ok ls(2)])
  have "x \<in> set (permissions d)" if "x \<in> set rows" for x
    using that by (auto simp: rows_def permissions_on_document_def dest!: in_set_takeD)
  then show "map_err (repoToServicePermission E) rows = Inr (map as_listed (map permission_of rows))"
    using ok unfolding map_map comp_def db_ok_def
    by (intro map_err_total repoToServicePermission_ok [OF E]) auto
qed

lemma answers_ListPermissionsOnDocument:
  assumes E: "env_ok E"
  shows "answers (repo_ListPermissionsOnDocument E i levels cursor n) (permissions_listed i levels cursor n)"
proof (rule answersI [OF atomic_ListPermissionsOnDocument], goal_cases)
  case (1 c)
  note defs = wp_run repo_ListPermissionsOnDocument_def permissions_listed_def valid_levels_def healthy_simps
  show ?case
  proof (cases levels rule: map_err_levels)
    case (valid pls)
    show ?thesis
    proof (cases cursor)
      case (Some cur)
      show ?thesis
      proof (cases i "tables c" rule: lookup_document)
        case absent
        with 1 Some valid(1,2) show ?thesis
          by (auto simp: defs docs_map_None not_found_or_impl_def)
      next
        case (present r)
        note pages = permissions_page [OF \<open>db_ok (tables c)\<close> E valid(3,4) _ _ refl,
            where n = "nat (sint n)" and k = "cursor_key cur" and i = i and key' = "permission_key (cur_SortField cur)"]
        note read = defs readPermissions_def sql_ListPermissionOnDocumentCreatedAt_def
          sql_ListPermissionOnDocumentLastModifiedAt_def sql_limit_def below_key cursor_key_def [symmetric]
          docs_map_None
        consider "\<not> valid_sort cur" | "sint n < 0" | "0 \<le> sint n" "cur_SortField cur = Sort_CreatedAt"
          | "0 \<le> sint n" "cur_SortField cur = Sort_LastModifiedAt"
          unfolding valid_sort_def by (meson empty_iff insert_iff not_le)
        then show ?thesis
        proof cases
          case 3
          with 1 Some present valid(1-3) pages [where key = perm_created_key] show ?thesis
            by (auto simp: read valid_sort_def permission_key_def permission_of_def simp del: map_map)
        next
          case 4
          with 1 Some present valid(1-3) pages [where key = perm_modified_key] show ?thesis
            by (auto simp: read valid_sort_def permission_key_def permission_of_def simp del: map_map)
        qed (use 1 Some present valid(1-3) in \<open>auto simp: read valid_sort_def permissions_cursor_def\<close>)
      qed
    qed (use 1 valid(1,2) in \<open>auto simp: defs\<close>)
  qed (use 1 in \<open>auto simp: defs\<close>)
qed

end
