(* ===== verification/Doc_Sample.thy ===== *)
theory Doc_Sample
  imports Doc_Sql
begin

text \<open>
  A small database of the document service, at which the theorems with hypotheses are
  instantiated: one document with its owner and one guest.
\<close>

text \<open>A database for the witnesses: user 7 owns document 1, and guest 8 may edit it; the
  user's permission was changed last.\<close>

definition demo_db :: doc_db where
  "demo_db = \<lparr>
     documents = [\<lparr> d_id = 1, d_name = Some ''notes'', d_description = None, d_created_at = 10, d_last_modified_at = 10 \<rparr>],
     guests = [\<lparr> g_id = 8, g_document_id = 1, g_description = None, g_created_by = 7, g_created_at = 20, g_last_modified_at = 20 \<rparr>],
     permissions =
       [\<lparr> p_recipient_id = 7, p_recipient_type = RecipientTypeUser, p_document_id = 1,
          p_permission_level = PermissionLevelOwner, p_created_by = 7, p_created_at = 10, p_last_modified_at = 100 \<rparr>,
        \<lparr> p_recipient_id = 8, p_recipient_type = RecipientTypeGuest, p_document_id = 1,
          p_permission_level = PermissionLevelEditor, p_created_by = 7, p_created_at = 20, p_last_modified_at = 90 \<rparr>] \<rparr>"

definition demo_conn :: "doc_db conn" where
  "demo_conn = \<lparr> tables = demo_db, snapshot = None, faults = [] \<rparr>"

definition demo_env :: env where
  "demo_env = concrete_env 42 1000"

definition demo_cursor :: "SortField \<Rightarrow> Cursor" where
  "demo_cursor sf = \<lparr> cur_SortField = sf, cur_LastSeenTime = 1000, cur_LastSeenID = - 1 \<rparr>"

lemma demo_ok: "db_ok demo_db" "env_ok demo_env"
  by (simp_all add: demo_db_def db_ok_def has_document_def demo_env_def env_ok_concrete)

end
