(* ===== verification/Doc_Pagination.thy ===== *)
theory Doc_Pagination
  imports Doc_Refinement Doc_Sample
begin

text \<open>
  The two listings of the repository as instances of the keyset contract: a client that
  starts from a cursor and follows the returned cursors gets every visible document
  (sorted by either field) and every permission of a document (sorted by creation) exactly
  once. For permissions sorted by modification the contract fails, and the theorem at the
  end exhibits the page that is lost.
\<close>

record listing =
  ls_conn :: "doc_db conn"
  ls_env :: env
  ls_subject :: uuid                   \<comment> \<open>the principal, or the document\<close>
  ls_levels :: "PermissionLevel list"
  ls_size :: int32

definition valid_listing :: "listing \<Rightarrow> bool" where
  "valid_listing e \<longleftrightarrow> db_ok (tables (ls_conn e)) \<and> snapshot (ls_conn e) = None \<and>
     faults (ls_conn e) = [] \<and> env_ok (ls_env e) \<and> valid_levels (ls_levels e) \<and> 0 < sint (ls_size e)"

abbreviation ls_store :: "listing \<Rightarrow> doc_store" where
  "ls_store e \<equiv> store (tables (ls_conn e))"

definition fetch_documents :: "listing \<Rightarrow> Cursor \<Rightarrow> DocumentPermission list \<times> Cursor" where
  "fetch_documents e cur =
     (case fst (run_state (repo_ListDocumentsByPrincipal (ls_env e) (ls_subject e) (ls_levels e)
        (Some cur) (ls_size e)) (ls_conn e)) of Inr page \<Rightarrow> page | Inl _ \<Rightarrow> ([], cur))"

definition fetch_permissions :: "listing \<Rightarrow> Cursor \<Rightarrow> Permission list \<times> Cursor" where
  "fetch_permissions e cur =
     (case fst (run_state (repo_ListPermissionsOnDocument (ls_env e) (ls_subject e) (ls_levels e)
        (Some cur) (ls_size e)) (ls_conn e)) of Inr page \<Rightarrow> page | Inl _ \<Rightarrow> ([], cur))"

definition valid_permission_listing :: "listing \<Rightarrow> bool" where
  "valid_permission_listing e \<longleftrightarrow> valid_listing e \<and> has_document (ls_subject e) (tables (ls_conn e))"

section \<open>Laws\<close>

lemma finite_visible:
  assumes "db_ok d" "valid_levels levels"
  shows "finite (visible_documents who levels (store d))" "finite (visible_permissions i levels (store d))"
proof -
  from assms(2) obtain pls where
    "\<And>pl. permission_level_label pl \<Longrightarrow> pl \<in> set pls \<longleftrightarrow> level_of pl \<in> set levels"
    by (cases levels rule: map_err_levels) (auto simp: valid_levels_def)
  from listed_documents_visible [OF assms(1) this] permissions_on_document_visible [OF assms(1) this]
  show "finite (visible_documents who levels (store d))" "finite (visible_permissions i levels (store d))"
    by (metis finite_imageI finite_set)+
qed

lemma documents_cursor_key:
  assumes "xs \<noteq> []"
  shows "cur_SortField (documents_cursor cur xs) = cur_SortField cur"
    "cursor_key (documents_cursor cur xs) = document_key (cur_SortField cur) (last xs)"
  using assms by (simp_all add: documents_cursor_def cursor_key_def document_key_def Let_def)

lemma fetch_documents_page:
  assumes "valid_listing e" "valid_sort cur"
  shows "is_page (document_key (cur_SortField cur))
      (visible_documents (ls_subject e) (ls_levels e) (ls_store e)) (cursor_key cur) (nat (sint (ls_size e)))
      (fst (fetch_documents e cur))"
    and "snd (fetch_documents e cur) = documents_cursor cur (fst (fetch_documents e cur))"
proof -
  let ?m = "repo_ListDocumentsByPrincipal (ls_env e) (ls_subject e) (ls_levels e) (Some cur) (ls_size e)"
  obtain r c' where run: "run_state ?m (ls_conn e) = (r, c')" by fastforce
  have "documents_listed (ls_subject e) (ls_levels e) (Some cur) (ls_size e) (ls_store e) r"
    using answersD(3) [OF answers_ListDocumentsByPrincipal run] assms(1) by (simp add: valid_listing_def)
  with assms run show "is_page (document_key (cur_SortField cur))
      (visible_documents (ls_subject e) (ls_levels e) (ls_store e)) (cursor_key cur) (nat (sint (ls_size e)))
      (fst (fetch_documents e cur))"
    and "snd (fetch_documents e cur) = documents_cursor cur (fst (fetch_documents e cur))"
    by (auto simp: documents_listed_def valid_listing_def fetch_documents_def)
qed

lemma documents_listing_laws:
  assumes "sf \<in> {Sort_CreatedAt, Sort_LastModifiedAt}"
  shows "keyset_listing valid_listing (\<lambda>e. visible_documents (ls_subject e) (ls_levels e) (ls_store e))
    (document_key sf) (\<lambda>e. nat (sint (ls_size e))) fetch_documents (\<lambda>cur. cur_SortField cur = sf) cursor_key"
proof (unfold_locales, goal_cases)
  case (4 e cur)
  then show ?case
    using fetch_documents_page [of e cur] assms by (auto simp: valid_sort_def documents_cursor_key)
qed (use assms fetch_documents_page in \<open>auto simp: valid_listing_def valid_sort_def finite_visible\<close>)

interpretation docs_created: keyset_listing valid_listing
  "\<lambda>e. visible_documents (ls_subject e) (ls_levels e) (ls_store e)" "document_key Sort_CreatedAt"
  "\<lambda>e. nat (sint (ls_size e))" fetch_documents "\<lambda>cur. cur_SortField cur = Sort_CreatedAt" cursor_key
  by (rule documents_listing_laws) simp

interpretation docs_modified: keyset_listing valid_listing
  "\<lambda>e. visible_documents (ls_subject e) (ls_levels e) (ls_store e)" "document_key Sort_LastModifiedAt"
  "\<lambda>e. nat (sint (ls_size e))" fetch_documents "\<lambda>cur. cur_SortField cur = Sort_LastModifiedAt" cursor_key
  by (rule documents_listing_laws) simp

lemma as_listed_created_key: "permission_key Sort_CreatedAt (as_listed p) = permission_key Sort_CreatedAt p"
  by (simp add: permission_key_def as_listed_def)

lemma fetch_permissions_page:
  assumes "valid_permission_listing e" "valid_sort cur"
  obtains ps where "fetch_permissions e cur = (map as_listed ps, permissions_cursor cur (map as_listed ps))"
    "is_page (permission_key (cur_SortField cur)) (visible_permissions (ls_subject e) (ls_levels e) (ls_store e))
      (cursor_key cur) (nat (sint (ls_size e))) ps"
proof -
  let ?m = "repo_ListPermissionsOnDocument (ls_env e) (ls_subject e) (ls_levels e) (Some cur) (ls_size e)"
  obtain r c' where run: "run_state ?m (ls_conn e) = (r, c')" by fastforce
  have "permissions_listed (ls_subject e) (ls_levels e) (Some cur) (ls_size e) (ls_store e) r"
    using answersD(3) [OF answers_ListPermissionsOnDocument run] assms(1)
    by (simp add: valid_permission_listing_def valid_listing_def)
  with assms run that show thesis
    by (auto simp: permissions_listed_def valid_permission_listing_def valid_listing_def valid_levels_def
        fetch_permissions_def docs_map_None)
qed

interpretation perms_created: keyset_listing valid_permission_listing
  "\<lambda>e. as_listed ` visible_permissions (ls_subject e) (ls_levels e) (ls_store e)"
  "permission_key Sort_CreatedAt" "\<lambda>e. nat (sint (ls_size e))" fetch_permissions
  "\<lambda>cur. cur_SortField cur = Sort_CreatedAt" cursor_key
proof (unfold_locales, goal_cases)
  case (3 e cur)
  then obtain ps where "fetch_permissions e cur = (map as_listed ps, permissions_cursor cur (map as_listed ps))"
    "is_page (permission_key Sort_CreatedAt) (visible_permissions (ls_subject e) (ls_levels e) (ls_store e))
      (cursor_key cur) (nat (sint (ls_size e))) ps"
    using fetch_permissions_page [of e cur] by (auto simp: valid_sort_def)
  then show ?case by (auto intro: is_page_map simp: as_listed_created_key)
next
  case (4 e cur)
  then obtain ps where "fetch_permissions e cur = (map as_listed ps, permissions_cursor cur (map as_listed ps))"
    using fetch_permissions_page [of e cur] by (auto simp: valid_sort_def)
  with 4 show ?case
    by (auto simp: permissions_cursor_def cursor_key_def permission_key_def Let_def)
qed (auto simp: valid_permission_listing_def valid_listing_def finite_visible)

section \<open>Properties\<close>

definition demo_listing :: "uuid \<Rightarrow> listing" where
  "demo_listing subject = \<lparr> ls_conn = demo_conn, ls_env = demo_env, ls_subject = subject,
     ls_levels = [Viewer, Editor, Owner], ls_size = 1 \<rparr>"

lemma demo_listing_valid: "valid_listing (demo_listing u)"
  by (simp add: valid_listing_def demo_listing_def demo_conn_def demo_ok valid_levels_def AllPermissions_def)

text \<open>C6: following the cursors of the document listing, sorted by either field, a client sees
  exactly the documents visible to the principal below its first cursor, each once and in
  descending order of (time, id); one call per document and one more are enough.\<close>

theorem list_documents_complete:
  assumes "valid_listing e" "valid_sort cur"
    and "items = {x \<in> visible_documents (ls_subject e) (ls_levels e) (store (tables (ls_conn e))).
                   document_key (cur_SortField cur) x < cursor_key cur}"
    and "card items < fuel"
  shows "set (walk (fetch_documents e) fuel cur) = items \<and>
    sorted_wrt (\<lambda>a b. document_key (cur_SortField cur) b < document_key (cur_SortField cur) a)
      (walk (fetch_documents e) fuel cur)"
proof (cases "cur_SortField cur = Sort_CreatedAt")
  case True
  with assms docs_created.walk_visits_all [of e cur fuel] show ?thesis
    by (simp add: docs_created.below_def)
next
  case False
  with assms docs_modified.walk_visits_all [of e cur fuel] show ?thesis
    by (simp add: docs_modified.below_def valid_sort_def)
qed

theorem list_documents_complete_witness:
  "set (walk (fetch_documents (demo_listing 7))
      (Suc (card {x \<in> visible_documents 7 [Viewer, Editor, Owner] (store demo_db).
         document_key Sort_LastModifiedAt x < (1000, - 1)})) (demo_cursor Sort_LastModifiedAt)) =
    {x \<in> visible_documents 7 [Viewer, Editor, Owner] (store demo_db).
       document_key Sort_LastModifiedAt x < (1000, - 1)} \<and>
   map (doc_ID \<circ> dp_Document) (walk (fetch_documents (demo_listing 7)) 2 (demo_cursor Sort_LastModifiedAt)) = [1]"
proof
  show "set (walk (fetch_documents (demo_listing 7))
      (Suc (card {x \<in> visible_documents 7 [Viewer, Editor, Owner] (store demo_db).
         document_key Sort_LastModifiedAt x < (1000, - 1)})) (demo_cursor Sort_LastModifiedAt)) =
    {x \<in> visible_documents 7 [Viewer, Editor, Owner] (store demo_db).
       document_key Sort_LastModifiedAt x < (1000, - 1)}"
    using list_documents_complete [OF demo_listing_valid _ refl lessI, of "demo_cursor Sort_LastModifiedAt" 7]
    by (simp add: demo_cursor_def valid_sort_def demo_listing_def demo_conn_def cursor_key_def)
  show "map (doc_ID \<circ> dp_Document) (walk (fetch_documents (demo_listing 7)) 2 (demo_cursor Sort_LastModifiedAt)) = [1]"
    by code_simp
qed

text \<open>C29: following the cursors of the permission listing sorted by creation, a client sees
  every permission on the document below its first cursor, each once and in order.\<close>

theorem list_permissions_complete:
  assumes "valid_permission_listing e" "cur_SortField cur = Sort_CreatedAt"
    and "items = {x \<in> as_listed ` visible_permissions (ls_subject e) (ls_levels e) (store (tables (ls_conn e))).
                   permission_key Sort_CreatedAt x < cursor_key cur}"
    and "card items < fuel"
  shows "set (walk (fetch_permissions e) fuel cur) = items \<and>
    sorted_wrt (\<lambda>a b. permission_key Sort_CreatedAt b < permission_key Sort_CreatedAt a)
      (walk (fetch_permissions e) fuel cur)"
  using assms perms_created.walk_visits_all [of e cur fuel] by (simp add: perms_created.below_def)

theorem list_permissions_complete_witness:
  "set (walk (fetch_permissions (demo_listing 1))
      (Suc (card {x \<in> as_listed ` visible_permissions 1 [Viewer, Editor, Owner] (store demo_db).
         permission_key Sort_CreatedAt x < (1000, - 1)})) (demo_cursor Sort_CreatedAt)) =
    {x \<in> as_listed ` visible_permissions 1 [Viewer, Editor, Owner] (store demo_db).
       permission_key Sort_CreatedAt x < (1000, - 1)} \<and>
   map perm_RecipientID (walk (fetch_permissions (demo_listing 1)) 3 (demo_cursor Sort_CreatedAt)) = [8, 7]"
proof
  have "valid_permission_listing (demo_listing 1)"
    by (simp add: valid_permission_listing_def demo_listing_valid)
      (simp add: demo_listing_def demo_conn_def demo_db_def has_document_def)
  from list_permissions_complete [OF this _ refl lessI, of "demo_cursor Sort_CreatedAt"]
  show "set (walk (fetch_permissions (demo_listing 1))
      (Suc (card {x \<in> as_listed ` visible_permissions 1 [Viewer, Editor, Owner] (store demo_db).
         permission_key Sort_CreatedAt x < (1000, - 1)})) (demo_cursor Sort_CreatedAt)) =
    {x \<in> as_listed ` visible_permissions 1 [Viewer, Editor, Owner] (store demo_db).
       permission_key Sort_CreatedAt x < (1000, - 1)}"
    by (simp add: demo_cursor_def demo_listing_def demo_conn_def cursor_key_def)
  show "map perm_RecipientID (walk (fetch_permissions (demo_listing 1)) 3 (demo_cursor Sort_CreatedAt)) = [8, 7]"
    by code_simp
qed


end
