(* ===== verification/Doc_Service.thy ===== *)
theory Doc_Service
  imports Doc_Refinement Doc_Sample
begin

text \<open>
  \<^verbatim>\<open>document_service/internal/service/document_service.go\<close>: the \<^verbatim>\<open>DocumentRepository\<close>
  interface as a record of operations, the methods of \<^verbatim>\<open>DocumentService\<close> over an arbitrary
  repository, and the contract of the interface as a locale: every operation refines its
  abstract specification. Under that contract the service refines its own specification;
  the PostgreSQL repository satisfies the contract.
\<close>

section \<open>The repository interface\<close>

record DocumentRepository =
  dr_CreateDocument :: "env \<Rightarrow> uuid \<Rightarrow> string option \<Rightarrow> string option \<Rightarrow> uuid doc_op"
  dr_GetDocument :: "env \<Rightarrow> uuid \<Rightarrow> Document doc_op"
  dr_UpdateDocument :: "env \<Rightarrow> uuid \<Rightarrow> string option \<Rightarrow> string option \<Rightarrow> unit doc_op"
  dr_DeleteDocument :: "env \<Rightarrow> uuid \<Rightarrow> unit doc_op"
  dr_DeleteDocuments :: "env \<Rightarrow> uuid list \<Rightarrow> uuid \<Rightarrow> unit doc_op"
  dr_ListDocumentsByPrincipal :: "env \<Rightarrow> uuid \<Rightarrow> PermissionLevel list \<Rightarrow> Cursor option \<Rightarrow> int32 \<Rightarrow>
    (DocumentPermission list \<times> Cursor) doc_op"
  dr_GetPermissionOfPrincipalOnDocument :: "env \<Rightarrow> uuid \<Rightarrow> uuid \<Rightarrow> Permission doc_op"
  dr_ListPermissionsOnDocument :: "env \<Rightarrow> uuid \<Rightarrow> PermissionLevel list \<Rightarrow> Cursor option \<Rightarrow> int32 \<Rightarrow>
    (Permission list \<times> Cursor) doc_op"
  dr_CreateGuest :: "env \<Rightarrow> uuid \<Rightarrow> uuid \<Rightarrow> PermissionLevel \<Rightarrow> uuid doc_op"
  dr_UpsertPermissionUser :: "env \<Rightarrow> uuid \<Rightarrow> uuid \<Rightarrow> PermissionLevel \<Rightarrow> unit doc_op"
  dr_UpdatePermissionGuest :: "env \<Rightarrow> uuid \<Rightarrow> PermissionLevel \<Rightarrow> unit doc_op"
  dr_DeletePermissionsPrincipal :: "env \<Rightarrow> uuid \<Rightarrow> uuid \<Rightarrow> unit doc_op"

definition pg_repository :: DocumentRepository where
  "pg_repository = \<lparr>
     dr_CreateDocument = repo_CreateDocument,
     dr_GetDocument = repo_GetDocument,
     dr_UpdateDocument = (\<lambda>_. repo_UpdateDocument),
     dr_DeleteDocument = (\<lambda>_. repo_DeleteDocument),
     dr_DeleteDocuments = (\<lambda>_. repo_DeleteDocuments),
     dr_ListDocumentsByPrincipal = repo_ListDocumentsByPrincipal,
     dr_GetPermissionOfPrincipalOnDocument = repo_GetPermissionOfPrincipalOnDocument,
     dr_ListPermissionsOnDocument = repo_ListPermissionsOnDocument,
     dr_CreateGuest = repo_CreateGuest,
     dr_UpsertPermissionUser = repo_UpsertPermissionUser,
     dr_UpdatePermissionGuest = repo_UpdatePermissionGuest,
     dr_DeletePermissionsPrincipal = (\<lambda>_. repo_DeletePermissionsPrincipal) \<rparr>"

section \<open>The service\<close>

text \<open>\<^verbatim>\<open>if _, ok := err.(DomainError); !ok { err = RepoImpl(..., err) }\<close>: the assertion looks
  at the top of the chain only.\<close>

definition wrap_err :: "doc_err \<Rightarrow> doc_err" where
  "wrap_err err = (if isDomainError err then err else RepoImpl (Some err))"

definition svc_CreateDocument ::
  "DocumentRepository \<Rightarrow> env \<Rightarrow> uuid \<Rightarrow> string option \<Rightarrow> string option \<Rightarrow> uuid doc_op" where
  "svc_CreateDocument repo E ownerUserId documentName documentDescription =
     check (dr_CreateDocument repo E ownerUserId documentName documentDescription) wrap_err ret"

definition svc_GetDocument :: "DocumentRepository \<Rightarrow> env \<Rightarrow> uuid \<Rightarrow> Document doc_op" where
  "svc_GetDocument repo E documentId = check (dr_GetDocument repo E documentId) wrap_err ret"

definition svc_UpdateDocument ::
  "DocumentRepository \<Rightarrow> env \<Rightarrow> uuid \<Rightarrow> string option \<Rightarrow> string option \<Rightarrow> unit doc_op" where
  "svc_UpdateDocument repo E documentId documentName documentDescription =
     (if documentName = None \<and> documentDescription = None then fail (InvalidInput None)
      else check (dr_UpdateDocument repo E documentId documentName documentDescription) wrap_err ret)"

definition svc_DeleteDocument :: "DocumentRepository \<Rightarrow> env \<Rightarrow> uuid \<Rightarrow> unit doc_op" where
  "svc_DeleteDocument repo E documentId = check (dr_DeleteDocument repo E documentId) wrap_err ret"

definition svc_DeleteDocuments :: "DocumentRepository \<Rightarrow> env \<Rightarrow> uuid list \<Rightarrow> uuid \<Rightarrow> unit doc_op" where
  "svc_DeleteDocuments repo E documentIds userId =
     check (dr_DeleteDocuments repo E documentIds userId) wrap_err ret"

text \<open>The defaults of the two listings: all levels for an empty filter, the beginning cursor
  for a missing one, ten rows for a page size outside 1..100.\<close>

definition default_levels :: "PermissionLevel list \<Rightarrow> PermissionLevel list" where
  "default_levels levels = (if length levels < 1 then AllPermissions else levels)"

definition default_cursor :: "env \<Rightarrow> Cursor option \<Rightarrow> Cursor" where
  "default_cursor E cursor = (case cursor of None \<Rightarrow> NewBeginningCursor E Sort_CreatedAt | Some cur \<Rightarrow> cur)"

definition default_size :: "int32 \<Rightarrow> int32" where
  "default_size pageSize =
     (if sint pageSize < 1 \<or> sint pageSize > sint MaxPageSize then DefaultPageSize else pageSize)"

definition svc_ListDocumentsByPrincipal ::
  "DocumentRepository \<Rightarrow> env \<Rightarrow> uuid \<Rightarrow> PermissionLevel list \<Rightarrow> Cursor option \<Rightarrow> int32 \<Rightarrow>
   (DocumentPermission list \<times> Cursor) doc_op" where
  "svc_ListDocumentsByPrincipal repo E principalId levels cursor pageSize =
     check (dr_ListDocumentsByPrincipal repo E principalId (default_levels levels)
       (Some (default_cursor E cursor)) (default_size pageSize)) wrap_err ret"

definition svc_GetPermissionOfPrincipalOnDocument ::
  "DocumentRepository \<Rightarrow> env \<Rightarrow> uuid \<Rightarrow> uuid \<Rightarrow> Permission doc_op" where
  "svc_GetPermissionOfPrincipalOnDocument repo E documentId principalId =
     check (dr_GetPermissionOfPrincipalOnDocument repo E documentId principalId) wrap_err ret"

definition svc_ListPermissionsOnDocument ::
  "DocumentRepository \<Rightarrow> env \<Rightarrow> uuid \<Rightarrow> PermissionLevel list \<Rightarrow> Cursor option \<Rightarrow> int32 \<Rightarrow>
   (Permission list \<times> Cursor) doc_op" where
  "svc_ListPermissionsOnDocument repo E documentId levels cursor pageSize =
     check (dr_ListPermissionsOnDocument repo E documentId (default_levels levels)
       (Some (default_cursor E cursor)) (default_size pageSize)) wrap_err ret"

definition svc_CreateGuest ::
  "DocumentRepository \<Rightarrow> env \<Rightarrow> uuid \<Rightarrow> uuid \<Rightarrow> PermissionLevel \<Rightarrow> uuid doc_op" where
  "svc_CreateGuest repo E creatorId documentId permissionLevel =
     (if permissionLevel = Owner then fail (InvalidInput None)
      else check (dr_CreateGuest repo E creatorId documentId permissionLevel) wrap_err ret)"

definition svc_UpsertPermissionUser ::
  "DocumentRepository \<Rightarrow> env \<Rightarrow> uuid \<Rightarrow> uuid \<Rightarrow> PermissionLevel \<Rightarrow> unit doc_op" where
  "svc_UpsertPermissionUser repo E userId documentId permissionLevel =
     (if permissionLevel = Owner then fail (InvalidInput None)
      else check (dr_UpsertPermissionUser repo E userId documentId permissionLevel) wrap_err ret)"

definition svc_UpdatePermissionGuest ::
  "DocumentRepository \<Rightarrow> env \<Rightarrow> uuid \<Rightarrow> PermissionLevel \<Rightarrow> unit doc_op" where
  "svc_UpdatePermissionGuest repo E guestId permissionLevel =
     (if permissionLevel = Owner then fail (InvalidInput None)
      else check (dr_UpdatePermissionGuest repo E guestId permissionLevel) wrap_err ret)"

definition svc_DeletePermissionPrincipal :: "DocumentRepository \<Rightarrow> env \<Rightarrow> uuid \<Rightarrow> uuid \<Rightarrow> unit doc_op" where
  "svc_DeletePermissionPrincipal repo E recipientId documentId =
     check (dr_DeletePermissionsPrincipal repo E recipientId documentId) wrap_err ret"

section \<open>Specification of the service\<close>

text \<open>The service narrows the repository: nobody is granted ownership.\<close>

definition no_owner_grant :: "PermissionLevel \<Rightarrow> 'a spec \<Rightarrow> 'a spec" where
  "no_owner_grant level spec s = (if level = Owner then (Inl (InvalidInput None), s) else spec s)"

text \<open>The requests that may change the store, as data: the alphabet of the state machine.\<close>

datatype doc_request =
    Req_CreateDocument uuid "string option" "string option"
  | Req_UpdateDocument uuid "string option" "string option"
  | Req_DeleteDocument uuid
  | Req_DeleteDocuments "uuid list" uuid
  | Req_CreateGuest uuid uuid PermissionLevel
  | Req_UpsertPermissionUser uuid uuid PermissionLevel
  | Req_UpdatePermissionGuest uuid PermissionLevel
  | Req_DeletePermissionPrincipal uuid uuid

text \<open>Their reply: the identifier that was made, if one was.\<close>

fun svc_request :: "DocumentRepository \<Rightarrow> env \<Rightarrow> doc_request \<Rightarrow> uuid option doc_op" where
  "svc_request repo E (Req_CreateDocument u n s) = check (svc_CreateDocument repo E u n s) id (\<lambda>i. ret (Some i))"
| "svc_request repo E (Req_UpdateDocument i n s) = check (svc_UpdateDocument repo E i n s) id (\<lambda>_. ret None)"
| "svc_request repo E (Req_DeleteDocument i) = check (svc_DeleteDocument repo E i) id (\<lambda>_. ret None)"
| "svc_request repo E (Req_DeleteDocuments ids u) = check (svc_DeleteDocuments repo E ids u) id (\<lambda>_. ret None)"
| "svc_request repo E (Req_CreateGuest u i l) = check (svc_CreateGuest repo E u i l) id (\<lambda>g. ret (Some g))"
| "svc_request repo E (Req_UpsertPermissionUser u i l) = check (svc_UpsertPermissionUser repo E u i l) id (\<lambda>_. ret None)"
| "svc_request repo E (Req_UpdatePermissionGuest g l) = check (svc_UpdatePermissionGuest repo E g l) id (\<lambda>_. ret None)"
| "svc_request repo E (Req_DeletePermissionPrincipal u i) = check (svc_DeletePermissionPrincipal repo E u i) id (\<lambda>_. ret None)"

definition map_spec :: "('a \<Rightarrow> 'b) \<Rightarrow> 'a spec \<Rightarrow> 'b spec" where
  "map_spec f spec s = (map_sum id f (fst (spec s)), snd (spec s))"

fun spec_request :: "env \<Rightarrow> doc_request \<Rightarrow> uuid option spec" where
  "spec_request E (Req_CreateDocument u n s) = map_spec Some (spec_CreateDocument E u n s)"
| "spec_request E (Req_UpdateDocument i n s) = map_spec (\<lambda>_. None) (spec_UpdateDocument i n s)"
| "spec_request E (Req_DeleteDocument i) = map_spec (\<lambda>_. None) (spec_DeleteDocument i)"
| "spec_request E (Req_DeleteDocuments ids u) = map_spec (\<lambda>_. None) (spec_DeleteDocuments ids)"
| "spec_request E (Req_CreateGuest u i l) = map_spec Some (no_owner_grant l (spec_CreateGuest E u i l))"
| "spec_request E (Req_UpsertPermissionUser u i l) =
     map_spec (\<lambda>_. None) (no_owner_grant l (spec_UpsertPermissionUser E u i l))"
| "spec_request E (Req_UpdatePermissionGuest g l) =
     map_spec (\<lambda>_. None) (no_owner_grant l (spec_UpdatePermissionGuest E g l))"
| "spec_request E (Req_DeletePermissionPrincipal u i) = map_spec (\<lambda>_. None) (spec_DeletePermissionsPrincipal u i)"

section \<open>Errors of the service\<close>

text \<open>Whatever the repository returns, the service returns domain errors only.\<close>

definition domain_only :: "'a doc_op \<Rightarrow> bool" where
  "domain_only m \<longleftrightarrow> (\<forall>c. wp m (\<lambda>r _. \<forall>e. r = Inl e \<longrightarrow> isDomainError e) c)"

lemma isDomainError_wrap_err [simp]: "isDomainError (wrap_err e)"
  by (simp add: wrap_err_def)

lemma domain_only_wrapped: "domain_only (check m wrap_err ret)"
proof -
  have "wp m (\<lambda>_ _. True) c" for c by (simp add: wp_run)
  then have "wp m (\<lambda>r. case r of Inl e \<Rightarrow> \<lambda>_. \<forall>e'. Inl (wrap_err e) = (Inl e' :: doc_err + 'a) \<longrightarrow> isDomainError e'
      | Inr x \<Rightarrow> wp (ret x) (\<lambda>r _. \<forall>e. r = Inl e \<longrightarrow> isDomainError e)) c" for c
    by (rule wp_mono) (auto simp: wp_return split: sum.split)
  then show ?thesis by (simp add: domain_only_def wp_check)
qed

lemma domain_only_fail: "isDomainError e \<Longrightarrow> domain_only (fail e)"
  by (simp add: domain_only_def wp_return)

lemma domain_only_guard: "isDomainError e \<Longrightarrow> domain_only m \<Longrightarrow> domain_only (if b then fail e else m)"
  by (simp add: domain_only_fail)

section \<open>The contract of the repository\<close>

lemma wraps_outage_wrap_err: "wraps_outage e \<Longrightarrow> wraps_outage (wrap_err e)"
  by (auto simp: wrap_err_def wraps_outage_def)

text \<open>Code that only converts the reply of an operation that refines a specification.\<close>

lemma refines_reply:
  assumes m: "refines m spec" and h: "\<And>e. wraps_outage e \<Longrightarrow> wraps_outage (h e)"
    and spec': "\<And>s. spec' s = (case spec s of (Inl e, s') \<Rightarrow> (Inl (h e), s') | (Inr x, s') \<Rightarrow> (Inr (f x), s'))"
  shows "refines (check m h (\<lambda>x. ret (f x))) spec'"
  unfolding refines_def wp_check
proof (intro allI impI)
  fix c :: "doc_db conn"
  assume "snapshot c = None" "db_ok (tables c)"
  with m have "wp m (\<lambda>r c'. snapshot c' = None \<and> db_ok (tables c') \<and> meets spec c r c') c"
    by (simp add: refines_def)
  then show "wp m (\<lambda>r. case r of
      Inl e \<Rightarrow> \<lambda>c'. snapshot c' = None \<and> db_ok (tables c') \<and> meets spec' c (Inl (h e)) c'
    | Inr x \<Rightarrow> wp (ret (f x)) (\<lambda>r c'. snapshot c' = None \<and> db_ok (tables c') \<and> meets spec' c r c')) c"
  proof (rule wp_mono)
    fix r c'
    assume A: "snapshot c' = None \<and> db_ok (tables c') \<and> meets spec c r c'"
    obtain q t where q: "spec (store (tables c)) = (q, t)" by fastforce
    show "(case r of
      Inl e \<Rightarrow> \<lambda>c'. snapshot c' = None \<and> db_ok (tables c') \<and> meets spec' c (Inl (h e)) c'
    | Inr x \<Rightarrow> wp (ret (f x)) (\<lambda>r c'. snapshot c' = None \<and> db_ok (tables c') \<and> meets spec' c r c')) c'"
      using A h q by (cases r; cases q) (auto simp: meets_def spec' wp_return)
  qed
qed

lemma answers_reply:
  assumes m: "answers m P" and h: "\<And>e. wraps_outage e \<Longrightarrow> wraps_outage (h e)"
    and P': "\<And>s e. P s (Inl e) \<Longrightarrow> P' s (Inl (h e))" "\<And>s x. P s (Inr x) \<Longrightarrow> P' s (Inr x)"
  shows "answers (check m h ret) P'"
  unfolding answers_def wp_check
proof (intro allI impI)
  fix c :: "doc_db conn"
  assume "snapshot c = None" "db_ok (tables c)"
  with m have "wp m (\<lambda>r c'. snapshot c' = None \<and> tables c' = tables c \<and>
       (P (store (tables c)) r \<or> faults c \<noteq> [] \<and> failed wraps_outage r)) c"
    by (simp add: answers_def)
  then show "wp m (\<lambda>r. case r of
      Inl e \<Rightarrow> \<lambda>c'. snapshot c' = None \<and> tables c' = tables c \<and>
        (P' (store (tables c)) (Inl (h e)) \<or> faults c \<noteq> [] \<and> failed wraps_outage (Inl (h e)))
    | Inr x \<Rightarrow> wp (ret x) (\<lambda>r c'. snapshot c' = None \<and> tables c' = tables c \<and>
        (P' (store (tables c)) r \<or> faults c \<noteq> [] \<and> failed wraps_outage r))) c"
    by (rule wp_mono) (use h P' in \<open>auto simp: wp_return split: sum.split\<close>)
qed

text \<open>On the errors of the specifications the wrapper of the service is the identity.\<close>

definition domain_spec :: "'a spec \<Rightarrow> bool" where
  "domain_spec spec \<longleftrightarrow> (\<forall>s e s'. spec s = (Inl e, s') \<longrightarrow> isDomainError e)"

lemma refines_wrapped: "refines m spec \<Longrightarrow> domain_spec spec \<Longrightarrow> refines (check m wrap_err ret) spec"
  by (rule refines_reply [where f = "\<lambda>x. x", OF _ wraps_outage_wrap_err])
    (auto simp: domain_spec_def wrap_err_def split: prod.splits sum.splits)

lemma refines_mapped: "refines m spec \<Longrightarrow> refines (check m id (\<lambda>x. ret (f x))) (map_spec f spec)"
  by (rule refines_reply) (auto simp: map_spec_def split: prod.splits sum.splits)

lemma refines_guarded:
  "refines m spec \<Longrightarrow> refines (if level = Owner then fail (InvalidInput None) else m) (no_owner_grant level spec)"
  by (auto simp: refines_def no_owner_grant_def meets_def wp_return elim!: wp_mono)

lemma domain_specs:
  "domain_spec (spec_CreateDocument E u n s)" "domain_spec (spec_GetDocument i)"
  "domain_spec (spec_UpdateDocument i n s)" "domain_spec (spec_DeleteDocument i)"
  "domain_spec (spec_DeleteDocuments ids)" "domain_spec (spec_GetPermission i u)"
  "domain_spec (spec_CreateGuest E u i l)" "domain_spec (spec_UpsertPermissionUser E u i l)"
  "domain_spec (spec_UpdatePermissionGuest E g l)" "domain_spec (spec_DeletePermissionsPrincipal u i)"
  unfolding domain_spec_def spec_CreateDocument_def spec_GetDocument_def spec_UpdateDocument_def
    spec_DeleteDocument_def spec_DeleteDocuments_def spec_GetPermission_def spec_CreateGuest_def
    spec_UpsertPermissionUser_def spec_UpdatePermissionGuest_def spec_DeletePermissionsPrincipal_def Let_def
  by (auto split: if_splits option.splits)

locale document_repository =
  fixes repo :: DocumentRepository
  assumes CreateDocument_contract:
      "env_ok E \<Longrightarrow> refines (dr_CreateDocument repo E u n s) (spec_CreateDocument E u n s)"
    and GetDocument_contract: "env_ok E \<Longrightarrow> refines (dr_GetDocument repo E i) (spec_GetDocument i)"
    and UpdateDocument_contract:
      "env_ok E \<Longrightarrow> refines (dr_UpdateDocument repo E i n s) (spec_UpdateDocument i n s)"
    and DeleteDocument_contract: "env_ok E \<Longrightarrow> refines (dr_DeleteDocument repo E i) (spec_DeleteDocument i)"
    and DeleteDocuments_contract:
      "env_ok E \<Longrightarrow> refines (dr_DeleteDocuments repo E ids u) (spec_DeleteDocuments ids)"
    and ListDocumentsByPrincipal_contract:
      "env_ok E \<Longrightarrow> answers (dr_ListDocumentsByPrincipal repo E u ls cur k) (documents_listed u ls cur k)"
    and GetPermission_contract:
      "env_ok E \<Longrightarrow> refines (dr_GetPermissionOfPrincipalOnDocument repo E i u) (spec_GetPermission i u)"
    and ListPermissionsOnDocument_contract:
      "env_ok E \<Longrightarrow> answers (dr_ListPermissionsOnDocument repo E i ls cur k) (permissions_listed i ls cur k)"
    and CreateGuest_contract:
      "env_ok E \<Longrightarrow> refines (dr_CreateGuest repo E u i l) (spec_CreateGuest E u i l)"
    and UpsertPermissionUser_contract:
      "env_ok E \<Longrightarrow> refines (dr_UpsertPermissionUser repo E u i l) (spec_UpsertPermissionUser E u i l)"
    and UpdatePermissionGuest_contract:
      "env_ok E \<Longrightarrow> refines (dr_UpdatePermissionGuest repo E g l) (spec_UpdatePermissionGuest E g l)"
    and DeletePermissionsPrincipal_contract:
      "env_ok E \<Longrightarrow> refines (dr_DeletePermissionsPrincipal repo E u i) (spec_DeletePermissionsPrincipal u i)"
begin

lemmas contract = CreateDocument_contract GetDocument_contract UpdateDocument_contract
  DeleteDocument_contract DeleteDocuments_contract GetPermission_contract CreateGuest_contract
  UpsertPermissionUser_contract UpdatePermissionGuest_contract DeletePermissionsPrincipal_contract

lemma update_document:
  "env_ok E \<Longrightarrow> refines (svc_UpdateDocument repo E i n s) (spec_UpdateDocument i n s)"
  using refines_wrapped [OF UpdateDocument_contract domain_specs(3), of E i n s]
  by (auto simp: svc_UpdateDocument_def refines_def spec_UpdateDocument_def meets_def wp_return)

lemma get_document: "env_ok E \<Longrightarrow> refines (svc_GetDocument repo E i) (spec_GetDocument i)"
  unfolding svc_GetDocument_def by (intro refines_wrapped contract domain_specs)

lemma get_permission:
  "env_ok E \<Longrightarrow> refines (svc_GetPermissionOfPrincipalOnDocument repo E i u) (spec_GetPermission i u)"
  unfolding svc_GetPermissionOfPrincipalOnDocument_def by (intro refines_wrapped contract domain_specs)

text \<open>The listings never see a missing cursor, an empty filter or a page size out of range.\<close>

lemma list_documents:
  assumes "env_ok E"
  shows "answers (svc_ListDocumentsByPrincipal repo E u ls cur k)
    (documents_listed u (default_levels ls) (Some (default_cursor E cur)) (default_size k))"
  unfolding svc_ListDocumentsByPrincipal_def
  by (rule answers_reply [OF ListDocumentsByPrincipal_contract [OF assms] wraps_outage_wrap_err])
    (auto simp: documents_listed_def wrap_err_def split: if_splits)

lemma list_permissions:
  assumes "env_ok E"
  shows "answers (svc_ListPermissionsOnDocument repo E i ls cur k)
    (permissions_listed i (default_levels ls) (Some (default_cursor E cur)) (default_size k))"
  unfolding svc_ListPermissionsOnDocument_def
  by (rule answers_reply [OF ListPermissionsOnDocument_contract [OF assms] wraps_outage_wrap_err])
    (auto simp: permissions_listed_def wrap_err_def split: if_splits)

text \<open>Every state-changing request implements its specification.\<close>

lemma request: "env_ok E \<Longrightarrow> refines (svc_request repo E req) (spec_request E req)"
  by (cases req; hypsubst; unfold svc_request.simps spec_request.simps svc_CreateDocument_def
      svc_DeleteDocument_def svc_DeleteDocuments_def svc_CreateGuest_def svc_UpsertPermissionUser_def
      svc_UpdatePermissionGuest_def svc_DeletePermissionPrincipal_def;
      intro refines_mapped refines_guarded refines_wrapped contract domain_specs update_document)

end

interpretation pg: document_repository pg_repository
  by unfold_locales
    (simp_all add: pg_repository_def refines_CreateDocument refines_GetDocument refines_UpdateDocument
      refines_DeleteDocument refines_DeleteDocuments answers_ListDocumentsByPrincipal refines_GetPermission
      answers_ListPermissionsOnDocument refines_CreateGuest refines_UpsertPermissionUser
      refines_UpdatePermissionGuest refines_DeletePermissionsPrincipal)

section \<open>Properties\<close>

text \<open>C1: under every fault schedule every state-changing request of the document service on
  PostgreSQL implements its abstract specification: it answers and changes the store as
  specified, or (only if a call met a fault) it fails with the driver's error in its chain
  and the store is the old one or the specified one; the schema holds and no transaction
  stays open.\<close>

theorem service_refines_spec:
  "env_ok E \<Longrightarrow> refines (svc_request pg_repository E req) (spec_request E req)"
  by (rule pg.request)

theorem service_refines_spec_witness:
  "refines (svc_request pg_repository (concrete_env 5 100) (Req_DeleteDocuments [1, 2] 7))
     (spec_request (concrete_env 5 100) (Req_DeleteDocuments [1, 2] 7))"
  using service_refines_spec [OF env_ok_concrete] by blast

text \<open>Whatever a repository returns, also one that breaks its contract, the error of every
  method of the service is a domain error.\<close>

lemma service_domain_errors:
  "domain_only (svc_CreateDocument repo E u n s) \<and> domain_only (svc_GetDocument repo E i) \<and>
   domain_only (svc_UpdateDocument repo E i n s) \<and> domain_only (svc_DeleteDocument repo E i) \<and>
   domain_only (svc_DeleteDocuments repo E ids u) \<and>
   domain_only (svc_ListDocumentsByPrincipal repo E u ls cur k) \<and>
   domain_only (svc_GetPermissionOfPrincipalOnDocument repo E i u) \<and>
   domain_only (svc_ListPermissionsOnDocument repo E i ls cur k) \<and>
   domain_only (svc_CreateGuest repo E u i l) \<and> domain_only (svc_UpsertPermissionUser repo E u i l) \<and>
   domain_only (svc_UpdatePermissionGuest repo E g l) \<and> domain_only (svc_DeletePermissionPrincipal repo E u i)"
  unfolding svc_CreateDocument_def svc_GetDocument_def svc_UpdateDocument_def svc_DeleteDocument_def
    svc_DeleteDocuments_def svc_ListDocumentsByPrincipal_def svc_GetPermissionOfPrincipalOnDocument_def
    svc_ListPermissionsOnDocument_def svc_CreateGuest_def svc_UpsertPermissionUser_def
    svc_UpdatePermissionGuest_def svc_DeletePermissionPrincipal_def
  by (intro conjI domain_only_guard domain_only_wrapped) simp_all

lemma default_size_range: "1 \<le> sint (default_size k)" "sint (default_size k) \<le> 100"
  by (auto simp: default_size_def DefaultPageSize_def MaxPageSize_def)

lemma default_levels_valid: "set ls \<subseteq> set AllPermissions \<Longrightarrow> valid_levels (default_levels ls)"
  by (auto simp: default_levels_def valid_levels_def AllPermissions_def Suc_le_eq)

lemma default_size_value: "nat (sint (default_size k)) = (if 1 \<le> sint k \<and> sint k \<le> 100 then nat (sint k) else 10)"
  by (auto simp: default_size_def DefaultPageSize_def MaxPageSize_def)

lemma default_cursor_value: "default_cursor E cur = (case cur of Some c \<Rightarrow> c
    | None \<Rightarrow> \<lparr> cur_SortField = Sort_CreatedAt, cur_LastSeenTime = time_Now E, cur_LastSeenID = - 1 \<rparr>)"
  by (simp add: default_cursor_def NewBeginningCursor_def MaxDocumentID_eq split: option.split)

lemma default_levels_value: "default_levels ls = (if ls = [] then [Viewer, Editor, Owner] else ls)"
  by (simp add: default_levels_def AllPermissions_def Suc_le_eq)

text \<open>C28: whatever page size, cursor and filter a caller sends, a page of documents has at most
  100 entries and reading it changes nothing. The size asked for counts from 1 to 100 and is 10
  otherwise; no cursor means the newest document first; no filter means every level. With a
  known sort field the page is the first documents below the cursor, in descending order, of
  those the principal may see; with an unknown one it is empty and the cursor comes back as it
  was.\<close>

theorem service_page_bounded:
  assumes "env_ok E" "db_ok (tables c)" "snapshot c = None"
    and "run_state (svc_ListDocumentsByPrincipal pg_repository E u ls cur k) c = (Inr (xs, cur'), c')"
    and "start = (case cur of Some x \<Rightarrow> x
      | None \<Rightarrow> \<lparr> cur_SortField = Sort_CreatedAt, cur_LastSeenTime = time_Now E, cur_LastSeenID = - 1 \<rparr>)"
  shows "length xs \<le> 100 \<and> tables c' = tables c \<and>
    (if cur_SortField start \<in> {Sort_CreatedAt, Sort_LastModifiedAt} then
       is_page (document_key (cur_SortField start))
         (visible_documents u (if ls = [] then [Viewer, Editor, Owner] else ls) (store (tables c)))
         (cur_LastSeenTime start, cur_LastSeenID start) (if 1 \<le> sint k \<and> sint k \<le> 100 then nat (sint k) else 10) xs
     else xs = [] \<and> cur' = start)"
proof -
  note D = answersD [OF pg.list_documents [OF assms(1)] assms(4,3,2)]
  have start: "default_cursor E cur = start" by (simp add: assms(5) default_cursor_value)
  from D(3) have "documents_listed u (default_levels ls) (Some start) (default_size k) (store (tables c)) (Inr (xs, cur'))"
    by (simp add: failed_def start)
  then have "if valid_sort start then
      is_page (document_key (cur_SortField start)) (visible_documents u (default_levels ls) (store (tables c)))
        (cursor_key start) (nat (sint (default_size k))) xs
    else xs = [] \<and> cur' = start"
    using default_size_range(1) [of k] by (auto simp: documents_listed_def split: if_splits)
  with D(2) default_size_range(2) [of k] show ?thesis
    unfolding default_size_value default_levels_value valid_sort_def cursor_key_def
    by (auto simp: is_page_def split: if_splits)
qed

theorem service_page_bounded_witness:
  "\<exists>xs cur' c'. run_state (svc_ListDocumentsByPrincipal pg_repository demo_env 7 [] (Some (demo_cursor Sort_CreatedAt)) 0)
     demo_conn = (Inr (xs, cur'), c') \<and> map (doc_ID \<circ> dp_Document) xs = [1] \<and>
     is_page (document_key Sort_CreatedAt) (visible_documents 7 [Viewer, Editor, Owner] (store demo_db)) (1000, - 1) 10 xs"
proof -
  let ?m = "svc_ListDocumentsByPrincipal pg_repository demo_env 7 [] (Some (demo_cursor Sort_CreatedAt)) 0"
  have r: "case fst (run_state ?m demo_conn) of Inr p \<Rightarrow> map (doc_ID \<circ> dp_Document) (fst p) = [1] | Inl _ \<Rightarrow> False"
    by code_simp
  then obtain xs cur' c' where run: "run_state ?m demo_conn = (Inr (xs, cur'), c')"
    by (cases "run_state ?m demo_conn") (auto split: sum.splits)
  have "is_page (document_key Sort_CreatedAt) (visible_documents 7 [Viewer, Editor, Owner] (store demo_db)) (1000, - 1) 10 xs"
    using service_page_bounded [OF demo_ok(2) _ _ run refl]
    by (simp add: demo_conn_def demo_ok demo_cursor_def del: store_simps)
  with run r show ?thesis by auto
qed

end
