(* ===== verification/Doc_Listing.thy ===== *)
theory Doc_Listing
  imports Doc_Pagination Doc_Service
begin

text \<open>
  The document listing of the service (\<^verbatim>\<open>ListDocumentsByPrincipal\<close> of
  \<^verbatim>\<open>document_service.go\<close>) as a keyset listing: the service fills in defaults, so its
  contract asks less of the caller than that of the repository.
\<close>

section \<open>Listing documents through the service\<close>

text \<open>The listing of the service is again a keyset listing, and needs less from its caller: any
  page size and any filter of known levels will do.\<close>

definition valid_service_listing :: "listing \<Rightarrow> bool" where
  "valid_service_listing e \<longleftrightarrow> db_ok (tables (ls_conn e)) \<and> snapshot (ls_conn e) = None \<and>
     faults (ls_conn e) = [] \<and> env_ok (ls_env e) \<and> set (ls_levels e) \<subseteq> set AllPermissions"

definition fetch_service :: "listing \<Rightarrow> Cursor \<Rightarrow> DocumentPermission list \<times> Cursor" where
  "fetch_service e cur =
     (case fst (run_state (svc_ListDocumentsByPrincipal pg_repository (ls_env e) (ls_subject e) (ls_levels e)
        (Some cur) (ls_size e)) (ls_conn e)) of Inr page \<Rightarrow> page | Inl _ \<Rightarrow> ([], cur))"

lemma service_page_run:
  assumes "valid_service_listing e" "valid_sort cur"
  obtains xs c' where "run_state (svc_ListDocumentsByPrincipal pg_repository (ls_env e) (ls_subject e) (ls_levels e)
      (Some cur) (ls_size e)) (ls_conn e) = (Inr (xs, documents_cursor cur xs), c')"
    and "is_page (document_key (cur_SortField cur))
      (visible_documents (ls_subject e) (default_levels (ls_levels e)) (ls_store e))
      (cursor_key cur) (nat (sint (default_size (ls_size e)))) xs"
proof -
  let ?m = "svc_ListDocumentsByPrincipal pg_repository (ls_env e) (ls_subject e) (ls_levels e) (Some cur) (ls_size e)"
  obtain r c' where run: "run_state ?m (ls_conn e) = (r, c')" by fastforce
  have "documents_listed (ls_subject e) (default_levels (ls_levels e)) (Some cur) (default_size (ls_size e)) (ls_store e) r"
    using answersD(3) [OF pg.list_documents run] assms(1)
    by (simp add: valid_service_listing_def default_cursor_def)
  with assms run default_size_range(1) [of "ls_size e"] that show thesis
    by (auto simp: documents_listed_def valid_service_listing_def default_levels_valid)
qed

lemma fetch_service_page:
  assumes "valid_service_listing e" "valid_sort cur"
  shows "is_page (document_key (cur_SortField cur))
      (visible_documents (ls_subject e) (default_levels (ls_levels e)) (ls_store e))
      (cursor_key cur) (nat (sint (default_size (ls_size e)))) (fst (fetch_service e cur))"
    and "snd (fetch_service e cur) = documents_cursor cur (fst (fetch_service e cur))"
proof -
  obtain xs c' where "run_state (svc_ListDocumentsByPrincipal pg_repository (ls_env e) (ls_subject e) (ls_levels e)
      (Some cur) (ls_size e)) (ls_conn e) = (Inr (xs, documents_cursor cur xs), c')"
    and page: "is_page (document_key (cur_SortField cur))
      (visible_documents (ls_subject e) (default_levels (ls_levels e)) (ls_store e))
      (cursor_key cur) (nat (sint (default_size (ls_size e)))) xs"
    by (rule service_page_run [OF assms])
  then have "fetch_service e cur = (xs, documents_cursor cur xs)" by (simp add: fetch_service_def)
  with page show "is_page (document_key (cur_SortField cur))
      (visible_documents (ls_subject e) (default_levels (ls_levels e)) (ls_store e))
      (cursor_key cur) (nat (sint (default_size (ls_size e)))) (fst (fetch_service e cur))"
    and "snd (fetch_service e cur) = documents_cursor cur (fst (fetch_service e cur))"
    by simp_all
qed

interpretation svc_docs: keyset_listing valid_service_listing
  "\<lambda>e. visible_documents (ls_subject e) (default_levels (ls_levels e)) (ls_store e)"
  "document_key Sort_CreatedAt" "\<lambda>e. nat (sint (default_size (ls_size e)))" fetch_service
  "\<lambda>cur. cur_SortField cur = Sort_CreatedAt" cursor_key
proof (unfold_locales, goal_cases)
  case (1 e)
  then show ?case by (simp add: valid_service_listing_def finite_visible default_levels_valid)
next
  case (2 e)
  then show ?case using default_size_range(1) [of "ls_size e"] by simp
next
  case (3 e cur)
  then show ?case using fetch_service_page(1) [of e cur] by (simp add: valid_sort_def)
next
  case (4 e cur)
  then show ?case
    using fetch_service_page(2) [of e cur] by (simp add: valid_sort_def documents_cursor_key)
qed

end
