(* ===== verification/Doc_Lifecycle.thy ===== *)
theory Doc_Lifecycle
  imports Doc_Service
begin

text \<open>
  The document service over time. A step is one state-changing request, with any
  environment and any fault schedule, against the PostgreSQL repository; the reachable
  databases are those any sequence of steps can produce from the empty one. The invariants
  are proved on the abstract store, request by request, and carried to the tables by the
  refinement. The second half states what single requests do as seen by later ones.
\<close>

section \<open>Steps and reachable databases\<close>

inductive doc_step :: "doc_db \<Rightarrow> doc_db \<Rightarrow> bool" where
  request: "env_ok E \<Longrightarrow>
    run_state (svc_request pg_repository E req) \<lparr> tables = d, snapshot = None, faults = fs \<rparr> = (r, c') \<Longrightarrow>
    doc_step d (tables c')"

inductive doc_reachable :: "doc_db \<Rightarrow> bool" where
  empty: "doc_reachable empty_doc_db"
| step: "doc_reachable d \<Longrightarrow> doc_step d d' \<Longrightarrow> doc_reachable d'"

text \<open>A history is the list of the requests served so far, the latest first, each with the
  database it left. It tells who created a document: the user whose creation request brought
  the document that is there now into existence, and nobody when another request did. The rows
  have no such column that later requests leave alone: granting a permission overwrites
  \<open>created_by\<close>.\<close>

inductive doc_history :: "(doc_request \<times> doc_db) list \<Rightarrow> doc_db \<Rightarrow> bool" where
  start: "doc_history [] empty_doc_db"
| served: "doc_history h d \<Longrightarrow> env_ok E \<Longrightarrow>
    run_state (svc_request pg_repository E req) \<lparr> tables = d, snapshot = None, faults = fs \<rparr> = (r, c') \<Longrightarrow>
    doc_history ((req, tables c') # h) (tables c')"

fun latest :: "(doc_request \<times> doc_db) list \<Rightarrow> doc_db" where
  "latest [] = empty_doc_db"
| "latest ((req, d) # h) = d"

fun creator :: "(doc_request \<times> doc_db) list \<Rightarrow> uuid \<Rightarrow> uuid option" where
  "creator [] i = None"
| "creator ((req, d) # h) i =
     (if st_documents (store d) i = None then None
      else if st_documents (store (latest h)) i \<noteq> None then creator h i
      else case req of Req_CreateDocument u n t \<Rightarrow> Some u | _ \<Rightarrow> None)"

lemma history_latest: "doc_history h d \<Longrightarrow> latest h = d"
  by (induction rule: doc_history.induct) simp_all

lemma history_reachable: "doc_history h d \<Longrightarrow> doc_reachable d"
  by (induction rule: doc_history.induct) (blast intro: doc_reachable.intros doc_step.intros)+

lemma reachable_history: "doc_reachable d \<Longrightarrow> \<exists>h. doc_history h d"
  by (induction rule: doc_reachable.induct) (blast elim: doc_step.cases intro: doc_history.intros)+

text \<open>Sample states: user 7 creates document 42, makes guest 43 an editor.\<close>

definition demo_request :: "uuid \<Rightarrow> doc_request \<Rightarrow> doc_db \<Rightarrow> doc_db" where
  "demo_request new req d = tables (snd (run_state (svc_request pg_repository (concrete_env new 1000) req)
     \<lparr> tables = d, snapshot = None, faults = [] \<rparr>))"

definition demo_created :: doc_db where
  "demo_created = demo_request 42 (Req_CreateDocument 7 (Some ''notes'') None) empty_doc_db"

definition demo_shared :: doc_db where
  "demo_shared = demo_request 43 (Req_CreateGuest 7 42 Editor) demo_created"

lemma demo_request_step: "doc_step d (demo_request new req d)"
  unfolding demo_request_def by (rule doc_step.request [OF env_ok_concrete, where fs = "[]"]) (rule prod.collapse [symmetric])

lemma demo_reachable: "doc_reachable demo_created" "doc_reachable demo_shared"
proof -
  show c: "doc_reachable demo_created"
    unfolding demo_created_def by (rule doc_reachable.step [OF doc_reachable.empty demo_request_step])
  show "doc_reachable demo_shared"
    unfolding demo_shared_def by (rule doc_reachable.step [OF c demo_request_step])
qed

definition demo_history :: "(doc_request \<times> doc_db) list" where
  "demo_history = [(Req_CreateGuest 7 42 Editor, demo_shared),
     (Req_CreateDocument 7 (Some ''notes'') None, demo_created)]"

lemma demo_request_history: "doc_history h d \<Longrightarrow> doc_history ((req, demo_request new req d) # h) (demo_request new req d)"
  unfolding demo_request_def
  by (rule doc_history.served [OF _ env_ok_concrete, where fs = "[]"]) (assumption, rule prod.collapse [symmetric])

lemma demo_history: "doc_history demo_history demo_shared"
  unfolding demo_history_def demo_shared_def demo_created_def
  by (intro demo_request_history doc_history.start)

section \<open>Invariants of the store\<close>

text \<open>A document has at most one owner; the owner is a user and the row names him as its
  own author; a guest's permission is on the document the guest was made for.\<close>

definition access_ok :: "doc_store \<Rightarrow> bool" where
  "access_ok s \<longleftrightarrow>
     (\<forall>i u u' p p'. st_permissions s (u, i) = Some p \<longrightarrow> st_permissions s (u', i) = Some p' \<longrightarrow>
        perm_PermissionLevel p = Owner \<longrightarrow> perm_PermissionLevel p' = Owner \<longrightarrow> u = u') \<and>
     (\<forall>u i p. st_permissions s (u, i) = Some p \<longrightarrow> perm_PermissionLevel p = Owner \<longrightarrow>
        perm_RecipientType p = Recipient_User \<and> perm_CreatedBy p = u) \<and>
     (\<forall>u i p. st_permissions s (u, i) = Some p \<longrightarrow> perm_RecipientType p = Recipient_Guest \<longrightarrow>
        (\<exists>g. st_guests s u = Some g \<and> g_document_id g = i))"

definition owns :: "doc_store \<Rightarrow> uuid \<Rightarrow> uuid \<Rightarrow> bool" where
  "owns s u i \<longleftrightarrow> (\<exists>p. st_permissions s (u, i) = Some p \<and> perm_PermissionLevel p = Owner)"

text \<open>What the foreign keys give: a permission or guest belongs to a document.\<close>

definition refs_ok :: "doc_store \<Rightarrow> bool" where
  "refs_ok s \<longleftrightarrow>
     (\<forall>u i p. st_permissions s (u, i) = Some p \<longrightarrow> st_documents s i \<noteq> None) \<and>
     (\<forall>g r. st_guests s g = Some r \<longrightarrow> st_documents s (g_document_id r) \<noteq> None)"

lemma refs_ok_store: "db_ok d \<Longrightarrow> refs_ok (store d)"
proof -
  assume ok: "db_ok d"
  have "has_document i d" if "perms_map (permissions d) (u, i) = Some p" for u i p
    using that perms_map_None [of d u i] has_permission_document [OF ok] by fastforce
  moreover have "has_document (g_document_id r) d" if "guests_map (guests d) g = Some r" for g r
    using that ok by (auto simp: guests_map_find find_Some_iff db_ok_def)
  ultimately show ?thesis
    unfolding refs_ok_def store_simps by (auto simp: docs_map_None)
qed

lemma single_owner: "access_ok s \<Longrightarrow> owns s u i \<Longrightarrow> owns s v i \<Longrightarrow> v = u"
  unfolding access_ok_def owns_def by blast

named_theorems access_intros \<open>requests that keep \<open>access_ok\<close>\<close>

lemma access_CreateDocument [access_intros]:
  assumes "access_ok s" "refs_ok s"
  shows "access_ok (snd (spec_CreateDocument E u n t s))"
proof (cases "st_documents s (uuid_New E)")
  case None
  with assms(2) have fresh: "st_permissions s (v, uuid_New E) = None" for v
    unfolding refs_ok_def by (metis not_None_eq)
  show ?thesis
    using assms(1) None fresh
    by (auto simp: access_ok_def spec_CreateDocument_def Let_def split: if_splits)
qed (use assms in \<open>simp add: spec_CreateDocument_def Let_def\<close>)

text \<open>Permissions may go away as long as those that stay keep their guest.\<close>

lemma access_mono:
  assumes ok: "access_ok s" and sub: "\<And>k p. st_permissions s' k = Some p \<Longrightarrow> st_permissions s k = Some p"
    and guests: "\<And>u i p g. st_permissions s' (u, i) = Some p \<Longrightarrow> st_guests s u = Some g \<Longrightarrow>
      g_document_id g = i \<Longrightarrow> st_guests s' u = Some g"
  shows "access_ok s'"
  unfolding access_ok_def
proof (intro conjI allI impI)
  fix i u u' p p'
  assume "st_permissions s' (u, i) = Some p" "st_permissions s' (u', i) = Some p'"
    "perm_PermissionLevel p = Owner" "perm_PermissionLevel p' = Owner"
  with ok sub show "u = u'" unfolding access_ok_def by blast
next
  fix u i p
  assume p: "st_permissions s' (u, i) = Some p"
  show "perm_RecipientType p = Recipient_User" "perm_CreatedBy p = u" if "perm_PermissionLevel p = Owner"
    using ok sub [OF p] that unfolding access_ok_def by blast+
  show "\<exists>g. st_guests s' u = Some g \<and> g_document_id g = i" if "perm_RecipientType p = Recipient_Guest"
    using ok sub [OF p] guests [OF p] that unfolding access_ok_def by blast
qed

lemma access_UpdateDocument [access_intros]:
  "access_ok s \<Longrightarrow> access_ok (snd (spec_UpdateDocument i n t s))"
  by (erule access_mono) (auto simp: spec_UpdateDocument_def split: option.splits if_splits)

lemma access_delete_document: "access_ok s \<Longrightarrow> access_ok (delete_document i s)"
  by (erule access_mono) (auto simp: delete_document_def keep_values_def split: if_splits)

lemma access_DeleteDocument [access_intros]:
  "access_ok s \<Longrightarrow> access_ok (snd (spec_DeleteDocument i s))"
  by (simp add: spec_DeleteDocument_def access_delete_document)

lemma access_DeleteDocuments [access_intros]:
  assumes "access_ok s" shows "access_ok (snd (spec_DeleteDocuments ids s))"
proof -
  have "access_ok (fold delete_document ids s)"
    using assms by (induction ids arbitrary: s) (simp_all add: access_delete_document)
  with assms show ?thesis by (simp add: spec_DeleteDocuments_def)
qed

lemma access_CreateGuest [access_intros]:
  "access_ok s \<Longrightarrow> access_ok (snd (no_owner_grant l (spec_CreateGuest E u i l) s))"
  by (auto simp: access_ok_def spec_CreateGuest_def no_owner_grant_def Let_def) fastforce

lemma access_UpsertPermissionUser [access_intros]:
  "access_ok s \<Longrightarrow> access_ok (snd (no_owner_grant l (spec_UpsertPermissionUser E u i l) s))"
  by (auto simp: access_ok_def spec_UpsertPermissionUser_def no_owner_grant_def Let_def split: option.splits)

lemma access_UpdatePermissionGuest [access_intros]:
  "access_ok s \<Longrightarrow> access_ok (snd (no_owner_grant l (spec_UpdatePermissionGuest E g l) s))"
  by (auto simp: access_ok_def spec_UpdatePermissionGuest_def no_owner_grant_def Let_def split: option.splits)

lemma access_DeletePermissionsPrincipal [access_intros]:
  "access_ok s \<Longrightarrow> access_ok (snd (spec_DeletePermissionsPrincipal u i s))"
  by (erule access_mono) (auto simp: spec_DeletePermissionsPrincipal_def split: if_splits)

lemma access_request: "access_ok s \<Longrightarrow> refs_ok s \<Longrightarrow> access_ok (snd (spec_request E req s))"
  by (cases req) (simp_all add: map_spec_def access_intros)

text \<open>Where an owner comes from: the owner after a request was the owner before it, or has just
  created the document.\<close>

lemma owns_mono: "owns s' u i \<Longrightarrow> (\<And>p. st_permissions s' (u, i) = Some p \<Longrightarrow> perm_PermissionLevel p = Owner \<Longrightarrow>
    st_permissions s (u, i) = Some p) \<Longrightarrow> owns s u i"
  unfolding owns_def by blast

lemma owns_delete_document: "owns (delete_document i s) u j \<Longrightarrow> owns s u j"
  by (erule owns_mono) (simp add: delete_document_def split: if_splits)

lemma owns_fold_delete: "owns (fold delete_document ids s) u j \<Longrightarrow> owns s u j"
  by (induction ids arbitrary: s) (auto dest: owns_delete_document)

lemma owner_origin:
  assumes "owns (snd (spec_request E req s)) u i"
  shows "owns s u i \<or> (\<exists>n t. req = Req_CreateDocument u n t) \<and> st_documents s i = None"
proof (cases req)
  case (Req_CreateDocument v n t)
  with assms show ?thesis
    by (auto simp: map_spec_def spec_CreateDocument_def owns_def Let_def split: if_splits)
next
  case (Req_DeleteDocument j)
  with assms show ?thesis
    by (auto simp: map_spec_def spec_DeleteDocument_def dest: owns_delete_document split: if_splits)
next
  case (Req_DeleteDocuments ids v)
  with assms show ?thesis
    by (auto simp: map_spec_def spec_DeleteDocuments_def dest: owns_fold_delete split: if_splits)
qed (use assms in \<open>auto simp: map_spec_def owns_def spec_UpdateDocument_def spec_CreateGuest_def
    spec_UpsertPermissionUser_def spec_UpdatePermissionGuest_def spec_DeletePermissionsPrincipal_def
    no_owner_grant_def Let_def split: option.splits if_splits\<close>)

section \<open>Invariants of the tables\<close>

lemma request_store:
  assumes "env_ok E" "db_ok d"
    and "run_state (svc_request pg_repository E req) \<lparr> tables = d, snapshot = None, faults = fs \<rparr> = (r, c')"
  shows "db_ok (tables c') \<and>
    (store (tables c') = store d \<or> store (tables c') = snd (spec_request E req (store d)))"
proof -
  note D = refinesD [OF pg.request [OF assms(1)] assms(3)]
  have "store (tables c') = store d \<or> store (tables c') = snd (spec_request E req (store d))"
    using D(3) assms(2) by (auto simp: meets_def dest: arg_cong [where f = snd])
  with D(2) assms(2) show ?thesis by simp
qed

lemma doc_step_store:
  assumes "doc_step d d'" "db_ok d"
  obtains E req where "env_ok E" "db_ok d'"
    "store d' = store d \<or> store d' = snd (spec_request E req (store d))"
  using assms by cases (metis request_store)

lemma reachable_inv: "doc_reachable d \<Longrightarrow> db_ok d \<and> access_ok (store d)"
proof (induction rule: doc_reachable.induct)
  case empty
  show ?case
    by (simp add: db_ok_empty access_ok_def) (simp add: empty_doc_db_def perms_map_def)
next
  case (step d d')
  then show ?case
    by (elim doc_step_store) (auto simp: refs_ok_store access_request)
qed

section \<open>Properties of every history\<close>

text \<open>The owner of a document is the user who created it.\<close>

lemma history_inv:
  assumes "doc_history h d" shows "owns (store d) u i \<Longrightarrow> creator h i = Some u"
  using assms
proof (induction arbitrary: u i rule: doc_history.induct)
  case start
  then show ?case by (simp add: owns_def) (simp add: empty_doc_db_def perms_map_def)
next
  case (served h d E req fs r c')
  have ok: "db_ok d" using reachable_inv [OF history_reachable [OF served(1)]] ..
  note R = request_store [OF served(2) ok served(3)]
  have doc: "st_documents (store d') i \<noteq> None" if "owns (store d') u i" "db_ok d'" for d'
    using that refs_ok_store [of d'] unfolding owns_def refs_ok_def by blast
  have "owns (store d) u i \<or> (\<exists>n t. req = Req_CreateDocument u n t) \<and> st_documents (store d) i = None"
    using R served.prems owner_origin by metis
  then show ?case
    using R served.IH doc [OF served.prems] doc [OF _ ok] history_latest [OF served(1)]
    by (auto simp del: store_simps)
qed

text \<open>C2: in every reachable database, whatever requests and faults led there, a document has at
  most one owner, and the owner is a user, never a guest: the user whose creation request
  brought the document into existence.\<close>

theorem reachable_single_owner:
  assumes "doc_history h d" "st_permissions (store d) (u, i) = Some p" "perm_PermissionLevel p = Owner"
  shows "creator h i = Some u \<and> perm_RecipientType p = Recipient_User \<and> perm_CreatedBy p = u \<and>
    (\<forall>u' p'. st_permissions (store d) (u', i) = Some p' \<and> perm_PermissionLevel p' = Owner \<longrightarrow> u' = u)"
proof -
  have "owns (store d) u i" using assms(2,3) unfolding owns_def by blast
  with history_inv [OF assms(1)] have "creator h i = Some u" .
  with reachable_inv [OF history_reachable [OF assms(1)]] assms(2,3) show ?thesis
    unfolding access_ok_def by blast
qed

theorem reachable_single_owner_witness:
  "\<exists>p. st_permissions (store demo_shared) (7, 42) = Some p \<and> perm_PermissionLevel p = Owner \<and>
     creator demo_history 42 = Some 7 \<and> perm_RecipientType p = Recipient_User"
proof -
  have "map_option perm_PermissionLevel (st_permissions (store demo_shared) (7, 42)) = Some Owner"
    by code_simp
  then obtain p where p: "st_permissions (store demo_shared) (7, 42) = Some p" "perm_PermissionLevel p = Owner"
    by auto
  with reachable_single_owner [OF demo_history p] show ?thesis by blast
qed

text \<open>C21: in every reachable database the permission of a guest is on the one document the guest
  was created for.\<close>

theorem reachable_guest_scope:
  assumes "doc_reachable d" "st_permissions (store d) (g, i) = Some p" "perm_RecipientType p = Recipient_Guest"
  shows "\<exists>r. st_guests (store d) g = Some r \<and> g_document_id r = i"
  using reachable_inv [OF assms(1)] assms(2,3) unfolding access_ok_def by blast

theorem reachable_guest_scope_witness:
  "\<exists>r. st_guests (store demo_shared) 43 = Some r \<and> g_document_id r = 42"
proof -
  have "map_option perm_RecipientType (st_permissions (store demo_shared) (43, 42)) = Some Recipient_Guest"
    by code_simp
  then obtain p where p: "st_permissions (store demo_shared) (43, 42) = Some p" "perm_RecipientType p = Recipient_Guest"
    by auto
  show ?thesis by (rule reachable_guest_scope [OF demo_reachable(2) p])
qed

section \<open>What later requests see\<close>

text \<open>A request that succeeded has had exactly its specified effect.\<close>

lemma request_success:
  assumes "refines m spec" "run_state m c = (Inr x, c')" "snapshot c = None" "db_ok (tables c)"
  shows "spec (store (tables c)) = (Inr x, store (tables c'))" "snapshot c' = None" "db_ok (tables c')"
  using refinesD [OF assms] by (auto simp: meets_def failed_def)

text \<open>A request on a connection without faults answers as specified.\<close>

lemma request_healthy:
  assumes "refines m spec" "snapshot c = None" "db_ok (tables c)" "faults c = []"
  shows "fst (run_state m c) = fst (spec (store (tables c)))"
    "store (tables (snd (run_state m c))) = snd (spec (store (tables c)))"
proof -
  obtain r c' where run: "run_state m c = (r, c')" by fastforce
  from refinesD(3) [OF assms(1) run assms(2,3)] assms(4)
  have "(r, store (tables c')) = spec (store (tables c))" by (simp add: meets_def)
  with run show "fst (run_state m c) = fst (spec (store (tables c)))"
    "store (tables (snd (run_state m c))) = snd (spec (store (tables c)))"
    by (metis fst_conv snd_conv)+
qed

lemma svc_CreateDocument_refines:
  "env_ok E \<Longrightarrow> refines (svc_CreateDocument pg_repository E u n s) (spec_CreateDocument E u n s)"
  unfolding svc_CreateDocument_def by (intro refines_wrapped pg.contract domain_specs)

lemma svc_DeleteDocument_refines:
  "env_ok E \<Longrightarrow> refines (svc_DeleteDocument pg_repository E i) (spec_DeleteDocument i)"
  unfolding svc_DeleteDocument_def by (intro refines_wrapped pg.contract domain_specs)

lemma svc_DeleteDocuments_refines:
  "env_ok E \<Longrightarrow> refines (svc_DeleteDocuments pg_repository E ids u) (spec_DeleteDocuments ids)"
  unfolding svc_DeleteDocuments_def by (intro refines_wrapped pg.contract domain_specs)

lemma spec_failure_unchanged: "spec_request E req s = (Inl e, s') \<Longrightarrow> s' = s"
  by (cases req)
    (auto simp: map_spec_def no_owner_grant_def spec_CreateDocument_def spec_UpdateDocument_def spec_DeleteDocument_def
      spec_DeleteDocuments_def spec_CreateGuest_def spec_UpsertPermissionUser_def spec_UpdatePermissionGuest_def
      spec_DeletePermissionsPrincipal_def Let_def split: if_splits option.splits)



text \<open>A document whose creation was confirmed is found by the next read with the name and
  description it was given, and its creator is its owner.\<close>

lemma create_visible:
  assumes "env_ok E" "env_ok E'" "snapshot c = None" "db_ok (tables c)"
    and run: "run_state (svc_CreateDocument pg_repository E u n t) c = (Inr i, c')" and "faults c' = []"
  shows "i = uuid_New E \<and>
    fst (run_state (svc_GetDocument pg_repository E' i) c') = Inr \<lparr> doc_ID = i, doc_Name = n,
      doc_Description = t, doc_CreatedAt = db_NOW E, doc_LastModifiedAt = db_NOW E \<rparr> \<and>
    fst (run_state (svc_GetPermissionOfPrincipalOnDocument pg_repository E' i u) c') = Inr \<lparr> perm_RecipientID = u,
      perm_RecipientType = Recipient_User, perm_DocumentID = i, perm_PermissionLevel = Owner, perm_CreatedBy = u,
      perm_CreatedAt = db_NOW E, perm_LastModifiedAt = db_NOW E \<rparr>"
proof -
  note C = request_success [OF svc_CreateDocument_refines [OF assms(1)] run assms(3,4)]
  from C(1) have i: "i = uuid_New E"
    and s: "store (tables c') = snd (spec_CreateDocument E u n t (store (tables c)))"
    and new: "st_documents (store (tables c)) i = None"
    by (auto simp: spec_CreateDocument_def Let_def simp del: store_simps split: if_splits)
  note G = request_healthy(1) [OF pg.get_document [OF assms(2)] C(2,3) assms(6)]
    request_healthy(1) [OF pg.get_permission [OF assms(2)] C(2,3) assms(6)]
  show ?thesis
    using i new unfolding G s
    by (simp add: spec_CreateDocument_def Let_def spec_GetDocument_def spec_GetPermission_def as_listed_def
        del: store_simps)
qed

text \<open>C27: after a confirmed deletion nothing of the document is left: no document, no guest and no
  permission of anyone refers to it, while every other document keeps its row and its
  permissions.\<close>

theorem delete_document_complete:
  assumes "env_ok E" "snapshot c = None" "db_ok (tables c)"
    and run: "run_state (svc_DeleteDocument pg_repository E i) c = (Inr (), c')"
  shows "st_documents (store (tables c')) i = None \<and>
    (\<forall>u. st_permissions (store (tables c')) (u, i) = None) \<and>
    (\<forall>g r. st_guests (store (tables c')) g = Some r \<longrightarrow> g_document_id r \<noteq> i) \<and>
    (\<forall>u j. j \<noteq> i \<longrightarrow> st_documents (store (tables c')) j = st_documents (store (tables c)) j \<and>
       st_permissions (store (tables c')) (u, j) = st_permissions (store (tables c)) (u, j))"
proof -
  note D = request_success [OF svc_DeleteDocument_refines [OF assms(1)] run assms(2,3)]
  then have "store (tables c') = delete_document i (store (tables c))"
    by (auto simp: spec_DeleteDocument_def simp del: store_simps split: if_splits)
  then show ?thesis
    by (auto simp: delete_document_def keep_values_def simp del: store_simps split: option.splits if_splits)
qed

theorem delete_document_complete_witness:
  "\<exists>c'. run_state (svc_DeleteDocument pg_repository demo_env 1) demo_conn = (Inr (), c') \<and>
     st_documents (store (tables c')) 1 = None \<and> st_permissions (store (tables c')) (8, 1) = None"
proof -
  let ?r = "run_state (svc_DeleteDocument pg_repository demo_env 1) demo_conn"
  have "fst ?r = Inr ()" by code_simp
  then obtain c' where run: "?r = (Inr (), c')" by (cases ?r) auto
  with delete_document_complete [OF demo_ok(2) _ _ run] show ?thesis
    by (auto simp: demo_conn_def demo_ok)
qed

lemma fold_delete_gone: "i \<in> set ids \<or> st_documents s i = None \<Longrightarrow> st_documents (fold delete_document ids s) i = None"
  by (induction ids arbitrary: s) (auto simp: delete_document_def)

text \<open>C15: a batch deletion is all or nothing under every fault schedule: afterwards either nothing
  has changed or all the documents are gone; success means they are gone.\<close>

theorem delete_documents_all_or_nothing:
  assumes "env_ok E" "snapshot c = None" "db_ok (tables c)"
    and run: "run_state (svc_DeleteDocuments pg_repository E ids u) c = (r, c')"
  shows "(store (tables c') = store (tables c) \<and> r \<noteq> Inr ()) \<or>
    (\<forall>i. i \<in> set ids \<longrightarrow> st_documents (store (tables c')) i = None)"
proof -
  note D = refinesD(3) [OF svc_DeleteDocuments_refines [OF assms(1)] run assms(2,3)]
  consider "store (tables c') = store (tables c)" "r \<noteq> Inr ()"
    | "store (tables c') = fold delete_document ids (store (tables c))"
    using D by (auto simp: meets_def spec_DeleteDocuments_def failed_def simp del: store_simps split: if_splits)
  then show ?thesis by cases (auto simp: fold_delete_gone simp del: store_simps)
qed

theorem delete_documents_all_or_nothing_witness:
  "store (tables (snd (run_state (svc_DeleteDocuments pg_repository demo_env [1, 2] 7) demo_conn))) = store demo_db \<and>
   fst (run_state (svc_DeleteDocuments pg_repository demo_env [1, 2] 7) demo_conn) = Inl (NotFound None)"
proof -
  let ?r = "run_state (svc_DeleteDocuments pg_repository demo_env [1, 2] 7) demo_conn"
  have r: "fst ?r = Inl (NotFound None)" by code_simp
  have "st_documents (store (tables (snd ?r))) 1 \<noteq> None" by code_simp
  then have "\<not> (\<forall>i. i \<in> set [1, 2] \<longrightarrow> st_documents (store (tables (snd ?r))) i = None)"
    by auto
  with delete_documents_all_or_nothing [OF demo_ok(2) _ _ prod.collapse [symmetric], of demo_conn "[1, 2]" 7] r
  show ?thesis by (auto simp: demo_conn_def demo_ok)
qed

section \<open>Batches, single deletions and retries\<close>

text \<open>A request of its own, on a connection without faults.\<close>

definition healthy_request :: "'a doc_op \<Rightarrow> doc_db \<Rightarrow> (doc_err + 'a) \<times> doc_db" where
  "healthy_request m d = (case run_state m \<lparr> tables = d, snapshot = None, faults = [] \<rparr> of (r, c) \<Rightarrow> (r, tables c))"

text \<open>A client that deletes documents one request at a time and stops at the first failure.\<close>

fun delete_each :: "env \<Rightarrow> uuid list \<Rightarrow> doc_db \<Rightarrow> (doc_err + unit) \<times> doc_db" where
  "delete_each E [] d = (Inr (), d)"
| "delete_each E (i # ids) d = (case healthy_request (svc_DeleteDocument pg_repository E i) d of
     (Inl e, d') \<Rightarrow> (Inl e, d') | (Inr _, d') \<Rightarrow> delete_each E ids d')"

lemma healthy_request_spec:
  assumes "refines m spec" "db_ok d"
  shows "fst (healthy_request m d) = fst (spec (store d))" "store (snd (healthy_request m d)) = snd (spec (store d))"
    "db_ok (snd (healthy_request m d))"
proof -
  let ?c = "\<lparr> tables = d, snapshot = None, faults = [] \<rparr>"
  obtain r c' where run: "run_state m ?c = (r, c')" by fastforce
  have ok: "snapshot ?c = None" "db_ok (tables ?c)" "faults ?c = []" using assms(2) by simp_all
  show "fst (healthy_request m d) = fst (spec (store d))" "store (snd (healthy_request m d)) = snd (spec (store d))"
    using request_healthy [OF assms(1) ok] run by (simp_all add: healthy_request_def del: store_simps)
  show "db_ok (snd (healthy_request m d))"
    using refinesD(2) [OF assms(1) run ok(1,2)] run by (simp add: healthy_request_def)
qed

lemma st_documents_delete [simp]: "st_documents (delete_document i s) j = (if j = i then None else st_documents s j)"
  by (simp add: delete_document_def)

lemma delete_each_spec:
  assumes "env_ok E" "db_ok d"
  shows "fst (delete_each E ids d) = (if distinct ids \<and> (\<forall>i \<in> set ids. st_documents (store d) i \<noteq> None)
      then Inr () else Inl (NotFound None))"
    and "fst (delete_each E ids d) = Inr () \<Longrightarrow> store (snd (delete_each E ids d)) = fold delete_document ids (store d)"
proof -
  have "fst (delete_each E ids d) = (if distinct ids \<and> (\<forall>i \<in> set ids. st_documents (store d) i \<noteq> None)
      then Inr () else Inl (NotFound None)) \<and>
    (fst (delete_each E ids d) = Inr () \<longrightarrow> store (snd (delete_each E ids d)) = fold delete_document ids (store d))"
    using assms(2)
  proof (induction ids arbitrary: d)
    case (Cons i ids)
    note H = healthy_request_spec [OF svc_DeleteDocument_refines [OF assms(1)] Cons.prems, of i]
    obtain r d' where run: "healthy_request (svc_DeleteDocument pg_repository E i) d = (r, d')" by fastforce
    show ?case
    proof (cases "st_documents (store d) i = None")
      case True
      with H(1) run show ?thesis by (simp add: spec_DeleteDocument_def del: store_simps)
    next
      case False
      with H run have d': "r = Inr ()" "store d' = delete_document i (store d)" "db_ok d'"
        by (simp_all add: spec_DeleteDocument_def del: store_simps)
      with Cons.IH [OF d'(3)] run False show ?thesis
        by (auto simp del: store_simps)
    qed
  qed (simp del: store_simps)
  then show "fst (delete_each E ids d) = (if distinct ids \<and> (\<forall>i \<in> set ids. st_documents (store d) i \<noteq> None)
      then Inr () else Inl (NotFound None))"
    and "fst (delete_each E ids d) = Inr () \<Longrightarrow> store (snd (delete_each E ids d)) = fold delete_document ids (store d)"
    by blast+
qed

text \<open>C17: a batch deletion is equivalent to deleting its documents one request at a time: without
  faults the two give the same answer for every non-empty list, and when they succeed they
  leave the same store.\<close>

theorem batch_equals_one_by_one:
  assumes "env_ok E" "db_ok d" "ids \<noteq> []"
  shows "fst (healthy_request (svc_DeleteDocuments pg_repository E ids u) d) = fst (delete_each E ids d) \<and>
    (fst (delete_each E ids d) = Inr () \<longrightarrow>
     store (snd (healthy_request (svc_DeleteDocuments pg_repository E ids u) d)) = store (snd (delete_each E ids d)))"
  using healthy_request_spec [OF svc_DeleteDocuments_refines [OF assms(1)] assms(2), of ids u]
    delete_each_spec [OF assms(1,2), of ids] assms(3)
  by (auto simp: spec_DeleteDocuments_def simp del: store_simps split: if_splits)

theorem batch_equals_one_by_one_witness:
  "fst (healthy_request (svc_DeleteDocuments pg_repository demo_env [1] 7) demo_db) = Inr () \<and>
   store (snd (healthy_request (svc_DeleteDocuments pg_repository demo_env [1] 7) demo_db)) =
     store (snd (delete_each demo_env [1] demo_db))"
proof -
  have "fst (delete_each demo_env [1] demo_db) = Inr ()" by code_simp
  with batch_equals_one_by_one [OF demo_ok(2,1), of "[1]" 7] show ?thesis
    by (simp del: delete_each.simps store_simps)
qed

text \<open>C16: retrying a batch deletion of distinct documents that exist gets it done. Whatever faults the first attempt met, and whether
  or not it took effect, after a second attempt without faults the documents are gone; the
  second attempt answers not found exactly when the first had already deleted them.\<close>

theorem delete_retry_completes:
  assumes "env_ok E" "snapshot c = None" "db_ok (tables c)"
    and "ids \<noteq> []" "distinct ids" "\<forall>i \<in> set ids. st_documents (store (tables c)) i \<noteq> None"
    and first: "run_state (svc_DeleteDocuments pg_repository E ids u) c = (r, c')"
    and second: "healthy_request (svc_DeleteDocuments pg_repository E ids u) (tables c') = (r', d)"
  shows "(\<forall>i \<in> set ids. st_documents (store d) i = None) \<and>
    r' = (if store (tables c') = store (tables c) then Inr () else Inl (NotFound None))"
proof -
  note D = refinesD [OF svc_DeleteDocuments_refines [OF assms(1)] first assms(2,3)]
  let ?s = "store (tables c)"
  have spec: "spec_DeleteDocuments ids ?s = (Inr (), fold delete_document ids ?s)"
    using assms(4-6) by (simp add: spec_DeleteDocuments_def del: store_simps)
  have gone: "st_documents (fold delete_document ids ?s) i = None" if "i \<in> set ids" for i
    using that by (simp add: fold_delete_gone del: store_simps)
  note S = healthy_request_spec [OF svc_DeleteDocuments_refines [OF assms(1)] D(2), of ids u]
  have "store (tables c') = ?s \<or> store (tables c') = fold delete_document ids ?s"
    using D(3) spec by (auto simp: meets_def simp del: store_simps)
  then consider "store (tables c') = ?s" | "store (tables c') = fold delete_document ids ?s" "store (tables c') \<noteq> ?s"
    by blast
  then show ?thesis
  proof cases
    case 1
    with S second spec gone show ?thesis by (simp del: store_simps)
  next
    case 2
    from assms(4) have "hd ids \<in> set ids" by simp
    with gone 2 have "spec_DeleteDocuments ids (store (tables c')) = (Inl (NotFound None), store (tables c'))"
      using assms(4) by (auto simp: spec_DeleteDocuments_def simp del: store_simps)
    with S second gone 2 show ?thesis by (simp del: store_simps)
  qed
qed

theorem delete_retry_completes_witness:
  "st_documents (store (snd (healthy_request (svc_DeleteDocuments pg_repository demo_env [1] 7)
     (tables (snd (run_state (svc_DeleteDocuments pg_repository demo_env [1] 7)
       (demo_conn\<lparr>faults := [Healthy, Refused ConnectionLost]\<rparr>))))))) 1 = None"
proof -
  let ?c = "demo_conn\<lparr>faults := [Healthy, Refused ConnectionLost]\<rparr>"
  have "st_documents (store demo_db) 1 \<noteq> None" by code_simp
  then have doc: "\<forall>i \<in> set [1]. st_documents (store (tables ?c)) i \<noteq> None"
    by (simp add: demo_conn_def del: store_simps)
  have "snapshot ?c = None" "db_ok (tables ?c)" by (simp_all add: demo_conn_def demo_ok)
  from delete_retry_completes [OF demo_ok(2) this _ _ doc prod.collapse [symmetric] prod.collapse [symmetric], of 7]
  show ?thesis by (simp del: store_simps)
qed

section \<open>Losing the owner\<close>

lemma svc_DeletePermissionPrincipal_refines:
  "env_ok E \<Longrightarrow> refines (svc_DeletePermissionPrincipal pg_repository E u i) (spec_DeletePermissionsPrincipal u i)"
  unfolding svc_DeletePermissionPrincipal_def by (intro refines_wrapped pg.contract domain_specs)

text \<open>As long as a document stays, nobody becomes its owner who was not.\<close>

lemma no_new_owner:
  assumes "(\<lambda>a b. doc_step a b \<and> st_documents (store b) i \<noteq> None)\<^sup>*\<^sup>* d d'"
    and "db_ok d" "st_documents (store d) i \<noteq> None" "owns (store d') u i"
  shows "owns (store d) u i"
proof -
  have "db_ok d' \<and> st_documents (store d') i \<noteq> None \<and> (owns (store d') u i \<longrightarrow> owns (store d) u i)"
    using assms(1)
  proof (induction rule: rtranclp_induct)
    case base
    with assms(2,3) show ?case by blast
  next
    case (step a b)
    then obtain E req where "db_ok b" "store b = store a \<or> store b = snd (spec_request E req (store a))"
      using doc_step_store by metis
    with step owner_origin show ?case by metis
  qed
  with assms(4) show ?thesis by blast
qed

text \<open>C35: ownership can be lost for good. In every reachable database the service, asked on a
  connection without faults to delete the permission of a document's owner, does so and answers success; the document stays as it
  was without an owner, and no later request, whatever its faults, gives it an owner again for
  as long as it exists.\<close>

theorem ownership_lost_for_good:
  assumes "doc_reachable d" "st_permissions (store d) (u, i) = Some p" "perm_PermissionLevel p = Owner" "env_ok E"
    and run: "healthy_request (svc_DeletePermissionPrincipal pg_repository E u i) d = (r, d')"
  shows "r = Inr () \<and> st_documents (store d') i = st_documents (store d) i \<and> st_documents (store d') i \<noteq> None \<and>
    (\<forall>d'' v q. (\<lambda>a b. doc_step a b \<and> st_documents (store b) i \<noteq> None)\<^sup>*\<^sup>* d' d'' \<longrightarrow>
       st_permissions (store d'') (v, i) = Some q \<longrightarrow> perm_PermissionLevel q \<noteq> Owner)"
proof -
  note I = reachable_inv [OF assms(1)]
  have doc: "st_documents (store d) i \<noteq> None"
    using refs_ok_store [of d] I assms(2) unfolding refs_ok_def by blast
  note H = healthy_request_spec [OF svc_DeletePermissionPrincipal_refines [OF assms(4)] conjunct1 [OF I], of u i]
  have d': "r = Inr ()" "store d' = (store d)\<lparr>st_permissions := (st_permissions (store d))((u, i) := None)\<rparr>" "db_ok d'"
    using H run assms(2) by (simp_all add: spec_DeletePermissionsPrincipal_def del: store_simps)
  have same: "st_documents (store d') i = st_documents (store d) i"
    using d'(2) by (simp del: store_simps)
  have "\<not> owns (store d') v i" for v
  proof
    assume "owns (store d') v i"
    then have "v \<noteq> u" "owns (store d) v i"
      by (simp_all only: d'(2)) (auto simp: owns_def simp del: store_simps split: if_splits)
    with single_owner [of "store d" u i v] I assms(2,3) show False unfolding owns_def by blast
  qed
  then have "\<not> owns (store d'') v i"
    if "(\<lambda>a b. doc_step a b \<and> st_documents (store b) i \<noteq> None)\<^sup>*\<^sup>* d' d''" for d'' v
    using no_new_owner [OF that d'(3)] doc same by metis
  then have "perm_PermissionLevel q \<noteq> Owner"
    if "(\<lambda>a b. doc_step a b \<and> st_documents (store b) i \<noteq> None)\<^sup>*\<^sup>* d' d''"
      "st_permissions (store d'') (v, i) = Some q" for d'' v q
    using that unfolding owns_def by blast
  with d'(1) same doc show ?thesis by (intro conjI allI impI) (assumption | simp only: | blast)+
qed

theorem ownership_lost_for_good_witness:
  "fst (healthy_request (svc_DeletePermissionPrincipal pg_repository demo_env 7 42) demo_shared) = Inr () \<and>
   (let d' = snd (healthy_request (svc_DeletePermissionPrincipal pg_repository demo_env 7 42) demo_shared) in
     st_documents (store d') 42 \<noteq> None \<and>
     (\<forall>v q. st_permissions (store d') (v, 42) = Some q \<longrightarrow> perm_PermissionLevel q \<noteq> Owner))"
proof -
  have "map_option perm_PermissionLevel (st_permissions (store demo_shared) (7, 42)) = Some Owner"
    by code_simp
  then obtain p where p: "st_permissions (store demo_shared) (7, 42) = Some p" "perm_PermissionLevel p = Owner"
    by auto
  from ownership_lost_for_good [OF demo_reachable(2) p demo_ok(2) prod.collapse [symmetric]]
  show ?thesis unfolding Let_def by blast
qed

end
