(* ===== verification/Doc_Server.thy ===== *)
theory Doc_Server
  imports Doc_Lifecycle
begin

text \<open>
  \<^verbatim>\<open>document_service/internal/server/document_server.go\<close>: the gRPC handlers of the document
  service. A handler parses the protobuf request, calls one method of the service and
  serialises its result; it ends in a reply, in a gRPC status, or in a panic where the code
  dereferences a message field that the wire format allows to be absent. The messages are
  those of \<^verbatim>\<open>api/v1/document.proto\<close>: an absent optional field or sub-message is None, and
  enumerations are open 32-bit numbers.
\<close>

section \<open>Messages (document.proto)\<close>

type_synonym pb_PermissionLevel = int32
type_synonym pb_SortField = int32
type_synonym pb_PrincipalType = int32

abbreviation PERMISSION_VIEWER :: pb_PermissionLevel where "PERMISSION_VIEWER \<equiv> 0"
abbreviation PERMISSION_EDITOR :: pb_PermissionLevel where "PERMISSION_EDITOR \<equiv> 1"
abbreviation PERMISSION_OWNER :: pb_PermissionLevel where "PERMISSION_OWNER \<equiv> 2"
abbreviation SORT_FIELD_CREATED_AT :: pb_SortField where "SORT_FIELD_CREATED_AT \<equiv> 0"
abbreviation SORT_FIELD_LAST_MODIFIED_AT :: pb_SortField where "SORT_FIELD_LAST_MODIFIED_AT \<equiv> 1"
abbreviation Principal_USER :: pb_PrincipalType where "Principal_USER \<equiv> 0"
abbreviation Principal_GUEST :: pb_PrincipalType where "Principal_GUEST \<equiv> 1"

record pb_Document =
  pbd_DocumentId :: string
  pbd_DocumentName :: "string option"
  pbd_Description :: "string option"
  pbd_CreatedAt :: Timestamp
  pbd_LastModifiedAt :: Timestamp

record pb_Cursor =
  pbc_SortField :: pb_SortField
  pbc_LastSeenTime :: "Timestamp option"
  pbc_LastSeenDocumentId :: "string option"

record pb_Principal =
  pbp_PrincipalId :: string
  pbp_PrincipalType :: pb_PrincipalType

record pb_Permission =
  pbr_Recipient :: pb_Principal
  pbr_DocumentId :: string
  pbr_PermissionLevel :: pb_PermissionLevel
  pbr_CreatedBy :: string
  pbr_CreatedAt :: Timestamp
  pbr_LastModifiedAt :: Timestamp

record pb_ClientContext =
  cc_PrincipalId :: string
  cc_PrincipalType :: "pb_PrincipalType option"

record pb_DocumentPermission =
  pbdp_Document :: pb_Document
  pbdp_PermissionLevel :: pb_PermissionLevel

record CreateDocumentRequest =
  cdr_OwnerUserId :: string
  cdr_DocumentName :: "string option"
  cdr_DocumentDescription :: "string option"
  cdr_ClientContext :: "pb_ClientContext option"

record GetDocumentRequest =
  gdr_DocumentId :: string
  gdr_ClientContext :: "pb_ClientContext option"

record UpdateDocumentRequest =
  udr_DocumentId :: string
  udr_Name :: "string option"
  udr_Description :: "string option"
  udr_ClientContext :: "pb_ClientContext option"

record DeleteDocumentRequest =
  ddr_DocumentId :: string
  ddr_ClientContext :: "pb_ClientContext option"

record DeleteDocumentsRequest =
  dds_DocumentIds :: "string list"
  dds_ClientContext :: "pb_ClientContext option"

record ListDocumentByPrincipalRequest =
  ldr_PrincipalId :: string
  ldr_PermissionsFilter :: "pb_PermissionLevel list"
  ldr_Cursor :: "pb_Cursor option"
  ldr_PageSize :: "int32 option"
  ldr_ClientContext :: "pb_ClientContext option"

record GetPermissionsRequest =
  gpr_DocumentId :: string
  gpr_PrincipalId :: string
  gpr_ClientContext :: "pb_ClientContext option"

record ListPermissionsOnDocumentRequest =
  lpr_DocumentId :: string
  lpr_PermissionsFilter :: "pb_PermissionLevel list"
  lpr_Cursor :: "pb_Cursor option"
  lpr_PageSize :: "int32 option"
  lpr_ClientContext :: "pb_ClientContext option"

record CreateGuestRequest =
  cgr_DocumentId :: string
  cgr_PermissionLevel :: pb_PermissionLevel
  cgr_ClientContext :: "pb_ClientContext option"

record UpsertPermissionUserRequest =
  upr_UserId :: string
  upr_DocumentId :: string
  upr_PermissionLevel :: pb_PermissionLevel
  upr_ClientContext :: "pb_ClientContext option"

record UpdatePermissionGuestRequest =
  ugr_GuestId :: string
  ugr_PermissionLevel :: pb_PermissionLevel
  ugr_ClientContext :: "pb_ClientContext option"

record DeletePermissionsPrincipalRequest =
  dpr_PrincipalId :: string
  dpr_DocumentId :: string
  dpr_ClientContext :: "pb_ClientContext option"

section \<open>Status and errors\<close>

text \<open>A status carries a message: a fixed text (None), or the text of an error.\<close>

datatype rpc_failure = Status grpc_code "doc_err option" | Panic

type_synonym 'a rpc = "(doc_db, rpc_failure + 'a) db_op"

abbreviation reply :: "'a \<Rightarrow> 'a rpc" where "reply x \<equiv> State_Monad.return (Inr x)"

definition serviceToGRPCError :: "doc_err \<Rightarrow> rpc_failure" where
  "serviceToGRPCError err =
     (if errors_As is_NotFound err then Status Code_NotFound (Some err)
      else if errors_As is_UniqueConflict err then Status Code_AlreadyExists (Some err)
      else if errors_As is_InvalidInput err then Status Code_InvalidArgument (Some err)
      else Status Code_Internal None)"

abbreviation invalid_argument :: "doc_err \<Rightarrow> rpc_failure" where
  "invalid_argument e \<equiv> Status Code_InvalidArgument (Some e)"

abbreviation internal :: "doc_err \<Rightarrow> rpc_failure" where
  "internal e \<equiv> Status Code_Internal (Some e)"

text \<open>\<^verbatim>\<open>uuid.Parse\<close> of a request field, with the fixed message of its handler.\<close>

definition parse_id :: "env \<Rightarrow> string \<Rightarrow> rpc_failure + uuid" where
  "parse_id E s = (case uuid_Parse E s of None \<Rightarrow> Inl (Status Code_InvalidArgument None) | Some u \<Rightarrow> Inr u)"

text \<open>Reading a field of a sub-message: a nil pointer panics.\<close>

definition deref :: "'m option \<Rightarrow> rpc_failure + 'm" where
  "deref m = (case m of None \<Rightarrow> Inl Panic | Some x \<Rightarrow> Inr x)"

section \<open>Conversions\<close>

definition pbToServicePermissionLevel :: "pb_PermissionLevel \<Rightarrow> doc_err + PermissionLevel" where
  [conv_defs]: "pbToServicePermissionLevel l =
     (if l = PERMISSION_VIEWER then Inr Viewer
      else if l = PERMISSION_EDITOR then Inr Editor
      else if l = PERMISSION_OWNER then Inr Owner
      else Inl (Errorf None))"

definition pbToServicePermissionLevelList :: "pb_PermissionLevel list \<Rightarrow> doc_err + PermissionLevel list" where
  "pbToServicePermissionLevelList levels = map_err pbToServicePermissionLevel levels"

definition serviceToPbPermissionLevel :: "PermissionLevel \<Rightarrow> doc_err + pb_PermissionLevel" where
  [conv_defs]: "serviceToPbPermissionLevel l =
     (if l = Viewer then Inr PERMISSION_VIEWER
      else if l = Editor then Inr PERMISSION_EDITOR
      else if l = Owner then Inr PERMISSION_OWNER
      else Inl (Errorf None))"

definition serviceToPbDocument :: "env \<Rightarrow> Document \<Rightarrow> pb_Document" where
  "serviceToPbDocument E x = \<lparr> pbd_DocumentId = uuid_String E (doc_ID x), pbd_DocumentName = doc_Name x,
     pbd_Description = doc_Description x, pbd_CreatedAt = timestamppb_New E (doc_CreatedAt x),
     pbd_LastModifiedAt = timestamppb_New E (doc_LastModifiedAt x) \<rparr>"

definition serviceToPbDocumentPermissionList ::
  "env \<Rightarrow> DocumentPermission list \<Rightarrow> doc_err + pb_DocumentPermission list" where
  "serviceToPbDocumentPermissionList E xs = map_err (\<lambda>x.
     checked (serviceToPbPermissionLevel (dp_Permission x)) id (\<lambda>permissionLevel.
       Inr \<lparr> pbdp_Document = serviceToPbDocument E (dp_Document x), pbdp_PermissionLevel = permissionLevel \<rparr>)) xs"

definition pbToServiceSortField :: "pb_SortField \<Rightarrow> doc_err + SortField" where
  [conv_defs]: "pbToServiceSortField sf =
     (if sf = SORT_FIELD_CREATED_AT then Inr Sort_CreatedAt
      else if sf = SORT_FIELD_LAST_MODIFIED_AT then Inr Sort_LastModifiedAt
      else Inl (Errorf None))"

definition serviceToPbSortField :: "SortField \<Rightarrow> doc_err + pb_SortField" where
  [conv_defs]: "serviceToPbSortField sf =
     (if sf = Sort_CreatedAt then Inr SORT_FIELD_CREATED_AT
      else if sf = Sort_LastModifiedAt then Inr SORT_FIELD_LAST_MODIFIED_AT
      else Inl (Errorf None))"

definition serviceToPbCursor :: "env \<Rightarrow> Cursor \<Rightarrow> doc_err + pb_Cursor" where
  "serviceToPbCursor E cursor =
     checked (serviceToPbSortField (cur_SortField cursor)) id (\<lambda>sortField.
       Inr \<lparr> pbc_SortField = sortField, pbc_LastSeenTime = Some (timestamppb_New E (cur_LastSeenTime cursor)),
             pbc_LastSeenDocumentId = Some (uuid_String E (cur_LastSeenID cursor)) \<rparr>)"

text \<open>\<^verbatim>\<open>parseServiceCursor\<close> reads \<^verbatim>\<open>reqCursor.SortField\<close> first: without a cursor it panics.
  Its handlers turn an error into InvalidArgument with the error's text.\<close>

definition parseServiceCursor :: "env \<Rightarrow> pb_Cursor option \<Rightarrow> rpc_failure + Cursor" where
  "parseServiceCursor E reqCursor =
     checked (deref reqCursor) id (\<lambda>pc.
     checked (pbToServiceSortField (pbc_SortField pc)) invalid_argument (\<lambda>sortField.
     case pbc_LastSeenTime pc of
       None \<Rightarrow> Inr (NewBeginningCursor E sortField)
     | Some t \<Rightarrow>
         checked (case pbc_LastSeenDocumentId pc of
             Some s \<Rightarrow> (case uuid_Parse E s of None \<Rightarrow> Inl (Errorf None) | Some u \<Rightarrow> Inr u)
           | None \<Rightarrow> Inr MaxDocumentID) invalid_argument (\<lambda>docId.
         Inr \<lparr> cur_SortField = sortField, cur_LastSeenTime = timestamppb_AsTime E t, cur_LastSeenID = docId \<rparr>)))"

definition serviceToPbRecipientType :: "RecipientType \<Rightarrow> doc_err + pb_PrincipalType" where
  [conv_defs]: "serviceToPbRecipientType t =
     (if t = Recipient_Guest then Inr Principal_GUEST
      else if t = Recipient_User then Inr Principal_USER
      else Inl (Errorf None))"

definition serviceToPbPermission :: "env \<Rightarrow> Permission \<Rightarrow> doc_err + pb_Permission" where
  "serviceToPbPermission E p =
     checked (serviceToPbRecipientType (perm_RecipientType p)) (\<lambda>e. Errorf (Some e)) (\<lambda>principalType.
     checked (serviceToPbPermissionLevel (perm_PermissionLevel p)) (\<lambda>e. Errorf (Some e)) (\<lambda>permissionLevel.
       Inr \<lparr> pbr_Recipient = \<lparr> pbp_PrincipalId = uuid_String E (perm_RecipientID p), pbp_PrincipalType = principalType \<rparr>,
             pbr_DocumentId = uuid_String E (perm_DocumentID p), pbr_PermissionLevel = permissionLevel,
             pbr_CreatedBy = uuid_String E (perm_CreatedBy p),
             pbr_CreatedAt = timestamppb_New E (perm_CreatedAt p),
             pbr_LastModifiedAt = timestamppb_New E (perm_LastModifiedAt p) \<rparr>))"

definition serviceToPbPermissionList :: "env \<Rightarrow> Permission list \<Rightarrow> doc_err + pb_Permission list" where
  "serviceToPbPermissionList E ps = map_err (serviceToPbPermission E) ps"

section \<open>Handlers\<close>

abbreviation pure :: "'f + 'a \<Rightarrow> (doc_db, 'f + 'a) db_op" where
  "pure r \<equiv> State_Monad.return r"

definition rpc_CreateDocument :: "DocumentRepository \<Rightarrow> env \<Rightarrow> CreateDocumentRequest \<Rightarrow> string rpc" where
  "rpc_CreateDocument repo E req =
     check (pure (parse_id E (cdr_OwnerUserId req))) id (\<lambda>userId.
     check (svc_CreateDocument repo E userId (cdr_DocumentName req) (cdr_DocumentDescription req))
       serviceToGRPCError (\<lambda>documentId.
     reply (uuid_String E documentId)))"

definition rpc_GetDocument :: "DocumentRepository \<Rightarrow> env \<Rightarrow> GetDocumentRequest \<Rightarrow> pb_Document rpc" where
  "rpc_GetDocument repo E req =
     check (pure (parse_id E (gdr_DocumentId req))) id (\<lambda>documentId.
     check (svc_GetDocument repo E documentId) serviceToGRPCError (\<lambda>document.
     reply \<lparr> pbd_DocumentId = uuid_String E (doc_ID document), pbd_DocumentName = doc_Name document,
             pbd_Description = doc_Description document,
             pbd_CreatedAt = timestamppb_New E (doc_CreatedAt document),
             pbd_LastModifiedAt = timestamppb_New E (doc_LastModifiedAt document) \<rparr>))"

definition rpc_UpdateDocument :: "DocumentRepository \<Rightarrow> env \<Rightarrow> UpdateDocumentRequest \<Rightarrow> unit rpc" where
  "rpc_UpdateDocument repo E req =
     check (pure (parse_id E (udr_DocumentId req))) id (\<lambda>documentId.
     check (svc_UpdateDocument repo E documentId (udr_Name req) (udr_Description req)) serviceToGRPCError reply)"

definition rpc_DeleteDocument :: "DocumentRepository \<Rightarrow> env \<Rightarrow> DeleteDocumentRequest \<Rightarrow> unit rpc" where
  "rpc_DeleteDocument repo E req =
     check (pure (parse_id E (ddr_DocumentId req))) id (\<lambda>documentId.
     check (svc_DeleteDocument repo E documentId) serviceToGRPCError reply)"

definition rpc_DeleteDocuments :: "DocumentRepository \<Rightarrow> env \<Rightarrow> DeleteDocumentsRequest \<Rightarrow> unit rpc" where
  "rpc_DeleteDocuments repo E req =
     check (pure (map_err (parse_id E) (dds_DocumentIds req))) id (\<lambda>parsedDocumentIds.
     check (pure (deref (dds_ClientContext req))) id (\<lambda>clientContext.
     check (pure (parse_id E (cc_PrincipalId clientContext))) id (\<lambda>parsedUserId.
     check (svc_DeleteDocuments repo E parsedDocumentIds parsedUserId) serviceToGRPCError reply)))"

definition rpc_ListDocumentsByPrincipal ::
  "DocumentRepository \<Rightarrow> env \<Rightarrow> ListDocumentByPrincipalRequest \<Rightarrow> (pb_DocumentPermission list \<times> pb_Cursor) rpc" where
  "rpc_ListDocumentsByPrincipal repo E req =
     check (pure (parse_id E (ldr_PrincipalId req))) id (\<lambda>principalId.
     check (pure (pbToServicePermissionLevelList (ldr_PermissionsFilter req))) invalid_argument (\<lambda>permissionFilter.
     check (pure (parseServiceCursor E (ldr_Cursor req))) id (\<lambda>cursor.
     let pageSize = (case ldr_PageSize req of None \<Rightarrow> DefaultPageSize | Some n \<Rightarrow> n) in
     check (svc_ListDocumentsByPrincipal repo E principalId permissionFilter (Some cursor) pageSize)
       serviceToGRPCError (\<lambda>(documentPermissions, responseCursor).
     check (pure (serviceToPbDocumentPermissionList E documentPermissions)) internal (\<lambda>pbDocumentPermissions.
     check (pure (serviceToPbCursor E responseCursor)) internal (\<lambda>pbRespCursor.
     reply (pbDocumentPermissions, pbRespCursor)))))))"

definition rpc_GetPermissionsOfPrincipalOnDocument ::
  "DocumentRepository \<Rightarrow> env \<Rightarrow> GetPermissionsRequest \<Rightarrow> pb_Permission rpc" where
  "rpc_GetPermissionsOfPrincipalOnDocument repo E req =
     check (pure (parse_id E (gpr_DocumentId req))) id (\<lambda>documentId.
     check (pure (parse_id E (gpr_PrincipalId req))) id (\<lambda>principalId.
     check (svc_GetPermissionOfPrincipalOnDocument repo E documentId principalId) serviceToGRPCError (\<lambda>permission.
     check (pure (serviceToPbPermission E permission)) internal reply)))"

definition rpc_ListPermissionsOnDocument ::
  "DocumentRepository \<Rightarrow> env \<Rightarrow> ListPermissionsOnDocumentRequest \<Rightarrow> (pb_Permission list \<times> pb_Cursor) rpc" where
  "rpc_ListPermissionsOnDocument repo E req =
     check (pure (parse_id E (lpr_DocumentId req))) id (\<lambda>documentId.
     check (pure (pbToServicePermissionLevelList (lpr_PermissionsFilter req))) invalid_argument (\<lambda>permissionFilter.
     check (pure (parseServiceCursor E (lpr_Cursor req))) id (\<lambda>cursor.
     let pageSize = (case lpr_PageSize req of None \<Rightarrow> DefaultPageSize | Some n \<Rightarrow> n) in
     check (svc_ListPermissionsOnDocument repo E documentId permissionFilter (Some cursor) pageSize)
       serviceToGRPCError (\<lambda>(recipientPermissions, respCursor).
     check (pure (serviceToPbPermissionList E recipientPermissions)) internal (\<lambda>pbRecipientPermissions.
     check (pure (serviceToPbCursor E respCursor)) internal (\<lambda>pbRespCursor.
     reply (pbRecipientPermissions, pbRespCursor)))))))"

definition rpc_CreateGuest :: "DocumentRepository \<Rightarrow> env \<Rightarrow> CreateGuestRequest \<Rightarrow> string rpc" where
  "rpc_CreateGuest repo E req =
     check (pure (parse_id E (cgr_DocumentId req))) id (\<lambda>documentId.
     check (pure (deref (cgr_ClientContext req))) id (\<lambda>clientContext.
     check (pure (parse_id E (cc_PrincipalId clientContext))) id (\<lambda>userId.
     check (pure (pbToServicePermissionLevel (cgr_PermissionLevel req))) invalid_argument (\<lambda>permissionLevel.
     check (svc_CreateGuest repo E userId documentId permissionLevel) serviceToGRPCError (\<lambda>guestId.
     reply (uuid_String E guestId))))))"

definition rpc_UpsertPermissionUser ::
  "DocumentRepository \<Rightarrow> env \<Rightarrow> UpsertPermissionUserRequest \<Rightarrow> unit rpc" where
  "rpc_UpsertPermissionUser repo E req =
     check (pure (parse_id E (upr_UserId req))) id (\<lambda>userId.
     check (pure (parse_id E (upr_DocumentId req))) id (\<lambda>documentId.
     check (pure (pbToServicePermissionLevel (upr_PermissionLevel req))) invalid_argument (\<lambda>permissionLevel.
     check (svc_UpsertPermissionUser repo E userId documentId permissionLevel) serviceToGRPCError reply)))"

definition rpc_UpdatePermissionGuest ::
  "DocumentRepository \<Rightarrow> env \<Rightarrow> UpdatePermissionGuestRequest \<Rightarrow> unit rpc" where
  "rpc_UpdatePermissionGuest repo E req =
     check (pure (parse_id E (ugr_GuestId req))) id (\<lambda>guestId.
     check (pure (pbToServicePermissionLevel (ugr_PermissionLevel req))) invalid_argument (\<lambda>permissionLevel.
     check (svc_UpdatePermissionGuest repo E guestId permissionLevel) serviceToGRPCError reply))"

definition rpc_DeletePermissionsPrincipal ::
  "DocumentRepository \<Rightarrow> env \<Rightarrow> DeletePermissionsPrincipalRequest \<Rightarrow> unit rpc" where
  "rpc_DeletePermissionsPrincipal repo E req =
     check (pure (parse_id E (dpr_PrincipalId req))) id (\<lambda>recipientId.
     check (pure (parse_id E (dpr_DocumentId req))) id (\<lambda>documentId.
     check (svc_DeletePermissionPrincipal repo E recipientId documentId) serviceToGRPCError reply))"

section \<open>Lemmas on handlers\<close>

lemma run_check_pure [simp]:
  "run_state (check (pure (Inr x)) h k) c = run_state (k x) c"
  "run_state (check (pure (Inl e)) h k) c = (Inl (h e), c)"
  by (simp_all add: run_check)

lemma parse_id_simps [simp]:
  "uuid_Parse E s = Some u \<Longrightarrow> parse_id E s = Inr u"
  "uuid_Parse E s = None \<Longrightarrow> parse_id E s = Inl (Status Code_InvalidArgument None)"
  by (simp_all add: parse_id_def)

lemma deref_simps [simp]: "deref None = Inl Panic" "deref (Some m) = Inr m"
  by (simp_all add: deref_def)

lemma pbToServicePermissionLevel_ok: "l \<in> set AllPermissions \<Longrightarrow> pbToServicePermissionLevel l = Inr l"
  by (auto simp: conv_defs AllPermissions_def)

section \<open>Properties\<close>

text \<open>A cursor survives the wire: the cursor a listing replies with, sent back by the client,
  is parsed to the very cursor the service returned.\<close>

lemma cursor_roundtrip:
  assumes "env_ok E" "valid_sort cur"
  shows "\<exists>pc. serviceToPbCursor E cur = Inr pc \<and> parseServiceCursor E (Some pc) = Inr cur"
  using assms by (auto simp: serviceToPbCursor_def parseServiceCursor_def valid_sort_def conv_defs)

text \<open>The numbers of the wire and of the service name the same permission levels, in both
  directions, and every other number is rejected in both.\<close>

lemma wire_levels_agree:
  "(pbToServicePermissionLevel l = Inr x) = (serviceToPbPermissionLevel x = Inr l) \<and>
   (\<exists>y. pbToServicePermissionLevel l = Inr y) = (l \<in> set AllPermissions) \<and>
   (\<exists>m. serviceToPbPermissionLevel x = Inr m) = (x \<in> set AllPermissions)"
  by (auto simp: conv_defs AllPermissions_def)

text \<open>The status of a failed call follows the kinds of error found anywhere in the chain (not
  found before conflict before invalid input, everything else internal), and only the three
  client errors carry the text of the error: an internal failure is reported
  by a fixed message, so nothing of the database reaches the client.\<close>

lemma status_of_error:
  "serviceToGRPCError (NotFound e) = Status Code_NotFound (Some (NotFound e)) \<and>
   serviceToGRPCError (RepoImpl (Some (NotFound e))) = Status Code_NotFound (Some (RepoImpl (Some (NotFound e)))) \<and>
   serviceToGRPCError (UniqueConflict (Some (Pgx x))) = Status Code_AlreadyExists (Some (UniqueConflict (Some (Pgx x)))) \<and>
   serviceToGRPCError (InvalidInput None) = Status Code_InvalidArgument (Some (InvalidInput None)) \<and>
   serviceToGRPCError (repo_impl x) = Status Code_Internal None \<and>
   (serviceToGRPCError err = Status Code_Internal d) =
     (d = None \<and> \<not> errors_As is_NotFound err \<and> \<not> errors_As is_UniqueConflict err \<and> \<not> errors_As is_InvalidInput err)"
  by (auto simp: serviceToGRPCError_def errors_As_def split: option.splits)

text \<open>Identifiers that are not UUIDs are refused with InvalidArgument before the service or
  the database is touched, with any repository behind the server.\<close>

lemma bad_ids_refused:
  assumes "uuid_Parse E bad = None"
  shows "run_state (rpc_CreateDocument repo E (cd\<lparr>cdr_OwnerUserId := bad\<rparr>)) c = (Inl (Status Code_InvalidArgument None), c) \<and>
    run_state (rpc_GetDocument repo E (gd\<lparr>gdr_DocumentId := bad\<rparr>)) c = (Inl (Status Code_InvalidArgument None), c) \<and>
    run_state (rpc_UpdateDocument repo E (ud\<lparr>udr_DocumentId := bad\<rparr>)) c = (Inl (Status Code_InvalidArgument None), c) \<and>
    run_state (rpc_DeleteDocument repo E (dd\<lparr>ddr_DocumentId := bad\<rparr>)) c = (Inl (Status Code_InvalidArgument None), c) \<and>
    run_state (rpc_DeleteDocuments repo E (ds\<lparr>dds_DocumentIds := bad # rest\<rparr>)) c = (Inl (Status Code_InvalidArgument None), c) \<and>
    run_state (rpc_ListDocumentsByPrincipal repo E (ld\<lparr>ldr_PrincipalId := bad\<rparr>)) c = (Inl (Status Code_InvalidArgument None), c) \<and>
    run_state (rpc_GetPermissionsOfPrincipalOnDocument repo E (gp\<lparr>gpr_DocumentId := bad\<rparr>)) c = (Inl (Status Code_InvalidArgument None), c) \<and>
    run_state (rpc_ListPermissionsOnDocument repo E (lp\<lparr>lpr_DocumentId := bad\<rparr>)) c = (Inl (Status Code_InvalidArgument None), c) \<and>
    run_state (rpc_CreateGuest repo E (cg\<lparr>cgr_DocumentId := bad\<rparr>)) c = (Inl (Status Code_InvalidArgument None), c) \<and>
    run_state (rpc_UpsertPermissionUser repo E (up\<lparr>upr_UserId := bad\<rparr>)) c = (Inl (Status Code_InvalidArgument None), c) \<and>
    run_state (rpc_UpdatePermissionGuest repo E (ug\<lparr>ugr_GuestId := bad\<rparr>)) c = (Inl (Status Code_InvalidArgument None), c) \<and>
    run_state (rpc_DeletePermissionsPrincipal repo E (dp\<lparr>dpr_PrincipalId := bad\<rparr>)) c = (Inl (Status Code_InvalidArgument None), c)"
  using assms
  by (simp add: rpc_CreateDocument_def rpc_GetDocument_def rpc_UpdateDocument_def rpc_DeleteDocument_def
      rpc_DeleteDocuments_def rpc_ListDocumentsByPrincipal_def rpc_GetPermissionsOfPrincipalOnDocument_def
      rpc_ListPermissionsOnDocument_def rpc_CreateGuest_def rpc_UpsertPermissionUser_def
      rpc_UpdatePermissionGuest_def rpc_DeletePermissionsPrincipal_def)

text \<open>Ownership cannot be granted over the wire: a request for the owner level is refused with
  InvalidArgument and changes nothing, with any repository behind the server.\<close>

lemma owner_grant_refused:
  assumes "uuid_Parse E (upr_UserId up) = Some u" "uuid_Parse E (upr_DocumentId up) = Some i"
    and "upr_PermissionLevel up = PERMISSION_OWNER"
    and "uuid_Parse E (ugr_GuestId ug) = Some g" "ugr_PermissionLevel ug = PERMISSION_OWNER"
    and "uuid_Parse E (cgr_DocumentId cg) = Some j" "cgr_ClientContext cg = Some ctx"
    and "uuid_Parse E (cc_PrincipalId ctx) = Some v" "cgr_PermissionLevel cg = PERMISSION_OWNER"
  shows "run_state (rpc_UpsertPermissionUser repo E up) c = (Inl (invalid_argument (InvalidInput None)), c) \<and>
    run_state (rpc_UpdatePermissionGuest repo E ug) c = (Inl (invalid_argument (InvalidInput None)), c) \<and>
    run_state (rpc_CreateGuest repo E cg) c = (Inl (invalid_argument (InvalidInput None)), c)"
  using assms
  by (simp add: rpc_UpsertPermissionUser_def rpc_UpdatePermissionGuest_def rpc_CreateGuest_def
      pbToServicePermissionLevel_def svc_UpsertPermissionUser_def svc_UpdatePermissionGuest_def svc_CreateGuest_def
      serviceToGRPCError_def errors_As_def)

text \<open>C36: optional parts of a request that the handlers need. The cursor is optional in the protocol
  and the service has a default for it, but the handlers read the cursor's sort field before
  they test for its absence: a listing request without a cursor panics. Two handlers read the
  caller's identity from an optional message: a batch deletion or a guest creation without
  client context panics. Nothing has been touched then.\<close>

theorem absent_parts_panic:
  assumes "uuid_Parse E (ldr_PrincipalId ld) = Some u" "set (ldr_PermissionsFilter ld) \<subseteq> set AllPermissions"
    and "ldr_Cursor ld = None"
    and "uuid_Parse E (lpr_DocumentId lp) = Some i" "set (lpr_PermissionsFilter lp) \<subseteq> set AllPermissions"
    and "lpr_Cursor lp = None"
    and "map_err (parse_id E) (dds_DocumentIds ds) = Inr ids" "dds_ClientContext ds = None"
    and "uuid_Parse E (cgr_DocumentId cg) = Some j" "cgr_ClientContext cg = None"
  shows "run_state (rpc_ListDocumentsByPrincipal repo E ld) c = (Inl Panic, c) \<and>
    run_state (rpc_ListPermissionsOnDocument repo E lp) c = (Inl Panic, c) \<and>
    run_state (rpc_DeleteDocuments repo E ds) c = (Inl Panic, c) \<and>
    run_state (rpc_CreateGuest repo E cg) c = (Inl Panic, c)"
proof -
  have "pbToServicePermissionLevelList ls = Inr ls" if "set ls \<subseteq> set AllPermissions" for ls
    unfolding pbToServicePermissionLevelList_def
    using that map_err_total [of ls pbToServicePermissionLevel "\<lambda>x. x"] pbToServicePermissionLevel_ok by auto
  with assms show ?thesis
    by (simp add: rpc_ListDocumentsByPrincipal_def rpc_ListPermissionsOnDocument_def parseServiceCursor_def
        rpc_DeleteDocuments_def rpc_CreateGuest_def)
qed

theorem absent_parts_panic_witness:
  "run_state (rpc_ListDocumentsByPrincipal pg_repository demo_env
     \<lparr> ldr_PrincipalId = canon_String 7, ldr_PermissionsFilter = [], ldr_Cursor = None, ldr_PageSize = None,
       ldr_ClientContext = None \<rparr>) demo_conn = (Inl Panic, demo_conn) \<and>
   run_state (rpc_CreateGuest pg_repository demo_env
     \<lparr> cgr_DocumentId = canon_String 1, cgr_PermissionLevel = PERMISSION_VIEWER, cgr_ClientContext = None \<rparr>)
     demo_conn = (Inl Panic, demo_conn)"
  using absent_parts_panic [where E = demo_env and repo = pg_repository and c = demo_conn and u = 7 and i = 1 and j = 1
      and ids = "[]"
      and ld = "\<lparr> ldr_PrincipalId = canon_String 7, ldr_PermissionsFilter = [], ldr_Cursor = None,
        ldr_PageSize = None, ldr_ClientContext = None \<rparr>"
      and lp = "\<lparr> lpr_DocumentId = canon_String 1, lpr_PermissionsFilter = [], lpr_Cursor = None,
        lpr_PageSize = None, lpr_ClientContext = None \<rparr>"
      and ds = "\<lparr> dds_DocumentIds = [], dds_ClientContext = None \<rparr>"
      and cg = "\<lparr> cgr_DocumentId = canon_String 1, cgr_PermissionLevel = PERMISSION_VIEWER, cgr_ClientContext = None \<rparr>"]
  by (simp add: demo_env_def concrete_env_def canon_roundtrip)

text \<open>C22: end to end through server, service and database: a client that creates a document and
  asks for the identifier in the reply gets back the name and description it sent.\<close>

theorem rpc_create_then_get:
  assumes "env_ok E" "env_ok E'" "uuid_String E' = uuid_String E" "snapshot c = None" "db_ok (tables c)"
    and "uuid_Parse E (cdr_OwnerUserId req) = Some u"
    and run: "run_state (rpc_CreateDocument pg_repository E req) c = (Inr s, c')" and "faults c' = []"
  shows "\<exists>d c''. run_state (rpc_GetDocument pg_repository E' \<lparr> gdr_DocumentId = s, gdr_ClientContext = ctx \<rparr>) c' = (Inr d, c'') \<and>
    pbd_DocumentId d = s \<and> pbd_DocumentName d = cdr_DocumentName req \<and>
    pbd_Description d = cdr_DocumentDescription req"
proof -
  obtain i where create: "run_state (svc_CreateDocument pg_repository E u (cdr_DocumentName req) (cdr_DocumentDescription req)) c
      = (Inr i, c')" and s: "s = uuid_String E i"
    using run assms(6) by (auto simp: rpc_CreateDocument_def run_check split: prod.splits sum.splits)
  from create_visible [OF assms(1,2,4,5) create assms(8)]
  have "fst (run_state (svc_GetDocument pg_repository E' i) c') = Inr \<lparr> doc_ID = i, doc_Name = cdr_DocumentName req,
      doc_Description = cdr_DocumentDescription req, doc_CreatedAt = db_NOW E, doc_LastModifiedAt = db_NOW E \<rparr>"
    by blast
  moreover have "uuid_Parse E' s = Some i"
    using assms(2,3) s env_okD(1) [of E' i] by simp
  ultimately show ?thesis
    using s assms(3) by (auto simp: rpc_GetDocument_def run_check split: prod.splits)
qed

theorem rpc_create_then_get_witness:
  "\<exists>c' d c''. run_state (rpc_CreateDocument pg_repository demo_env
       \<lparr> cdr_OwnerUserId = canon_String 7, cdr_DocumentName = Some ''plan'', cdr_DocumentDescription = None,
         cdr_ClientContext = None \<rparr>) demo_conn = (Inr (canon_String 42), c') \<and>
     run_state (rpc_GetDocument pg_repository demo_env
       \<lparr> gdr_DocumentId = canon_String 42, gdr_ClientContext = None \<rparr>) c' = (Inr d, c'') \<and>
     pbd_DocumentName d = Some ''plan''"
proof -
  let ?req = "\<lparr> cdr_OwnerUserId = canon_String 7, cdr_DocumentName = Some ''plan'', cdr_DocumentDescription = None,
         cdr_ClientContext = None \<rparr>"
  let ?r = "run_state (rpc_CreateDocument pg_repository demo_env ?req) demo_conn"
  let ?q = "run_state (svc_CreateDocument pg_repository demo_env 7 (Some ''plan'') None) demo_conn"
  have "fst ?q = Inr 42" "faults (snd ?q) = []" by code_simp+
  then obtain c' where q: "?q = (Inr 42, c')" and c': "faults c' = []" by (cases ?q) auto
  have parse: "uuid_Parse demo_env (cdr_OwnerUserId ?req) = Some 7" and str: "uuid_String demo_env = canon_String"
    by (simp_all add: demo_env_def concrete_env_def canon_roundtrip)
  have run: "?r = (Inr (canon_String 42), c')"
    using parse str q by (simp add: rpc_CreateDocument_def run_check)
  from rpc_create_then_get [OF demo_ok(2) demo_ok(2) refl _ _ parse run c', of None] run
  show ?thesis by (auto simp: demo_conn_def demo_ok)
qed

end
