(* ===== verification/User_Types.thy ===== *)
theory User_Types
  imports Externals Transactions
begin

text \<open>
  The domain of the user service: the error types of
  \<^verbatim>\<open>user_service/internal/service/errors.go\<close>, the \<^verbatim>\<open>User\<close> struct, the constants of
  \<^verbatim>\<open>internal/config/constants.go\<close>, and the parameter for \<^verbatim>\<open>golang.org/x/crypto/bcrypt\<close> with
  the behaviour its documentation promises. A string is the list of its bytes.
\<close>

section \<open>Errors (errors.go)\<close>

datatype user_err =
    UNotFoundError
  | URepoImplError "user_err option"
  | UUniqueConflictError "user_err option"
  | UInvalidError "user_err option"
  | UPasswordMismatchError user_err
  | UPgx pgx_err
  | UBcrypt                             \<comment> \<open>an error of the bcrypt package\<close>

text \<open>\<^verbatim>\<open>NotFoundError\<close> and \<^verbatim>\<open>PasswordMismatchError\<close> have no \<^verbatim>\<open>Unwrap\<close>.\<close>

fun user_chain :: "user_err \<Rightarrow> user_err list" where
  "user_chain (URepoImplError e) = URepoImplError e # (case e of None \<Rightarrow> [] | Some x \<Rightarrow> user_chain x)"
| "user_chain (UUniqueConflictError e) = UUniqueConflictError e # (case e of None \<Rightarrow> [] | Some x \<Rightarrow> user_chain x)"
| "user_chain (UInvalidError e) = UInvalidError e # (case e of None \<Rightarrow> [] | Some x \<Rightarrow> user_chain x)"
| "user_chain UNotFoundError = [UNotFoundError]"
| "user_chain (UPasswordMismatchError e) = [UPasswordMismatchError e]"
| "user_chain (UPgx e) = [UPgx e]"
| "user_chain UBcrypt = [UBcrypt]"

fun is_UNotFound :: "user_err \<Rightarrow> bool" where
  "is_UNotFound UNotFoundError = True" | "is_UNotFound _ = False"

fun is_UUniqueConflict :: "user_err \<Rightarrow> bool" where
  "is_UUniqueConflict (UUniqueConflictError _) = True" | "is_UUniqueConflict _ = False"

fun is_UInvalid :: "user_err \<Rightarrow> bool" where
  "is_UInvalid (UInvalidError _) = True" | "is_UInvalid _ = False"

fun is_UPasswordMismatch :: "user_err \<Rightarrow> bool" where
  "is_UPasswordMismatch (UPasswordMismatchError _) = True" | "is_UPasswordMismatch _ = False"

definition user_errors_As :: "(user_err \<Rightarrow> bool) \<Rightarrow> user_err \<Rightarrow> bool" where
  "user_errors_As is_type e \<longleftrightarrow> (\<exists>x \<in> set (user_chain e). is_type x)"

section \<open>Users and constants\<close>

record User =
  usr_UserId :: uuid
  usr_UserName :: string
  usr_Email :: string
  usr_MaxDocuments :: int32
  usr_HashedPassword :: string
  usr_IsActive :: bool
  usr_CreatedAt :: time
  usr_LastModified :: time

definition MinUsernameLength :: nat where "MinUsernameLength = 3"
definition MinPasswordLength :: nat where "MinPasswordLength = 8"
definition DefaultMaxDocuments :: int32 where "DefaultMaxDocuments = 100"

section \<open>bcrypt\<close>

text \<open>What one operation's calls of the package return: hashing is salted, so two operations
  may hash differently, but they compare alike.\<close>

record bcrypt =
  GenerateFromPassword :: "string \<Rightarrow> string option"
  CompareHashAndPassword :: "string \<Rightarrow> string \<Rightarrow> bool"

text \<open>Documented behaviour: passwords above 72 bytes are refused; a hash is a string of 60
  ASCII characters; it compares equal to its password. A password is plain when it has at
  most 72 bytes, none of them zero; bcrypt tells plain passwords apart.\<close>

definition plain_password :: "string \<Rightarrow> bool" where
  "plain_password p \<longleftrightarrow> length p \<le> 72 \<and> CHR 0x00 \<notin> set p"

definition bcrypt_ok :: "bcrypt \<Rightarrow> bool" where
  "bcrypt_ok B \<longleftrightarrow>
     (\<forall>p. GenerateFromPassword B p = None \<longleftrightarrow> 72 < length p) \<and>
     (\<forall>p h. GenerateFromPassword B p = Some h \<longrightarrow> length h \<le> 255) \<and>
     (\<forall>p h. GenerateFromPassword B p = Some h \<longrightarrow> CompareHashAndPassword B h p) \<and>
     (\<forall>p q h. GenerateFromPassword B p = Some h \<longrightarrow> plain_password p \<longrightarrow> plain_password q \<longrightarrow>
        CompareHashAndPassword B h q \<longrightarrow> q = p)"

lemma bcrypt_okD:
  assumes "bcrypt_ok B" "GenerateFromPassword B p = Some h"
  shows "length p \<le> 72" "length h \<le> 255" "CompareHashAndPassword B h p"
    "plain_password p \<Longrightarrow> plain_password q \<Longrightarrow> CompareHashAndPassword B h q \<longleftrightarrow> q = p"
  using assms by (auto simp: bcrypt_ok_def) (metis not_le option.distinct(1))

text \<open>A function that satisfies the hypotheses, for the witnesses.\<close>

definition demo_bcrypt :: bcrypt where
  "demo_bcrypt = \<lparr> GenerateFromPassword = (\<lambda>p. if length p \<le> 72 then Some (CHR ''$'' # p) else None),
     CompareHashAndPassword = (\<lambda>h q. h = CHR ''$'' # q) \<rparr>"

lemma demo_bcrypt_ok: "bcrypt_ok demo_bcrypt"
  by (auto simp: bcrypt_ok_def demo_bcrypt_def)

section \<open>Code points\<close>

text \<open>\<^verbatim>\<open>VARCHAR(n)\<close> counts the characters of the UTF-8 text: the bytes that are not
  continuation bytes.\<close>

definition utf8_length :: "string \<Rightarrow> nat" where
  "utf8_length s = length (filter (\<lambda>b. \<not> (128 \<le> (of_char b :: nat) \<and> (of_char b :: nat) < 192)) s)"

lemma utf8_length_le: "utf8_length s \<le> length s"
  by (simp add: utf8_length_def)

end
