(* ===== verification/User_Repository.thy ===== *)
theory User_Repository
  imports User_Types
begin

text \<open>
  The users table (\<^verbatim>\<open>user_service/internal/repository/sqlc\<close>: \<^verbatim>\<open>sql/schema.sql\<close> and the
  generated \<^verbatim>\<open>db/query.sql.go\<close>, \<^verbatim>\<open>db/models.go\<close>) and the repository over it
  (\<^verbatim>\<open>internal/repository/user_repository.go\<close>). Every operation implements a function on the
  table, its specification \<open>uspec_*\<close>, under every fault schedule.
\<close>

section \<open>The table and its statements\<close>

record users_row =
  u_id :: uuid
  u_user_name :: string
  u_email :: string
  u_max_documents :: "int32 option"
  u_hashed_password :: string
  u_is_active :: "bool option"
  u_created_at :: "time option"
  u_last_modified :: "time option"

type_synonym user_db = "users_row list"
type_synonym 'a user_stmt = "user_db \<Rightarrow> (pgx_err + 'a) \<times> user_db"
type_synonym 'a user_op = "(user_db, user_err + 'a) db_op"

abbreviation uret :: "'a \<Rightarrow> 'a user_op" where "uret x \<equiv> State_Monad.return (Inr x)"
abbreviation ufail :: "user_err \<Rightarrow> 'a user_op" where "ufail e \<equiv> State_Monad.return (Inl e)"

abbreviation string_data_right_truncation :: string where "string_data_right_truncation \<equiv> ''22001''"

text \<open>Primary key and the two unique columns.\<close>

definition users_ok :: "user_db \<Rightarrow> bool" where
  "users_ok d \<longleftrightarrow> distinct (map u_id d) \<and> distinct (map u_user_name d) \<and> distinct (map u_email d)"

text \<open>A text is taken to be one PostgreSQL accepts: UTF-8 without NUL bytes.\<close>

definition usql_CreateUser ::
  "time \<Rightarrow> uuid \<Rightarrow> string \<Rightarrow> string \<Rightarrow> int32 \<Rightarrow> string \<Rightarrow> unit user_stmt" where
  [sql_defs]: "usql_CreateUser now i name email maxDocuments hash d =
     (if utf8_length name > 32 \<or> utf8_length hash > 255
      then (Inl (PgError string_data_right_truncation), d)
      else if (\<exists>r \<in> set d. u_id r = i \<or> u_user_name r = name \<or> u_email r = email)
      then (Inl (PgError unique_violation), d)
      else (Inr (), d @ [\<lparr> u_id = i, u_user_name = name, u_email = email, u_max_documents = Some maxDocuments,
        u_hashed_password = hash, u_is_active = Some True, u_created_at = Some now, u_last_modified = Some now \<rparr>]))"

definition select_one :: "(users_row \<Rightarrow> bool) \<Rightarrow> users_row user_stmt" where
  "select_one P d = (case find P d of None \<Rightarrow> Inl ErrNoRows | Some r \<Rightarrow> Inr r, d)"

definition usql_GetUserById :: "uuid \<Rightarrow> users_row user_stmt" where
  [sql_defs]: "usql_GetUserById i = select_one (\<lambda>r. u_id r = i)"

definition usql_GetUserByEmail :: "string \<Rightarrow> users_row user_stmt" where
  [sql_defs]: "usql_GetUserByEmail email = select_one (\<lambda>r. u_email r = email)"

text \<open>\<^verbatim>\<open>FOR UPDATE\<close> locks the row for the transaction, which matters to requests that run at the same time
  (theory \<open>User_Interleaving\<close>).\<close>

definition usql_GetUserForUpdate :: "uuid \<Rightarrow> users_row user_stmt" where
  [sql_defs]: "usql_GetUserForUpdate i = select_one (\<lambda>r. u_id r = i)"

definition usql_GetHashedPassword :: "string \<Rightarrow> (uuid \<times> string) user_stmt" where
  [sql_defs]: "usql_GetHashedPassword name d =
     (case find (\<lambda>r. u_user_name r = name) d of
        None \<Rightarrow> Inl ErrNoRows | Some r \<Rightarrow> Inr (u_id r, u_hashed_password r), d)"

text \<open>\<^verbatim>\<open>UPDATE ... WHERE id = $1 RETURNING id\<close>, scanned as one row.\<close>

definition update_one :: "uuid \<Rightarrow> (users_row \<Rightarrow> users_row) \<Rightarrow> uuid user_stmt" where
  "update_one i f d = (if \<exists>r \<in> set d. u_id r = i then Inr i else Inl ErrNoRows,
     map (\<lambda>r. if u_id r = i then f r else r) d)"

definition usql_DeactivateUser :: "time \<Rightarrow> uuid \<Rightarrow> uuid user_stmt" where
  [sql_defs]: "usql_DeactivateUser now i =
     update_one i (\<lambda>r. r\<lparr>u_is_active := Some False, u_last_modified := Some now\<rparr>)"

definition usql_ChangeUserPassword :: "time \<Rightarrow> string \<Rightarrow> uuid \<Rightarrow> uuid user_stmt" where
  [sql_defs]: "usql_ChangeUserPassword now hash i d =
     (if utf8_length hash > 255 then (Inl (PgError string_data_right_truncation), d)
      else update_one i (\<lambda>r. r\<lparr>u_hashed_password := hash, u_last_modified := Some now\<rparr>) d)"

section \<open>The repository (user_repository.go)\<close>

abbreviation urepo_impl :: "pgx_err \<Rightarrow> user_err" where "urepo_impl e \<equiv> URepoImplError (Some (UPgx e))"

definition u_not_found_or_impl :: "pgx_err \<Rightarrow> user_err" where
  "u_not_found_or_impl e = (if e = ErrNoRows then UNotFoundError else urepo_impl e)"

definition u_conflict_or_impl :: "pgx_err \<Rightarrow> user_err" where
  "u_conflict_or_impl e = (case e of
      PgError code \<Rightarrow> if code = ''23505'' then UUniqueConflictError (Some (UPgx e)) else urepo_impl e
    | _ \<Rightarrow> urepo_impl e)"

definition serviceToRepository :: "User \<Rightarrow> users_row" where
  "serviceToRepository user = \<lparr> u_id = usr_UserId user, u_user_name = usr_UserName user, u_email = usr_Email user,
     u_max_documents = Some (usr_MaxDocuments user), u_hashed_password = usr_HashedPassword user,
     u_is_active = Some (usr_IsActive user), u_created_at = Some (usr_CreatedAt user),
     u_last_modified = Some (usr_LastModified user) \<rparr>"

text \<open>A NULL column reads as the zero value of its Go type.\<close>

definition go_time_zero :: time where "go_time_zero = - 62135596800 * 1000000000"

definition valid_or :: "'a \<Rightarrow> 'a option \<Rightarrow> 'a" where
  "valid_or zero v = (case v of None \<Rightarrow> zero | Some x \<Rightarrow> x)"

definition repositoryToService :: "users_row \<Rightarrow> User" where
  "repositoryToService r = \<lparr> usr_UserId = u_id r, usr_UserName = u_user_name r, usr_Email = u_email r,
     usr_MaxDocuments = valid_or 0 (u_max_documents r), usr_HashedPassword = u_hashed_password r,
     usr_IsActive = valid_or False (u_is_active r), usr_CreatedAt = valid_or go_time_zero (u_created_at r),
     usr_LastModified = valid_or go_time_zero (u_last_modified r) \<rparr>"

definition hash_password :: "bcrypt \<Rightarrow> string \<Rightarrow> user_err + string" where
  "hash_password B p = (case GenerateFromPassword B p of None \<Rightarrow> Inl UBcrypt | Some h \<Rightarrow> Inr h)"

definition urepo_CreateUser ::
  "env \<Rightarrow> bcrypt \<Rightarrow> string \<Rightarrow> string \<Rightarrow> int32 \<Rightarrow> string \<Rightarrow> uuid user_op" where
  "urepo_CreateUser E B userName email maxDocuments password =
     check (State_Monad.return (hash_password B password)) (\<lambda>e. URepoImplError (Some e)) (\<lambda>hashedPassword.
     let userId = uuid_New E in
     check (driver (usql_CreateUser (db_NOW E) userId userName email maxDocuments hashedPassword))
       u_conflict_or_impl (\<lambda>_.
     uret userId))"

definition urepo_GetUserById :: "uuid \<Rightarrow> User user_op" where
  "urepo_GetUserById userId =
     check (driver (usql_GetUserById userId)) u_not_found_or_impl (\<lambda>user. uret (repositoryToService user))"

definition urepo_GetUserByEmail :: "string \<Rightarrow> User user_op" where
  "urepo_GetUserByEmail userEmail =
     check (driver (usql_GetUserByEmail userEmail)) u_not_found_or_impl (\<lambda>user. uret (repositoryToService user))"

definition urepo_DeactivateUser :: "env \<Rightarrow> uuid \<Rightarrow> unit user_op" where
  "urepo_DeactivateUser E userId =
     check (driver (usql_DeactivateUser (db_NOW E) userId)) u_not_found_or_impl (\<lambda>_. uret ())"

definition urepo_ModifyPassword :: "env \<Rightarrow> bcrypt \<Rightarrow> uuid \<Rightarrow> string \<Rightarrow> string \<Rightarrow> unit user_op" where
  "urepo_ModifyPassword E B userId oldPassword newPassword =
     check Begin urepo_impl (\<lambda>_.
     defer_Rollback (
       check (driver (usql_GetUserForUpdate userId)) u_not_found_or_impl (\<lambda>user.
       if \<not> CompareHashAndPassword B (u_hashed_password user) oldPassword
       then ufail (UPasswordMismatchError UBcrypt)
       else check (State_Monad.return (hash_password B newPassword)) (\<lambda>e. URepoImplError (Some e)) (\<lambda>newHashedPassword.
         check (driver (usql_ChangeUserPassword (db_NOW E) newHashedPassword (u_id user))) urepo_impl (\<lambda>_.
         check Commit urepo_impl (\<lambda>_.
         uret ()))))))"

definition urepo_ValidatePassword :: "bcrypt \<Rightarrow> string \<Rightarrow> string \<Rightarrow> (uuid \<times> bool) user_op" where
  "urepo_ValidatePassword B userName password =
     check (driver (usql_GetHashedPassword userName)) u_not_found_or_impl (\<lambda>row.
     if \<not> CompareHashAndPassword B (snd row) password then uret (uuid_Nil, False)
     else uret (fst row, True))"

section \<open>Specifications\<close>

definition uspec_CreateUser ::
  "env \<Rightarrow> bcrypt \<Rightarrow> string \<Rightarrow> string \<Rightarrow> int32 \<Rightarrow> string \<Rightarrow> user_db \<Rightarrow> (user_err + uuid) \<times> user_db" where
  "uspec_CreateUser E B name email maxDocuments password d =
     (case GenerateFromPassword B password of
        None \<Rightarrow> (Inl (URepoImplError (Some UBcrypt)), d)
      | Some h \<Rightarrow>
          if utf8_length name > 32 \<or> utf8_length h > 255
          then (Inl (urepo_impl (PgError string_data_right_truncation)), d)
          else if (\<exists>r \<in> set d. u_id r = uuid_New E \<or> u_user_name r = name \<or> u_email r = email)
          then (Inl (UUniqueConflictError (Some (UPgx (PgError unique_violation)))), d)
          else (Inr (uuid_New E), d @ [serviceToRepository \<lparr> usr_UserId = uuid_New E, usr_UserName = name,
            usr_Email = email, usr_MaxDocuments = maxDocuments, usr_HashedPassword = h, usr_IsActive = True,
            usr_CreatedAt = db_NOW E, usr_LastModified = db_NOW E \<rparr>]))"

definition uspec_get :: "(users_row \<Rightarrow> bool) \<Rightarrow> user_db \<Rightarrow> (user_err + User) \<times> user_db" where
  "uspec_get P d = (case find P d of None \<Rightarrow> Inl UNotFoundError | Some r \<Rightarrow> Inr (repositoryToService r), d)"

definition set_user :: "uuid \<Rightarrow> (users_row \<Rightarrow> users_row) \<Rightarrow> user_db \<Rightarrow> user_db" where
  "set_user i f d = map (\<lambda>r. if u_id r = i then f r else r) d"

definition uspec_DeactivateUser :: "env \<Rightarrow> uuid \<Rightarrow> user_db \<Rightarrow> (user_err + unit) \<times> user_db" where
  "uspec_DeactivateUser E i d =
     (if \<exists>r \<in> set d. u_id r = i
      then (Inr (), set_user i (\<lambda>r. r\<lparr>u_is_active := Some False, u_last_modified := Some (db_NOW E)\<rparr>) d)
      else (Inl UNotFoundError, d))"

definition uspec_ModifyPassword ::
  "env \<Rightarrow> bcrypt \<Rightarrow> uuid \<Rightarrow> string \<Rightarrow> string \<Rightarrow> user_db \<Rightarrow> (user_err + unit) \<times> user_db" where
  "uspec_ModifyPassword E B i oldPassword newPassword d =
     (case find (\<lambda>r. u_id r = i) d of
        None \<Rightarrow> (Inl UNotFoundError, d)
      | Some r \<Rightarrow>
          if \<not> CompareHashAndPassword B (u_hashed_password r) oldPassword
          then (Inl (UPasswordMismatchError UBcrypt), d)
          else (case GenerateFromPassword B newPassword of
              None \<Rightarrow> (Inl (URepoImplError (Some UBcrypt)), d)
            | Some h \<Rightarrow>
                if utf8_length h > 255 then (Inl (urepo_impl (PgError string_data_right_truncation)), d)
                else (Inr (), set_user i (\<lambda>r. r\<lparr>u_hashed_password := h, u_last_modified := Some (db_NOW E)\<rparr>) d)))"

definition uspec_ValidatePassword ::
  "bcrypt \<Rightarrow> string \<Rightarrow> string \<Rightarrow> user_db \<Rightarrow> (user_err + uuid \<times> bool) \<times> user_db" where
  "uspec_ValidatePassword B name password d =
     (case find (\<lambda>r. u_user_name r = name) d of
        None \<Rightarrow> Inl UNotFoundError
      | Some r \<Rightarrow> if CompareHashAndPassword B (u_hashed_password r) password
          then Inr (u_id r, True) else Inr (uuid_Nil, False), d)"

section \<open>Every operation implements its specification\<close>

definition u_outage :: "user_err \<Rightarrow> bool" where
  "u_outage e \<longleftrightarrow> (\<exists>x. UPgx (outage_err x) \<in> set (user_chain e))"

lemma u_outage_wrappers:
  "is_outage e \<Longrightarrow> u_outage (urepo_impl e)"
  "is_outage e \<Longrightarrow> u_outage (u_not_found_or_impl e)"
  "is_outage e \<Longrightarrow> u_outage (u_conflict_or_impl e)"
  "u_outage f \<Longrightarrow> u_outage (URepoImplError (Some f))"
  by (auto simp: u_outage_def is_outage_def u_not_found_or_impl_def u_conflict_or_impl_def split: pgx_err.splits)

lemma user_selects:
  "stmt_reads (usql_GetUserById i)" "stmt_reads (usql_GetUserByEmail email)"
  "stmt_reads (usql_GetUserForUpdate i)" "stmt_reads (usql_GetHashedPassword name)"
  by (simp_all add: stmt_reads_def sql_defs select_one_def)

lemma users_ok_update:
  assumes "users_ok d" "\<And>r. u_id (f r) = u_id r" "\<And>r. u_user_name (f r) = u_user_name r" "\<And>r. u_email (f r) = u_email r"
  shows "users_ok (map (\<lambda>r. if u_id r = i then f r else r) d)"
proof -
  let ?d = "map (\<lambda>r. if u_id r = i then f r else r) d"
  have "map u_id ?d = map u_id d" "map u_user_name ?d = map u_user_name d" "map u_email ?d = map u_email d"
    using assms(2-4) by simp_all
  then show ?thesis using assms(1) by (simp add: users_ok_def del: map_map)
qed

lemma user_stmt_keeps:
  "stmt_keeps users_ok (usql_CreateUser now i name email n h)"
  "stmt_keeps users_ok (usql_DeactivateUser now i)"
  "stmt_keeps users_ok (usql_ChangeUserPassword now h i)"
  by (auto simp: stmt_keeps_def sql_defs update_one_def users_ok_update) (auto simp: users_ok_def)

lemma stmt_keeps_select: "stmt_reads stmt \<Longrightarrow> stmt_keeps ok stmt"
  by (simp add: stmt_reads_def stmt_keeps_def)

lemmas user_keeps = keeps_intros user_stmt_keeps stmt_keeps_select user_selects

lemma keeps_users:
  "keeps users_ok (urepo_CreateUser E B name email n p)" "keeps users_ok (urepo_GetUserById i)"
  "keeps users_ok (urepo_GetUserByEmail email)" "keeps users_ok (urepo_DeactivateUser E i)"
  "keeps users_ok (urepo_ModifyPassword E B i p q)" "keeps users_ok (urepo_ValidatePassword B name p)"
  unfolding urepo_CreateUser_def urepo_GetUserById_def urepo_GetUserByEmail_def urepo_DeactivateUser_def
    urepo_ModifyPassword_def urepo_ValidatePassword_def Let_def
  by (intro user_keeps)+

lemma rest_check_return:
  "(\<And>x. r = Inr x \<Longrightarrow> rest_ok bad (k x)) \<Longrightarrow> rest_ok bad (check (State_Monad.return r) h k)"
  by (cases r) (simp_all add: check_def rest_step step_return)

lemma rest_if: "(b \<Longrightarrow> rest_ok bad m) \<Longrightarrow> (\<not> b \<Longrightarrow> rest_ok bad n) \<Longrightarrow> rest_ok bad (if b then m else n)"
  by simp

lemma rest_return: "rest_ok bad (State_Monad.return r)"
  by (rule rest_step [OF step_return])

lemmas user_atomic = atomic_intros atomic_transaction atomic_select user_selects
  rest_Commit rest_statement rest_check_return rest_if rest_return u_outage_wrappers

lemma atomic_GetUserById: "atomic u_outage (urepo_GetUserById i)"
  unfolding urepo_GetUserById_def by (intro user_atomic)

lemma atomic_GetUserByEmail: "atomic u_outage (urepo_GetUserByEmail email)"
  unfolding urepo_GetUserByEmail_def by (intro user_atomic)

lemma atomic_ModifyPassword: "atomic u_outage (urepo_ModifyPassword E B i p q)"
  unfolding urepo_ModifyPassword_def by (intro user_atomic)

lemma atomic_ValidatePassword: "atomic u_outage (urepo_ValidatePassword B name p)"
  unfolding urepo_ValidatePassword_def by (intro user_atomic)

lemma atomic_CreateUser: "atomic u_outage (urepo_CreateUser E B name email n p)"
  unfolding urepo_CreateUser_def Let_def
  by (intro atomic_check_return atomic_statement returns_return u_outage_wrappers)

lemma atomic_DeactivateUser: "atomic u_outage (urepo_DeactivateUser E i)"
  unfolding urepo_DeactivateUser_def by (intro atomic_statement returns_return u_outage_wrappers)

lemma implements_CreateUser:
  "implements u_outage users_ok (urepo_CreateUser E B name email n p) (uspec_CreateUser E B name email n p)"
  by (rule implementsI [OF atomic_CreateUser keeps_users(1)])
    (auto simp: wp_run urepo_CreateUser_def uspec_CreateUser_def healthy_simps sql_defs hash_password_def
      u_conflict_or_impl_def serviceToRepository_def Let_def split: option.splits)

lemma implements_GetUserById:
  "implements u_outage users_ok (urepo_GetUserById i) (uspec_get (\<lambda>r. u_id r = i))"
  by (rule implementsI [OF atomic_GetUserById keeps_users(2)])
    (auto simp: wp_run urepo_GetUserById_def uspec_get_def healthy_simps sql_defs select_one_def
      u_not_found_or_impl_def split: option.splits)

lemma implements_GetUserByEmail:
  "implements u_outage users_ok (urepo_GetUserByEmail email) (uspec_get (\<lambda>r. u_email r = email))"
  by (rule implementsI [OF atomic_GetUserByEmail keeps_users(3)])
    (auto simp: wp_run urepo_GetUserByEmail_def uspec_get_def healthy_simps sql_defs select_one_def
      u_not_found_or_impl_def split: option.splits)

lemma set_user_absent: "\<not> (\<exists>r \<in> set d. u_id r = i) \<Longrightarrow> map (\<lambda>r. if u_id r = i then f r else r) d = d"
  by (rule map_idI) auto

lemma implements_DeactivateUser:
  "implements u_outage users_ok (urepo_DeactivateUser E i) (uspec_DeactivateUser E i)"
  by (rule implementsI [OF atomic_DeactivateUser keeps_users(4)])
    (auto simp: wp_run urepo_DeactivateUser_def uspec_DeactivateUser_def healthy_simps sql_defs update_one_def
      u_not_found_or_impl_def set_user_def set_user_absent)

lemma implements_ValidatePassword:
  "implements u_outage users_ok (urepo_ValidatePassword B name p) (uspec_ValidatePassword B name p)"
  by (rule implementsI [OF atomic_ValidatePassword keeps_users(6)])
    (auto simp: wp_run urepo_ValidatePassword_def uspec_ValidatePassword_def healthy_simps sql_defs
      u_not_found_or_impl_def split: option.splits)

lemma implements_ModifyPassword:
  "implements u_outage users_ok (urepo_ModifyPassword E B i p q) (uspec_ModifyPassword E B i p q)"
proof (rule implementsI [OF atomic_ModifyPassword keeps_users(5)], goal_cases)
  case (1 c)
  show ?case
  proof (cases "find (\<lambda>r. u_id r = i) (tables c)")
    case (Some r)
    then have "u_id r = i" "\<exists>r \<in> set (tables c). u_id r = i" by (auto simp: find_Some_iff)
    with 1 Some show ?thesis
      by (auto simp: wp_run urepo_ModifyPassword_def uspec_ModifyPassword_def healthy_simps sql_defs select_one_def
          update_one_def hash_password_def set_user_def split: option.splits)
  qed (use 1 in \<open>simp add: wp_run urepo_ModifyPassword_def uspec_ModifyPassword_def healthy_simps sql_defs select_one_def
      u_not_found_or_impl_def\<close>)
qed

end
