(* ===== verification/User_Service.thy ===== *)
theory User_Service
  imports User_Repository
begin

text \<open>
  \<^verbatim>\<open>user_service/internal/service/user_service.go\<close>: the \<^verbatim>\<open>UserRepository\<close> interface as a record
  of operations, the methods of \<^verbatim>\<open>UserService\<close> over an arbitrary repository, the contract of the
  interface as a locale, and what the service guarantees about accounts and passwords. The
  calls of the logger have no effect on the result and are left out.
\<close>

section \<open>The repository interface and the service\<close>

record UserRepository =
  ur_CreateUser :: "env \<Rightarrow> bcrypt \<Rightarrow> string \<Rightarrow> string \<Rightarrow> int32 \<Rightarrow> string \<Rightarrow> uuid user_op"
  ur_GetUserById :: "uuid \<Rightarrow> User user_op"
  ur_GetUserByEmail :: "string \<Rightarrow> User user_op"
  ur_DeactivateUser :: "env \<Rightarrow> uuid \<Rightarrow> unit user_op"
  ur_ModifyPassword :: "env \<Rightarrow> bcrypt \<Rightarrow> uuid \<Rightarrow> string \<Rightarrow> string \<Rightarrow> unit user_op"
  ur_ValidatePassword :: "bcrypt \<Rightarrow> string \<Rightarrow> string \<Rightarrow> (uuid \<times> bool) user_op"

definition pg_user_repository :: UserRepository where
  "pg_user_repository = \<lparr>
     ur_CreateUser = urepo_CreateUser, ur_GetUserById = urepo_GetUserById,
     ur_GetUserByEmail = urepo_GetUserByEmail, ur_DeactivateUser = urepo_DeactivateUser,
     ur_ModifyPassword = urepo_ModifyPassword, ur_ValidatePassword = urepo_ValidatePassword \<rparr>"

definition usvc_CreateUser ::
  "UserRepository \<Rightarrow> env \<Rightarrow> bcrypt \<Rightarrow> string \<Rightarrow> string \<Rightarrow> int32 option \<Rightarrow> string \<Rightarrow> uuid user_op" where
  "usvc_CreateUser repo E B userName email maxDocuments password =
     (if length userName < MinUsernameLength then ufail (UInvalidError None)
      else if length password < MinPasswordLength then ufail (UInvalidError None)
      else let resolvedMaxDocuments = (case maxDocuments of None \<Rightarrow> DefaultMaxDocuments | Some n \<Rightarrow> n) in
        check (ur_CreateUser repo E B userName email resolvedMaxDocuments password) id uret)"

definition usvc_GetUser :: "UserRepository \<Rightarrow> uuid \<Rightarrow> User user_op" where
  "usvc_GetUser repo userId = check (ur_GetUserById repo userId) id uret"

definition usvc_DeactivateUser :: "UserRepository \<Rightarrow> env \<Rightarrow> uuid \<Rightarrow> unit user_op" where
  "usvc_DeactivateUser repo E userId = check (ur_DeactivateUser repo E userId) id uret"

definition usvc_ChangePassword ::
  "UserRepository \<Rightarrow> env \<Rightarrow> bcrypt \<Rightarrow> uuid \<Rightarrow> string \<Rightarrow> string \<Rightarrow> unit user_op" where
  "usvc_ChangePassword repo E B userId oldPassword newPassword =
     check (ur_ModifyPassword repo E B userId oldPassword newPassword) id uret"

definition usvc_ValidatePassword ::
  "UserRepository \<Rightarrow> bcrypt \<Rightarrow> string \<Rightarrow> string \<Rightarrow> (uuid \<times> bool) user_op" where
  "usvc_ValidatePassword repo B userName password =
     check (ur_ValidatePassword repo B userName password) id uret"

text \<open>The state-changing requests and the databases they can produce.\<close>

datatype user_request =
    Req_CreateUser bcrypt string string "int32 option" string
  | Req_DeactivateUser uuid
  | Req_ChangePassword bcrypt uuid string string

fun usvc_request :: "UserRepository \<Rightarrow> env \<Rightarrow> user_request \<Rightarrow> uuid option user_op" where
  "usvc_request repo E (Req_CreateUser B name email n p) =
     check (usvc_CreateUser repo E B name email n p) id (\<lambda>i. uret (Some i))"
| "usvc_request repo E (Req_DeactivateUser i) = check (usvc_DeactivateUser repo E i) id (\<lambda>_. uret None)"
| "usvc_request repo E (Req_ChangePassword B i p q) =
     check (usvc_ChangePassword repo E B i p q) id (\<lambda>_. uret None)"

inductive user_reachable :: "user_db \<Rightarrow> bool" where
  empty: "user_reachable []"
| step: "user_reachable d \<Longrightarrow>
    run_state (usvc_request pg_user_repository E req) \<lparr> tables = d, snapshot = None, faults = fs \<rparr> = (r, c') \<Longrightarrow>
    user_reachable (tables c')"

text \<open>Sample accounts for the witnesses.\<close>

definition demo_users :: "user_db conn" where
  "demo_users = \<lparr> tables = [serviceToRepository \<lparr> usr_UserId = 7, usr_UserName = ''alice'', usr_Email = ''a@reed'',
     usr_MaxDocuments = 100, usr_HashedPassword = ''$old-secret'', usr_IsActive = True, usr_CreatedAt = 10,
     usr_LastModified = 10 \<rparr>], snapshot = None, faults = [] \<rparr>"

definition demo_env_users :: env where
  "demo_env_users = concrete_env 9 50"

section \<open>The contract of the repository\<close>

lemma check_id_uret [simp]: "check m id uret = m"
proof -
  have "run_state (check m id uret) c = run_state m c" for c
    by (simp add: run_check split: prod.splits sum.splits)
  then show ?thesis by (metis State_Monad.state.expand ext)
qed

text \<open>Four of the methods hand the repository's reply on.\<close>

lemma usvc_delegates:
  "usvc_GetUser repo i = ur_GetUserById repo i"
  "usvc_DeactivateUser repo E i = ur_DeactivateUser repo E i"
  "usvc_ChangePassword repo E B i p q = ur_ModifyPassword repo E B i p q"
  "usvc_ValidatePassword repo B name p = ur_ValidatePassword repo B name p"
  unfolding usvc_GetUser_def usvc_DeactivateUser_def usvc_ChangePassword_def usvc_ValidatePassword_def
  by (rule check_id_uret)+

locale user_repository =
  fixes repo :: UserRepository
  assumes CreateUser_contract:
      "implements u_outage users_ok (ur_CreateUser repo E B name email n p) (uspec_CreateUser E B name email n p)"
    and GetUserById_contract:
      "implements u_outage users_ok (ur_GetUserById repo i) (uspec_get (\<lambda>r. u_id r = i))"
    and GetUserByEmail_contract:
      "implements u_outage users_ok (ur_GetUserByEmail repo email) (uspec_get (\<lambda>r. u_email r = email))"
    and DeactivateUser_contract:
      "implements u_outage users_ok (ur_DeactivateUser repo E i) (uspec_DeactivateUser E i)"
    and ModifyPassword_contract:
      "implements u_outage users_ok (ur_ModifyPassword repo E B i p q) (uspec_ModifyPassword E B i p q)"
    and ValidatePassword_contract:
      "implements u_outage users_ok (ur_ValidatePassword repo B name p) (uspec_ValidatePassword B name p)"
begin

text \<open>A new account can log in with its password and with no other.\<close>

lemma create_validate:
  assumes B: "bcrypt_ok B" "CompareHashAndPassword B' = CompareHashAndPassword B"
    and c: "snapshot c = None" "users_ok (tables c)"
    and run: "run_state (usvc_CreateUser repo E B name email n p) c = (Inr i, c')" "faults c' = []"
    and plain: "plain_password p" "plain_password q"
  shows "fst (run_state (usvc_ValidatePassword repo B' name q) c') =
    Inr (if q = p then (i, True) else (uuid_Nil, False))"
proof -
  let ?n = "case n of None \<Rightarrow> DefaultMaxDocuments | Some k \<Rightarrow> k"
  have "run_state (ur_CreateUser repo E B name email ?n p) c = (Inr i, c')"
    using run(1) by (simp add: usvc_CreateUser_def Let_def split: if_splits)
  note C = implements_success [OF CreateUser_contract this c]
  obtain h where h: "GenerateFromPassword B p = Some h"
    using C(1) by (auto simp: uspec_CreateUser_def split: option.splits)
  have row: "tables c' = tables c @ [serviceToRepository \<lparr> usr_UserId = i, usr_UserName = name,
      usr_Email = email, usr_MaxDocuments = ?n, usr_HashedPassword = h, usr_IsActive = True,
      usr_CreatedAt = db_NOW E, usr_LastModified = db_NOW E \<rparr>]"
    and new: "\<forall>r \<in> set (tables c). u_user_name r \<noteq> name"
    using C(1) h by (auto simp: uspec_CreateUser_def split: if_splits)
  show ?thesis
    unfolding usvc_delegates implements_healthy(1) [OF ValidatePassword_contract C(2,3) run(2)]
    using bcrypt_okD(4) [OF B(1) h plain] B(2)
    by (simp add: uspec_ValidatePassword_def row find_append_new [OF new] serviceToRepository_def)
qed

text \<open>A changed password: what the row looked like before, and what it is now.\<close>

lemma change_password:
  assumes c: "snapshot c = None" "users_ok (tables c)"
    and run: "run_state (usvc_ChangePassword repo E B i old new) c = (Inr (), c')"
  obtains r h where "find (\<lambda>r. u_id r = i) (tables c) = Some r"
    "CompareHashAndPassword B (u_hashed_password r) old" "GenerateFromPassword B new = Some h"
    "tables c' = set_user i (\<lambda>r. r\<lparr>u_hashed_password := h, u_last_modified := Some (db_NOW E)\<rparr>) (tables c)"
    "snapshot c' = None" "users_ok (tables c')"
proof -
  have "run_state (ur_ModifyPassword repo E B i old new) c = (Inr (), c')"
    using run by (simp add: usvc_delegates)
  note C = implements_success [OF ModifyPassword_contract this c]
  show thesis
    using C that by (auto simp: uspec_ModifyPassword_def split: option.splits if_splits)
qed

lemma request_keeps:
  assumes "snapshot c = None" "users_ok (tables c)" "run_state (usvc_request repo E req) c = (r, c')"
  shows "users_ok (tables c')"
proof -
  show ?thesis
  proof (cases req)
    case (Req_CreateUser B name email n p)
    then obtain x where "run_state (usvc_CreateUser repo E B name email n p) c = (x, c')"
      using assms(3) by (auto simp: run_check split: prod.splits sum.splits)
    then show ?thesis
      using implementsD(2) [OF CreateUser_contract] assms(1,2)
      by (auto simp: usvc_CreateUser_def Let_def split: if_splits)
  next
    case (Req_DeactivateUser i)
    then obtain x where "run_state (usvc_DeactivateUser repo E i) c = (x, c')"
      using assms(3) by (auto simp: run_check split: prod.splits sum.splits)
    then show ?thesis
      using implementsD(2) [OF DeactivateUser_contract] assms(1,2) by (auto simp: usvc_delegates)
  next
    case (Req_ChangePassword B i p q)
    then obtain x where "run_state (usvc_ChangePassword repo E B i p q) c = (x, c')"
      using assms(3) by (auto simp: run_check split: prod.splits sum.splits)
    then show ?thesis
      using implementsD(2) [OF ModifyPassword_contract] assms(1,2) by (auto simp: usvc_delegates)
  qed
qed

end

text \<open>The row of an identifier is also found under its name, before and after an update.\<close>

lemma find_by_name:
  assumes "users_ok d" "find (\<lambda>r. u_id r = i) d = Some r"
  shows "u_id r = i"
    and "find (\<lambda>s. u_user_name s = u_user_name r)
      (set_user i (\<lambda>r. r\<lparr>u_hashed_password := h, u_last_modified := t\<rparr>) d) =
      Some (r\<lparr>u_hashed_password := h, u_last_modified := t\<rparr>)"
proof -
  show i: "u_id r = i" using assms(2) by (auto simp: find_Some_iff)
  have "r \<in> set d" using assms(2) by (auto simp: find_Some_iff)
  then show "find (\<lambda>s. u_user_name s = u_user_name r)
      (set_user i (\<lambda>r. r\<lparr>u_hashed_password := h, u_last_modified := t\<rparr>) d) =
      Some (r\<lparr>u_hashed_password := h, u_last_modified := t\<rparr>)"
    using assms(1) i by (induction d) (auto simp: set_user_def users_ok_def image_iff)
qed

interpretation pgu: user_repository pg_user_repository
  by unfold_locales
    (simp_all add: pg_user_repository_def implements_CreateUser implements_GetUserById implements_GetUserByEmail
      implements_DeactivateUser implements_ModifyPassword implements_ValidatePassword)

lemma demo_users_ok: "snapshot demo_users = None" "users_ok (tables demo_users)" "faults demo_users = []"
  by (simp_all add: demo_users_def users_ok_def)

section \<open>Properties\<close>

text \<open>C32: in every history of the user service, whatever faults occur, no two accounts share an
  identifier, a user name or an email address.\<close>

theorem users_unique: "user_reachable d \<Longrightarrow> users_ok d"
proof (induction rule: user_reachable.induct)
  case (step d E req fs r c')
  then show ?case using pgu.request_keeps [OF _ _ step.hyps(2)] by simp
qed (simp add: users_ok_def)

theorem users_unique_witness:
  "\<exists>c'. run_state (usvc_request pg_user_repository demo_env_users
       (Req_CreateUser demo_bcrypt ''bob'' ''b@reed'' None ''pass-word'')) \<lparr> tables = [], snapshot = None, faults = [] \<rparr> =
     (Inr (Some 9), c') \<and> users_ok (tables c')"
proof -
  let ?r = "run_state (usvc_request pg_user_repository demo_env_users
       (Req_CreateUser demo_bcrypt ''bob'' ''b@reed'' None ''pass-word'')) \<lparr> tables = [], snapshot = None, faults = [] \<rparr>"
  have "fst ?r = Inr (Some 9)" by code_simp
  then obtain c' where run: "?r = (Inr (Some 9), c')" by (cases ?r) auto
  with users_unique [OF user_reachable.step [OF user_reachable.empty run]] show ?thesis by blast
qed



text \<open>C8: a password changes only for a caller who knows the old one; afterwards the account logs
  in with the new password and refuses every other plain one, the old one included.\<close>

theorem change_then_validate:
  assumes "bcrypt_ok B" "CompareHashAndPassword B' = CompareHashAndPassword B"
    and "snapshot c = None" "users_ok (tables c)"
    and "run_state (usvc_ChangePassword pg_user_repository E B i old new) c = (Inr (), c')" "faults c' = []"
    and "plain_password new" "plain_password q"
  shows "\<exists>r. find (\<lambda>r. u_id r = i) (tables c) = Some r \<and> CompareHashAndPassword B (u_hashed_password r) old \<and>
    fst (run_state (usvc_ValidatePassword pg_user_repository B' (u_user_name r) q) c') =
      Inr (if q = new then (i, True) else (uuid_Nil, False))"
proof -
  obtain r h where r: "find (\<lambda>r. u_id r = i) (tables c) = Some r" "CompareHashAndPassword B (u_hashed_password r) old"
    and h: "GenerateFromPassword B new = Some h"
    and d: "tables c' = set_user i (\<lambda>r. r\<lparr>u_hashed_password := h, u_last_modified := Some (db_NOW E)\<rparr>) (tables c)"
    and c': "snapshot c' = None" "users_ok (tables c')"
    by (rule pgu.change_password [OF assms(3-5)])
  from find_by_name [OF assms(4) r(1)]
  have "find (\<lambda>s. u_user_name s = u_user_name r) (tables c') =
      Some (r\<lparr>u_hashed_password := h, u_last_modified := Some (db_NOW E)\<rparr>)" and "u_id r = i"
    by (simp_all add: d)
  with r bcrypt_okD(4) [OF assms(1) h assms(7,8)] assms(2) show ?thesis
    unfolding usvc_delegates implements_healthy(1) [OF pgu.ValidatePassword_contract c' assms(6)]
    by (simp add: uspec_ValidatePassword_def)
qed

theorem change_then_validate_witness:
  "\<exists>c'. run_state (usvc_ChangePassword pg_user_repository (concrete_env 9 50) demo_bcrypt 7 ''old-secret'' ''new-secret'')
       demo_users = (Inr (), c') \<and>
     fst (run_state (usvc_ValidatePassword pg_user_repository demo_bcrypt ''alice'' ''old-secret'') c') = Inr (uuid_Nil, False)"
proof -
  let ?r = "run_state (usvc_ChangePassword pg_user_repository (concrete_env 9 50) demo_bcrypt 7 ''old-secret'' ''new-secret'')
       demo_users"
  have "fst ?r = Inr ()" "faults (snd ?r) = []" "users_ok (tables demo_users)" by code_simp+
  then obtain c' where run: "?r = (Inr (), c')" "faults c' = []" and ok: "users_ok (tables demo_users)"
    by (cases ?r) auto
  have "plain_password ''old-secret''" "plain_password ''new-secret''" by (simp_all add: plain_password_def)
  from change_then_validate [OF demo_bcrypt_ok refl _ ok run this(2,1)]
  show ?thesis using run(1) by (simp add: demo_users_def serviceToRepository_def)
qed

text \<open>With a wrong old password nothing happens: the answer is the password mismatch and the
  table is unchanged, provided the account exists and the database answers.\<close>

lemma wrong_old_password:
  assumes "snapshot c = None" "users_ok (tables c)" "faults c = []"
    and "find (\<lambda>r. u_id r = i) (tables c) = Some r" "\<not> CompareHashAndPassword B (u_hashed_password r) old"
  shows "fst (run_state (usvc_ChangePassword pg_user_repository E B i old new) c) = Inl (UPasswordMismatchError UBcrypt) \<and>
    tables (snd (run_state (usvc_ChangePassword pg_user_repository E B i old new) c)) = tables c"
  unfolding usvc_delegates implements_healthy [OF pgu.ModifyPassword_contract assms(1-3)]
  using assms(4,5) by (simp add: uspec_ModifyPassword_def)

text \<open>Under every fault schedule a password change touches the row of that user only, and
  changes it completely or not at all.\<close>

lemma change_password_atomic:
  assumes "snapshot c = None" "users_ok (tables c)"
    and "run_state (usvc_ChangePassword pg_user_repository E B i old new) c = (r, c')"
  shows "tables c' = tables c \<or>
    (\<exists>h. GenerateFromPassword B new = Some h \<and>
       tables c' = set_user i (\<lambda>r. r\<lparr>u_hashed_password := h, u_last_modified := Some (db_NOW E)\<rparr>) (tables c))"
  using implementsD(3) [OF pgu.ModifyPassword_contract assms(3) [unfolded usvc_delegates] assms(1,2)]
  by (auto simp: uspec_ModifyPassword_def split: option.splits if_splits)



text \<open>Deactivation is recorded and can be repeated: it succeeds on any account that exists,
  also on an inactive one, and leaves it inactive; on any other identifier it answers not
  found and changes nothing.\<close>

lemma deactivate_user:
  assumes "snapshot c = None" "users_ok (tables c)" "faults c = []"
    and "run_state (usvc_DeactivateUser pg_user_repository E i) c = (r, c')"
  shows "if i \<in> u_id ` set (tables c)
    then r = Inr () \<and> map u_id (tables c') = map u_id (tables c) \<and>
      filter (\<lambda>r. u_id r = i \<and> u_is_active r \<noteq> Some False) (tables c') = [] \<and>
      filter (\<lambda>r. u_id r \<noteq> i) (tables c') = filter (\<lambda>r. u_id r \<noteq> i) (tables c)
    else r = Inl UNotFoundError \<and> tables c' = tables c"
proof -
  note D = implements_healthy [OF pgu.DeactivateUser_contract assms(1-3), of E i]
  have "(r, tables c') = uspec_DeactivateUser E i (tables c)"
    using D assms(4) by (simp add: usvc_delegates prod_eq_iff)
  moreover have "filter (\<lambda>r. u_id r \<noteq> i) (set_user i f d) = filter (\<lambda>r. u_id r \<noteq> i) d"
    if "\<And>r. u_id (f r) = u_id r" for f d
    using that by (induction d) (auto simp: set_user_def)
  ultimately show ?thesis
    by (auto simp: uspec_DeactivateUser_def filter_empty_conv split: if_splits) (auto simp: set_user_def)
qed

text \<open>Deactivation does not stop a login. The password check reads the identifier and the
  hash only, so a deactivated account still passes it.\<close>

lemma inactive_user_validates:
  assumes "snapshot c = None" "users_ok (tables c)" "faults c = []"
    and "find (\<lambda>r. u_user_name r = name) (tables c) = Some r" "u_is_active r = Some False"
    and "CompareHashAndPassword B (u_hashed_password r) p"
  shows "fst (run_state (usvc_ValidatePassword pg_user_repository B name p) c) = Inr (u_id r, True)"
  unfolding usvc_delegates implements_healthy [OF pgu.ValidatePassword_contract assms(1-3)]
  using assms(4,6) by (simp add: uspec_ValidatePassword_def)

end
