(* ===== verification/User_Server.thy ===== *)
theory User_Server
  imports User_Service
begin

text \<open>
  \<^verbatim>\<open>user_service/internal/server/user_server.go\<close>: the gRPC handlers of the user service over
  the messages of \<^verbatim>\<open>api/user.proto\<close>, and the mapping of domain errors to status codes.
\<close>

section \<open>Messages and status\<close>

record pb_User =
  pbu_UserId :: string
  pbu_UserName :: string
  pbu_Email :: string
  pbu_MaxDocuments :: int32

record CreateUserRequest =
  cur_req_UserName :: string
  cur_req_UserEmail :: string
  cur_req_Password :: string
  cur_req_MaxDocuments :: "int32 option"

record ChangeUserPasswordRequest =
  cpr_UserId :: string
  cpr_OldPassword :: string
  cpr_NewPassword :: string

record ValidatePasswordRequest =
  vpr_UserName :: string
  vpr_UserPassword :: string

record ValidatePasswordReply =
  vpy_UserId :: "string option"
  vpy_IsValid :: bool

text \<open>A status with a fixed message (None) or the text of an error.\<close>

datatype user_status = UStatus grpc_code "user_err option"

type_synonym 'a user_rpc = "(user_db, user_status + 'a) db_op"

definition user_serviceToGRPCError :: "user_err \<Rightarrow> user_status" where
  "user_serviceToGRPCError err =
     (if user_errors_As is_UNotFound err then UStatus Code_NotFound (Some err)
      else if user_errors_As is_UUniqueConflict err then UStatus Code_AlreadyExists (Some err)
      else if user_errors_As is_UInvalid err then UStatus Code_InvalidArgument (Some err)
      else if user_errors_As is_UPasswordMismatch err then UStatus Code_PermissionDenied (Some err)
      else UStatus Code_Internal None)"

definition parse_user_id :: "env \<Rightarrow> string \<Rightarrow> user_status + uuid" where
  "parse_user_id E s = (case uuid_Parse E s of None \<Rightarrow> Inl (UStatus Code_InvalidArgument None) | Some u \<Rightarrow> Inr u)"

abbreviation ureply :: "'a \<Rightarrow> 'a user_rpc" where "ureply x \<equiv> State_Monad.return (Inr x)"
abbreviation urefuse :: "'a user_rpc" where "urefuse \<equiv> State_Monad.return (Inl (UStatus Code_InvalidArgument None))"

section \<open>Handlers\<close>

definition urpc_GetUser :: "UserRepository \<Rightarrow> env \<Rightarrow> string \<Rightarrow> pb_User user_rpc" where
  "urpc_GetUser repo E userIdStr =
     check (State_Monad.return (parse_user_id E userIdStr)) id (\<lambda>userId.
     check (usvc_GetUser repo userId) user_serviceToGRPCError (\<lambda>user.
     ureply \<lparr> pbu_UserId = uuid_String E (usr_UserId user), pbu_UserName = usr_UserName user,
              pbu_Email = usr_Email user, pbu_MaxDocuments = usr_MaxDocuments user \<rparr>))"

definition urpc_CreateUser :: "UserRepository \<Rightarrow> env \<Rightarrow> bcrypt \<Rightarrow> CreateUserRequest \<Rightarrow> string user_rpc" where
  "urpc_CreateUser repo E B req =
     (if cur_req_UserName req = [] then urefuse
      else if cur_req_UserEmail req = [] then urefuse
      else if cur_req_Password req = [] then urefuse
      else check (usvc_CreateUser repo E B (cur_req_UserName req) (cur_req_UserEmail req)
             (cur_req_MaxDocuments req) (cur_req_Password req)) user_serviceToGRPCError (\<lambda>userId.
           ureply (uuid_String E userId)))"

definition urpc_DeactivateUser :: "UserRepository \<Rightarrow> env \<Rightarrow> string \<Rightarrow> unit user_rpc" where
  "urpc_DeactivateUser repo E userIdStr =
     check (State_Monad.return (parse_user_id E userIdStr)) id (\<lambda>userId.
     check (usvc_DeactivateUser repo E userId) user_serviceToGRPCError ureply)"

definition urpc_ChangePassword ::
  "UserRepository \<Rightarrow> env \<Rightarrow> bcrypt \<Rightarrow> ChangeUserPasswordRequest \<Rightarrow> unit user_rpc" where
  "urpc_ChangePassword repo E B req =
     (if cpr_OldPassword req = [] then urefuse
      else if cpr_NewPassword req = [] then urefuse
      else check (State_Monad.return (parse_user_id E (cpr_UserId req))) id (\<lambda>userId.
           check (usvc_ChangePassword repo E B userId (cpr_OldPassword req) (cpr_NewPassword req))
             user_serviceToGRPCError ureply))"

definition urpc_ValidatePassword ::
  "UserRepository \<Rightarrow> env \<Rightarrow> bcrypt \<Rightarrow> ValidatePasswordRequest \<Rightarrow> ValidatePasswordReply user_rpc" where
  "urpc_ValidatePassword repo E B req =
     (if vpr_UserPassword req = [] then urefuse
      else if vpr_UserName req = [] then urefuse
      else check (usvc_ValidatePassword repo B (vpr_UserName req) (vpr_UserPassword req))
             user_serviceToGRPCError (\<lambda>(userId, isValid).
           ureply \<lparr> vpy_UserId = Some (uuid_String E userId), vpy_IsValid = isValid \<rparr>))"

section \<open>Properties\<close>

text \<open>The status of every failure the user service can report: not found, conflict, invalid
  input and password mismatch each have their code, everything else is internal with a fixed
  message; a status is internal exactly when none of the four is in the chain.\<close>

lemma user_status_of_error:
  "user_serviceToGRPCError UNotFoundError = UStatus Code_NotFound (Some UNotFoundError) \<and>
   user_serviceToGRPCError (UUniqueConflictError (Some (UPgx e))) =
     UStatus Code_AlreadyExists (Some (UUniqueConflictError (Some (UPgx e)))) \<and>
   user_serviceToGRPCError (UInvalidError None) = UStatus Code_InvalidArgument (Some (UInvalidError None)) \<and>
   user_serviceToGRPCError (UPasswordMismatchError x) = UStatus Code_PermissionDenied (Some (UPasswordMismatchError x)) \<and>
   user_serviceToGRPCError (urepo_impl e) = UStatus Code_Internal None \<and>
   (user_serviceToGRPCError err = UStatus Code_Internal d) =
     (d = None \<and> \<not> user_errors_As is_UNotFound err \<and> \<not> user_errors_As is_UUniqueConflict err \<and>
      \<not> user_errors_As is_UInvalid err \<and> \<not> user_errors_As is_UPasswordMismatch err)"
  by (auto simp: user_serviceToGRPCError_def user_errors_As_def)

text \<open>The login answer of the server: with the right password the identifier of the account in
  its string form and true; with a wrong one the nil identifier and false; for an unknown name
  the status not found; a fault of the database connection is an internal error. The database
  is not changed.\<close>

lemma ValidatePassword_error:
  "run_state (urepo_ValidatePassword B name p) c = (Inl err, c') \<Longrightarrow> err = UNotFoundError \<or> (\<exists>e. err = urepo_impl e)"
  by (auto simp: urepo_ValidatePassword_def run_check u_not_found_or_impl_def split: prod.splits sum.splits pgx_err.splits if_splits)

lemma login_run:
  assumes "snapshot c = None" "users_ok (tables c)"
    and "vpr_UserPassword req \<noteq> []" "vpr_UserName req \<noteq> []"
    and run: "run_state (urpc_ValidatePassword pg_user_repository E B req) c = (q, d)"
  shows "tables d = tables c \<and> (q =
     (case find (\<lambda>r. u_user_name r = vpr_UserName req) (tables c) of
        None \<Rightarrow> Inl (UStatus Code_NotFound (Some UNotFoundError))
      | Some r \<Rightarrow> if CompareHashAndPassword B (u_hashed_password r) (vpr_UserPassword req)
          then Inr \<lparr> vpy_UserId = Some (uuid_String E (u_id r)), vpy_IsValid = True \<rparr>
          else Inr \<lparr> vpy_UserId = Some (uuid_String E uuid_Nil), vpy_IsValid = False \<rparr>) \<or>
    faults c \<noteq> [] \<and> q = Inl (UStatus Code_Internal None))"
proof -
  let ?m = "urepo_ValidatePassword B (vpr_UserName req) (vpr_UserPassword req)"
  obtain r c' where m: "run_state ?m c = (r, c')" by fastforce
  have d: "d = c'" and q: "q = (case r of Inl e \<Rightarrow> Inl (user_serviceToGRPCError e)
      | Inr (u, v) \<Rightarrow> Inr \<lparr> vpy_UserId = Some (uuid_String E u), vpy_IsValid = v \<rparr>)"
    using run m assms(3,4)
    by (auto simp: urpc_ValidatePassword_def usvc_delegates run_check pg_user_repository_def split: sum.splits prod.splits)
  from implementsD(3) [OF implements_ValidatePassword m assms(1,2)]
  consider "(r, tables c') = uspec_ValidatePassword B (vpr_UserName req) (vpr_UserPassword req) (tables c)"
    | e where "faults c \<noteq> []" "r = Inl e" "u_outage e" "tables c' = tables c"
    by (auto simp: failed_def uspec_ValidatePassword_def)
  then show ?thesis
  proof cases
    case 1
    then show ?thesis unfolding d q
      by (auto simp: uspec_ValidatePassword_def user_serviceToGRPCError_def user_errors_As_def split: option.splits)
  next
    case 2
    have "e \<noteq> UNotFoundError" using 2(3) by (auto simp: u_outage_def)
    then obtain x where "e = urepo_impl x" using ValidatePassword_error m unfolding 2(2) by blast
    with 2 show ?thesis unfolding d q by (simp add: user_serviceToGRPCError_def user_errors_As_def)
  qed
qed

end
