(* ===== verification/Clients.thy ===== *)
theory Clients
  imports Doc_Server User_Server
begin

text \<open>
  The client libraries \<^verbatim>\<open>document_service/pkg/client\<close> and \<^verbatim>\<open>user_service/pkg/client\<close>, through
  which the gateway calls the services. A method serialises its arguments into a request,
  calls the stub and reads the reply. The stub runs the handler of the service unless the
  transport fails: a call may never arrive, and the reply of a call that took effect may be
  lost (a deadline that passes is one or the other). A handler that panics takes the server
  down, and the client sees the status its transport reports for a broken connection.
\<close>

section \<open>Calls over gRPC\<close>

datatype delivery = Delivered | Undelivered grpc_code | ReplyLost grpc_code

record transport =
  tr_delivery :: delivery
  tr_crash :: grpc_code     \<comment> \<open>the status of a call whose server died\<close>

text \<open>The error a client method returns: a status, or an error that is not one.\<close>

datatype client_err = RpcError grpc_code | PlainError

definition invoke ::
  "transport \<Rightarrow> ('f \<Rightarrow> grpc_code) \<Rightarrow> ('d, 'f + 'a) db_op \<Rightarrow> ('d, client_err + 'a) db_op" where
  "invoke T code m = (case tr_delivery T of
      Undelivered st \<Rightarrow> State_Monad.return (Inl (RpcError st))
    | Delivered \<Rightarrow> check m (\<lambda>f. RpcError (code f)) (\<lambda>x. State_Monad.return (Inr x))
    | ReplyLost st \<Rightarrow> do { _ \<leftarrow> m; State_Monad.return (Inl (RpcError st)) })"

fun failure_code :: "transport \<Rightarrow> rpc_failure \<Rightarrow> grpc_code" where
  "failure_code T (Status st _) = st"
| "failure_code T Panic = tr_crash T"

fun user_status_code :: "user_status \<Rightarrow> grpc_code" where
  "user_status_code (UStatus st _) = st"

section \<open>The document service client\<close>

record DocumentServiceClient =
  dsc_server :: DocumentRepository   \<comment> \<open>the repository behind the server that is called\<close>
  dsc_conn :: transport

abbreviation call :: "DocumentServiceClient \<Rightarrow> 'a rpc \<Rightarrow> (doc_db, client_err + 'a) db_op" where
  "call cl m \<equiv> invoke (dsc_conn cl) (failure_code (dsc_conn cl)) m"

abbreviation principal_context :: "env \<Rightarrow> uuid \<Rightarrow> pb_ClientContext option" where
  "principal_context E u \<equiv> Some \<lparr> cc_PrincipalId = uuid_String E u, cc_PrincipalType = None \<rparr>"

abbreviation user_context :: "env \<Rightarrow> uuid \<Rightarrow> pb_ClientContext option" where
  "user_context E u \<equiv> Some \<lparr> cc_PrincipalId = uuid_String E u, cc_PrincipalType = Some Principal_USER \<rparr>"

definition client_CreateDocument ::
  "DocumentServiceClient \<Rightarrow> env \<Rightarrow> uuid \<Rightarrow> string option \<Rightarrow> string option \<Rightarrow> (doc_db, client_err + uuid) db_op" where
  "client_CreateDocument cl E ownerUserId documentName documentDescription =
     check (call cl (rpc_CreateDocument (dsc_server cl) E
       \<lparr> cdr_OwnerUserId = uuid_String E ownerUserId, cdr_DocumentName = documentName,
         cdr_DocumentDescription = documentDescription, cdr_ClientContext = principal_context E ownerUserId \<rparr>))
       id (\<lambda>documentIdString.
     State_Monad.return (case uuid_Parse E documentIdString of
         None \<Rightarrow> Inl PlainError
       | Some documentId \<Rightarrow> Inr documentId))"

definition client_GetDocument ::
  "DocumentServiceClient \<Rightarrow> env \<Rightarrow> uuid \<Rightarrow> uuid \<Rightarrow> (doc_db, client_err + pb_Document) db_op" where
  "client_GetDocument cl E documentId principalId =
     call cl (rpc_GetDocument (dsc_server cl) E
       \<lparr> gdr_DocumentId = uuid_String E documentId, gdr_ClientContext = principal_context E principalId \<rparr>)"

definition client_UpdateDocument ::
  "DocumentServiceClient \<Rightarrow> env \<Rightarrow> uuid \<Rightarrow> uuid \<Rightarrow> string option \<Rightarrow> string option \<Rightarrow> (doc_db, client_err + unit) db_op" where
  "client_UpdateDocument cl E documentId principalId name description =
     call cl (rpc_UpdateDocument (dsc_server cl) E
       \<lparr> udr_DocumentId = uuid_String E documentId, udr_Name = name, udr_Description = description,
         udr_ClientContext = principal_context E principalId \<rparr>)"

definition client_DeleteDocument ::
  "DocumentServiceClient \<Rightarrow> env \<Rightarrow> uuid \<Rightarrow> uuid \<Rightarrow> (doc_db, client_err + unit) db_op" where
  "client_DeleteDocument cl E documentId userId =
     call cl (rpc_DeleteDocument (dsc_server cl) E
       \<lparr> ddr_DocumentId = uuid_String E documentId, ddr_ClientContext = user_context E userId \<rparr>)"

definition client_DeleteDocuments ::
  "DocumentServiceClient \<Rightarrow> env \<Rightarrow> uuid list \<Rightarrow> uuid \<Rightarrow> (doc_db, client_err + unit) db_op" where
  "client_DeleteDocuments cl E documentIds userId =
     call cl (rpc_DeleteDocuments (dsc_server cl) E
       \<lparr> dds_DocumentIds = map (uuid_String E) documentIds, dds_ClientContext = user_context E userId \<rparr>)"

definition client_ListDocumentsByPrincipal ::
  "DocumentServiceClient \<Rightarrow> env \<Rightarrow> uuid \<Rightarrow> uuid \<Rightarrow> pb_PermissionLevel list \<Rightarrow> pb_Cursor option \<Rightarrow> int32 option \<Rightarrow>
   (doc_db, client_err + pb_DocumentPermission list \<times> pb_Cursor) db_op" where
  "client_ListDocumentsByPrincipal cl E targetPrincipalId callingPrincipalId permissionFilter cursor pageSize =
     call cl (rpc_ListDocumentsByPrincipal (dsc_server cl) E
       \<lparr> ldr_PrincipalId = uuid_String E targetPrincipalId, ldr_PermissionsFilter = permissionFilter,
         ldr_Cursor = cursor, ldr_PageSize = pageSize, ldr_ClientContext = principal_context E callingPrincipalId \<rparr>)"

definition client_GetPermissionsOfPrincipalOnDocument ::
  "DocumentServiceClient \<Rightarrow> env \<Rightarrow> uuid \<Rightarrow> uuid \<Rightarrow> uuid \<Rightarrow> (doc_db, client_err + pb_Permission) db_op" where
  "client_GetPermissionsOfPrincipalOnDocument cl E documentId targetPrincipalId callingPrincipalId =
     call cl (rpc_GetPermissionsOfPrincipalOnDocument (dsc_server cl) E
       \<lparr> gpr_DocumentId = uuid_String E documentId, gpr_PrincipalId = uuid_String E targetPrincipalId,
         gpr_ClientContext = principal_context E callingPrincipalId \<rparr>)"

definition client_ListPermissionsOnDocument ::
  "DocumentServiceClient \<Rightarrow> env \<Rightarrow> uuid \<Rightarrow> uuid \<Rightarrow> pb_PermissionLevel list \<Rightarrow> pb_Cursor option \<Rightarrow> int32 option \<Rightarrow>
   (doc_db, client_err + pb_Permission list \<times> pb_Cursor) db_op" where
  "client_ListPermissionsOnDocument cl E documentId principalId permissionFilter cursor pageSize =
     call cl (rpc_ListPermissionsOnDocument (dsc_server cl) E
       \<lparr> lpr_DocumentId = uuid_String E documentId, lpr_PermissionsFilter = permissionFilter,
         lpr_Cursor = cursor, lpr_PageSize = pageSize, lpr_ClientContext = principal_context E principalId \<rparr>)"

definition client_CreateGuest ::
  "DocumentServiceClient \<Rightarrow> env \<Rightarrow> uuid \<Rightarrow> uuid \<Rightarrow> pb_PermissionLevel \<Rightarrow> (doc_db, client_err + string) db_op" where
  "client_CreateGuest cl E documentId userId permissionLevel =
     call cl (rpc_CreateGuest (dsc_server cl) E
       \<lparr> cgr_DocumentId = uuid_String E documentId, cgr_PermissionLevel = permissionLevel,
         cgr_ClientContext = user_context E userId \<rparr>)"

definition client_UpsertPermissionUser ::
  "DocumentServiceClient \<Rightarrow> env \<Rightarrow> uuid \<Rightarrow> uuid \<Rightarrow> uuid \<Rightarrow> pb_PermissionLevel \<Rightarrow> (doc_db, client_err + unit) db_op" where
  "client_UpsertPermissionUser cl E targetUserId callingUserId documentId permissionLevel =
     call cl (rpc_UpsertPermissionUser (dsc_server cl) E
       \<lparr> upr_UserId = uuid_String E targetUserId, upr_DocumentId = uuid_String E documentId,
         upr_PermissionLevel = permissionLevel, upr_ClientContext = user_context E callingUserId \<rparr>)"

definition client_UpdatePermissionGuest ::
  "DocumentServiceClient \<Rightarrow> env \<Rightarrow> uuid \<Rightarrow> uuid \<Rightarrow> pb_PermissionLevel \<Rightarrow> (doc_db, client_err + unit) db_op" where
  "client_UpdatePermissionGuest cl E guestId callingUserId permissionLevel =
     call cl (rpc_UpdatePermissionGuest (dsc_server cl) E
       \<lparr> ugr_GuestId = uuid_String E guestId, ugr_PermissionLevel = permissionLevel,
         ugr_ClientContext = user_context E callingUserId \<rparr>)"

definition client_DeletePermissionsPrincipal ::
  "DocumentServiceClient \<Rightarrow> env \<Rightarrow> uuid \<Rightarrow> uuid \<Rightarrow> uuid \<Rightarrow> (doc_db, client_err + unit) db_op" where
  "client_DeletePermissionsPrincipal cl E principalId documentId callingUserId =
     call cl (rpc_DeletePermissionsPrincipal (dsc_server cl) E
       \<lparr> dpr_PrincipalId = uuid_String E principalId, dpr_DocumentId = uuid_String E documentId,
         dpr_ClientContext = user_context E callingUserId \<rparr>)"

section \<open>The user service client\<close>

record UserServiceClient =
  usc_server :: UserRepository
  usc_bcrypt :: bcrypt               \<comment> \<open>the password hash of the server that is called\<close>
  usc_conn :: transport

abbreviation ucall :: "UserServiceClient \<Rightarrow> 'a user_rpc \<Rightarrow> (user_db, client_err + 'a) db_op" where
  "ucall cl m \<equiv> invoke (usc_conn cl) user_status_code m"

text \<open>The method registered for the RPC \<^verbatim>\<open>ChangeUserPassword\<close>: the server type has no method of
  that name (its handler is called \<^verbatim>\<open>ChangePassword\<close>), so the one of the embedded
  \<^verbatim>\<open>UnimplementedUserServiceServer\<close> answers.\<close>

definition urpc_ChangeUserPassword :: "ChangeUserPasswordRequest \<Rightarrow> unit user_rpc" where
  "urpc_ChangeUserPassword req = State_Monad.return (Inl (UStatus Code_Unimplemented None))"

definition uclient_GetUser :: "UserServiceClient \<Rightarrow> env \<Rightarrow> uuid \<Rightarrow> (user_db, client_err + pb_User) db_op" where
  "uclient_GetUser cl E userId = ucall cl (urpc_GetUser (usc_server cl) E (uuid_String E userId))"

definition uclient_CreateUser ::
  "UserServiceClient \<Rightarrow> env \<Rightarrow> string \<Rightarrow> string \<Rightarrow> string \<Rightarrow> int32 option \<Rightarrow> (user_db, client_err + string) db_op" where
  "uclient_CreateUser cl E userName userEmail password maxDocuments =
     ucall cl (urpc_CreateUser (usc_server cl) E (usc_bcrypt cl)
       \<lparr> cur_req_UserName = userName, cur_req_UserEmail = userEmail, cur_req_Password = password,
         cur_req_MaxDocuments = maxDocuments \<rparr>)"

definition uclient_DeactivateUser :: "UserServiceClient \<Rightarrow> env \<Rightarrow> uuid \<Rightarrow> (user_db, client_err + unit) db_op" where
  "uclient_DeactivateUser cl E userId = ucall cl (urpc_DeactivateUser (usc_server cl) E (uuid_String E userId))"

definition uclient_ChangeUserPassword ::
  "UserServiceClient \<Rightarrow> env \<Rightarrow> uuid \<Rightarrow> string \<Rightarrow> string \<Rightarrow> (user_db, client_err + unit) db_op" where
  "uclient_ChangeUserPassword cl E userId oldPassword newPassword =
     ucall cl (urpc_ChangeUserPassword
       \<lparr> cpr_UserId = uuid_String E userId, cpr_OldPassword = oldPassword, cpr_NewPassword = newPassword \<rparr>)"

text \<open>\<^verbatim>\<open>uuid.Parse(*reply.UserId)\<close>: a reply without the optional field would be a nil
  dereference in the client; it is the outer None.\<close>

definition uclient_ValidatePassword ::
  "UserServiceClient \<Rightarrow> env \<Rightarrow> string \<Rightarrow> string \<Rightarrow> (user_db, (client_err + uuid \<times> bool) option) db_op" where
  "uclient_ValidatePassword cl E userName password =
     do { r \<leftarrow> ucall cl (urpc_ValidatePassword (usc_server cl) E (usc_bcrypt cl)
            \<lparr> vpr_UserName = userName, vpr_UserPassword = password \<rparr>);
          State_Monad.return (case r of
              Inl err \<Rightarrow> Some (Inl err)
            | Inr answer \<Rightarrow> (case vpy_UserId answer of
                None \<Rightarrow> None
              | Some s \<Rightarrow> (case uuid_Parse E s of
                  None \<Rightarrow> Some (Inl PlainError)
                | Some userId \<Rightarrow> Some (Inr (userId, vpy_IsValid answer))))) }"

lemmas client_defs = client_CreateDocument_def client_GetDocument_def client_UpdateDocument_def
  client_DeleteDocument_def client_DeleteDocuments_def client_ListDocumentsByPrincipal_def
  client_GetPermissionsOfPrincipalOnDocument_def client_ListPermissionsOnDocument_def client_CreateGuest_def
  client_UpsertPermissionUser_def client_UpdatePermissionGuest_def client_DeletePermissionsPrincipal_def

lemmas uclient_defs = uclient_GetUser_def uclient_CreateUser_def uclient_DeactivateUser_def
  uclient_ChangeUserPassword_def uclient_ValidatePassword_def

end
