(* ===== verification/Base64.thy ===== *)
theory Base64
  imports Prelude
begin

text \<open>
  \<^verbatim>\<open>base64.URLEncoding\<close> of Go's standard library, in which the gateway hands cursors to
  browsers: the URL-safe alphabet with padding. The decoder skips line breaks, demands the
  padding and rejects anything after it, and does not look at the unused bits of the last
  character. Decoding what was encoded gives the bytes back.
\<close>

type_synonym byte = "8 word"

definition b64_char :: "nat \<Rightarrow> char" where
  "b64_char n = ''ABCDEFGHIJKLMNOPQRSTUVWXYZabcdefghijklmnopqrstuvwxyz0123456789-_'' ! (n mod 64)"

fun b64_value :: "char \<Rightarrow> nat option" where
  "b64_value ch = find (\<lambda>n. b64_char n = ch) [0..<64]"

abbreviation b64_pad :: char where "b64_pad \<equiv> CHR ''=''"

text \<open>The four sextets of three bytes and the three bytes of four sextets.\<close>

definition sextet0 :: "byte \<Rightarrow> nat" where "sextet0 a = unat a div 4"
definition sextet1 :: "byte \<Rightarrow> byte \<Rightarrow> nat" where "sextet1 a b = (unat a mod 4) * 16 + unat b div 16"
definition sextet2 :: "byte \<Rightarrow> byte \<Rightarrow> nat" where "sextet2 b c = (unat b mod 16) * 4 + unat c div 64"
definition sextet3 :: "byte \<Rightarrow> nat" where "sextet3 c = unat c mod 64"

definition octet0 :: "nat \<Rightarrow> nat \<Rightarrow> byte" where "octet0 w x = of_nat (w * 4 + x div 16)"
definition octet1 :: "nat \<Rightarrow> nat \<Rightarrow> byte" where "octet1 x y = of_nat ((x mod 16) * 16 + y div 4)"
definition octet2 :: "nat \<Rightarrow> nat \<Rightarrow> byte" where "octet2 y z = of_nat ((y mod 4) * 64 + z)"

fun EncodeToString :: "byte list \<Rightarrow> string" where
  "EncodeToString [] = []"
| "EncodeToString [a] = [b64_char (sextet0 a), b64_char (sextet1 a 0), b64_pad, b64_pad]"
| "EncodeToString [a, b] =
     [b64_char (sextet0 a), b64_char (sextet1 a b), b64_char (sextet2 b 0), b64_pad]"
| "EncodeToString (a # b # c # bs) =
     b64_char (sextet0 a) # b64_char (sextet1 a b) # b64_char (sextet2 b c) # b64_char (sextet3 c) # EncodeToString bs"

fun decode_quanta :: "string \<Rightarrow> byte list option" where
  "decode_quanta [] = Some []"
| "decode_quanta (p # q # r # s # rest) =
     (case (b64_value p, b64_value q) of
        (Some w, Some x) \<Rightarrow>
          if r = b64_pad then (if s = b64_pad \<and> rest = [] then Some [octet0 w x] else None)
          else (case b64_value r of
            None \<Rightarrow> None
          | Some y \<Rightarrow>
              if s = b64_pad then (if rest = [] then Some [octet0 w x, octet1 x y] else None)
              else (case b64_value s of
                None \<Rightarrow> None
              | Some z \<Rightarrow> map_option (\<lambda>bs. octet0 w x # octet1 x y # octet2 y z # bs) (decode_quanta rest)))
      | _ \<Rightarrow> None)"
| "decode_quanta _ = None"

definition DecodeString :: "string \<Rightarrow> byte list option" where
  "DecodeString s = decode_quanta (filter (\<lambda>ch. ch \<noteq> CHR 0x0A \<and> ch \<noteq> CHR 0x0D) s)"

section \<open>The round trip\<close>

lemma b64_table:
  "list_all (\<lambda>n. b64_value (b64_char n) = Some n \<and> b64_char n \<notin> {b64_pad, CHR 0x0A, CHR 0x0D}) [0..<64]"
  by code_simp

lemma b64_char_facts:
  assumes "n < 64"
  shows "b64_value (b64_char n) = Some n" "b64_char n \<noteq> b64_pad"
    "b64_char n \<noteq> CHR 0x0A" "b64_char n \<noteq> CHR 0x0D"
  using b64_table assms by (auto simp: list_all_iff simp del: b64_value.simps)

lemma byte_bound: "unat (a :: byte) < 256"
  using unsigned_less [of a, where ?'a = nat] by simp

lemma sextet_bounds: "sextet0 a < 64" "sextet1 a b < 64" "sextet2 a b < 64" "sextet3 a < 64"
proof -
  have "unat b div 16 < 16" "unat b div 64 < 4" "unat a mod 4 < 4" "unat a mod 16 < 16"
    using byte_bound [of b] by auto
  then show "sextet0 a < 64" "sextet1 a b < 64" "sextet2 a b < 64" "sextet3 a < 64"
    using byte_bound [of a] unfolding sextet0_def sextet1_def sextet2_def sextet3_def by linarith+
qed

lemma octets_of_sextets:
  "octet0 (sextet0 a) (sextet1 a b) = a"
  "octet1 (sextet1 a b) (sextet2 b c) = b"
  "octet2 (sextet2 b c) (sextet3 c) = c"
proof -
  have "unat a = unat a div 4 * 4 + unat a mod 4" "unat b = unat b div 16 * 16 + unat b mod 16"
    "unat c = unat c div 64 * 64 + unat c mod 64" by simp_all
  moreover have "sextet1 a b div 16 = unat a mod 4" "sextet1 a b mod 16 = unat b div 16"
    "sextet2 b c div 4 = unat b mod 16" "sextet2 b c mod 4 = unat c div 64"
    using byte_bound [of b] byte_bound [of c] by (simp_all add: sextet1_def sextet2_def less_mult_imp_div_less)
  moreover have "of_nat (unat w) = w" for w :: byte by simp
  ultimately show "octet0 (sextet0 a) (sextet1 a b) = a" "octet1 (sextet1 a b) (sextet2 b c) = b"
    "octet2 (sextet2 b c) (sextet3 c) = c"
    unfolding octet0_def octet1_def octet2_def sextet0_def sextet3_def
    by metis+
qed

lemma EncodeToString_plain:
  "filter (\<lambda>ch. ch \<noteq> CHR 0x0A \<and> ch \<noteq> CHR 0x0D) (EncodeToString bs) = EncodeToString bs"
  by (induction bs rule: EncodeToString.induct) (simp_all add: b64_char_facts sextet_bounds)

lemma decode_quanta_encode: "decode_quanta (EncodeToString bs) = Some bs"
  by (induction bs rule: EncodeToString.induct)
    (simp_all add: b64_char_facts sextet_bounds octets_of_sextets del: b64_value.simps)

lemma DecodeString_EncodeToString: "DecodeString (EncodeToString bs) = Some bs"
  by (simp add: DecodeString_def EncodeToString_plain decode_quanta_encode)

end
