(* ===== verification/Gateway_Http.thy ===== *)
theory Gateway_Http
  imports Clients Base64
begin

text \<open>
  What the handlers of the API gateway share: the HTTP response writer, \<^verbatim>\<open>http_response.go\<close>,
  the request and response bodies of the OpenAPI schema, and the conversions between them and
  the protobuf messages (first part of \<^verbatim>\<open>document.go\<close>). The JSON codec is not modelled: a
  request body is the value it decodes to, None when decoding fails, and a response body is
  the value that is encoded. \<^verbatim>\<open>proto.Marshal\<close> and \<^verbatim>\<open>proto.Unmarshal\<close> are parameters.
\<close>

section \<open>Bodies (OpenAPI schema)\<close>

text \<open>\<^verbatim>\<open>PermissionLevel\<close> and \<^verbatim>\<open>PrincipalType\<close> are strings: any value can arrive.\<close>

type_synonym net_PermissionLevel = string
type_synonym net_PrincipalType = string

abbreviation net_Owner :: net_PermissionLevel where "net_Owner \<equiv> ''owner''"
abbreviation net_Editor :: net_PermissionLevel where "net_Editor \<equiv> ''editor''"
abbreviation net_Viewer :: net_PermissionLevel where "net_Viewer \<equiv> ''viewer''"
abbreviation PrincipalTypeUser :: net_PrincipalType where "PrincipalTypeUser \<equiv> ''user''"
abbreviation PrincipalTypeGuest :: net_PrincipalType where "PrincipalTypeGuest \<equiv> ''guest''"

record net_Document =
  nd_CreatedAt :: int
  nd_DocumentDescription :: "string option"
  nd_DocumentId :: uuid
  nd_DocumentName :: "string option"
  nd_LastModifiedAt :: int

record net_Principal =
  np_PrincipalId :: uuid
  np_PrincipalType :: net_PrincipalType

record net_Permission =
  nr_CreatedAt :: int
  nr_CreatedBy :: uuid
  nr_DocumentId :: uuid
  nr_LastModifiedAt :: int
  nr_PermissionLevel :: net_PermissionLevel
  nr_Principal :: net_Principal

record net_User =
  nu_Email :: string
  nu_MaxDocuments :: int32
  nu_UserId :: uuid
  nu_UserName :: string

text \<open>The message of an error body: a fixed text, or the text of an error value.\<close>

datatype message = Text string | ErrText

datatype payload =
    P_Error message
  | P_Login int32 string                               \<comment> \<open>\<^verbatim>\<open>LoginResponse\<close>: ExpiresIn, Token\<close>
  | P_Documents "string option" "net_Document list"    \<comment> \<open>\<^verbatim>\<open>GetDocumentResponse\<close>\<close>
  | P_Document net_Document
  | P_Created uuid                                     \<comment> \<open>\<^verbatim>\<open>PostDocumentResponse\<close>\<close>
  | P_Permissions "string option" "net_Permission list"
  | P_Permission net_Permission
  | P_Shared "uuid option" "uuid option"               \<comment> \<open>\<^verbatim>\<open>ShareDocumentResponse\<close>: GuestId, UserIdSharedWith\<close>
  | P_User net_User
  | P_CreatedUser string                               \<comment> \<open>\<^verbatim>\<open>pb.CreateUserReply\<close>\<close>
  | P_PlainText message                                \<comment> \<open>a body of \<^verbatim>\<open>http.Error\<close>\<close>

section \<open>The response writer\<close>

text \<open>\<^verbatim>\<open>net/http\<close>: the first status wins, later calls of \<^verbatim>\<open>WriteHeader\<close> are ignored; a body
  written without a status implies 200; a status that allows no body drops it; otherwise
  bodies are appended. A panic aborts the response.\<close>

record ResponseWriter =
  rw_Status :: "nat option"
  rw_Body :: "payload list"

datatype http_outcome = Panicked | Responded ResponseWriter

definition fresh_writer :: ResponseWriter where
  "fresh_writer = \<lparr> rw_Status = None, rw_Body = [] \<rparr>"

definition WriteHeader :: "ResponseWriter \<Rightarrow> nat \<Rightarrow> ResponseWriter" where
  "WriteHeader w code = (case rw_Status w of None \<Rightarrow> w\<lparr>rw_Status := Some code\<rparr> | Some _ \<Rightarrow> w)"

definition body_allowed :: "nat \<Rightarrow> bool" where
  "body_allowed code \<longleftrightarrow> \<not> (100 \<le> code \<and> code \<le> 199) \<and> code \<noteq> 204 \<and> code \<noteq> 304"

definition Encode :: "ResponseWriter \<Rightarrow> payload \<Rightarrow> ResponseWriter" where
  "Encode w p = (let w = WriteHeader w 200 in
     if body_allowed (the (rw_Status w)) then w\<lparr>rw_Body := rw_Body w @ [p]\<rparr> else w)"

definition SendError :: "ResponseWriter \<Rightarrow> nat \<Rightarrow> message \<Rightarrow> ResponseWriter" where
  "SendError w code msg = Encode (WriteHeader w code) (P_Error msg)"

definition SendJsonResponse :: "ResponseWriter \<Rightarrow> nat \<Rightarrow> payload \<Rightarrow> ResponseWriter" where
  "SendJsonResponse w code p = Encode (WriteHeader w code) p"

text \<open>\<^verbatim>\<open>status.FromError\<close> succeeds on a status error only.\<close>

fun GrpcToHttpStatus :: "client_err \<Rightarrow> nat" where
  "GrpcToHttpStatus PlainError = 500"
| "GrpcToHttpStatus (RpcError st) = (case st of
      Code_InvalidArgument \<Rightarrow> 400
    | Code_NotFound \<Rightarrow> 404
    | Code_AlreadyExists \<Rightarrow> 409
    | Code_PermissionDenied \<Rightarrow> 403
    | Code_Unauthenticated \<Rightarrow> 401
    | Code_ResourceExhausted \<Rightarrow> 429
    | Code_Unimplemented \<Rightarrow> 501
    | Code_Unavailable \<Rightarrow> 503
    | Code_DeadlineExceeded \<Rightarrow> 504
    | _ \<Rightarrow> 500)"

section \<open>Handlers\<close>

type_synonym 's action = "('s, http_outcome) state"
type_synonym 'd handler = "'d conn action"

abbreviation respond :: "ResponseWriter \<Rightarrow> 's action" where
  "respond w \<equiv> State_Monad.return (Responded w)"

text \<open>\<^verbatim>\<open>x, err := m; if err != nil { SendError(w, code, msg); return }\<close>\<close>

definition attempt ::
  "('d, 'e + 'a) db_op \<Rightarrow> ('e \<Rightarrow> ResponseWriter) \<Rightarrow> ('a \<Rightarrow> 'd handler) \<Rightarrow> 'd handler" where
  "attempt m h k = do { r \<leftarrow> m; (case r of Inl e \<Rightarrow> respond (h e) | Inr x \<Rightarrow> k x) }"

text \<open>\<^verbatim>\<open>SendError(w, GrpcToHttpStatus(err), err.Error())\<close>\<close>

definition SendGrpcError :: "ResponseWriter \<Rightarrow> client_err \<Rightarrow> ResponseWriter" where
  "SendGrpcError w err = SendError w (GrpcToHttpStatus err) ErrText"

section \<open>Conversions\<close>

definition netToProtoPermissionLevel :: "net_PermissionLevel \<Rightarrow> unit + pb_PermissionLevel" where
  [conv_defs]: "netToProtoPermissionLevel l =
     (if l = net_Owner then Inr PERMISSION_OWNER
      else if l = net_Editor then Inr PERMISSION_EDITOR
      else if l = net_Viewer then Inr PERMISSION_VIEWER
      else Inl ())"

definition netToProtoPermissionFilter :: "net_PermissionLevel list \<Rightarrow> unit + pb_PermissionLevel list" where
  "netToProtoPermissionFilter permissionFilter = map_err netToProtoPermissionLevel permissionFilter"

text \<open>The protobuf codec of cursors, None for an error.\<close>

record protobuf =
  proto_Marshal :: "pb_Cursor \<Rightarrow> byte list option"
  proto_Unmarshal :: "byte list \<Rightarrow> pb_Cursor option"

text \<open>What its documentation promises: unmarshalling what was marshalled gives the message back.\<close>

definition protobuf_ok :: "protobuf \<Rightarrow> bool" where
  "protobuf_ok P \<longleftrightarrow> (\<forall>pc wire. proto_Marshal P pc = Some wire \<longrightarrow> proto_Unmarshal P wire = Some pc)"

definition netToProtoCursor :: "protobuf \<Rightarrow> string \<Rightarrow> unit + pb_Cursor" where
  "netToProtoCursor P cursor = (case DecodeString cursor of
      None \<Rightarrow> Inl ()
    | Some wire \<Rightarrow> (case proto_Unmarshal P wire of None \<Rightarrow> Inl () | Some pbCursor \<Rightarrow> Inr pbCursor))"

definition protoToNetPermissionLevel :: "pb_PermissionLevel \<Rightarrow> unit + net_PermissionLevel" where
  [conv_defs]: "protoToNetPermissionLevel l =
     (if l = PERMISSION_OWNER then Inr net_Owner
      else if l = PERMISSION_EDITOR then Inr net_Editor
      else if l = PERMISSION_VIEWER then Inr net_Viewer
      else Inl ())"

definition protoToNetCursor :: "protobuf \<Rightarrow> pb_Cursor \<Rightarrow> unit + string" where
  "protoToNetCursor P cursor = (case proto_Marshal P cursor of
      None \<Rightarrow> Inl () | Some wire \<Rightarrow> Inr (EncodeToString wire))"

definition parse_reply_id :: "env \<Rightarrow> string \<Rightarrow> unit + uuid" where
  "parse_reply_id E s = (case uuid_Parse E s of None \<Rightarrow> Inl () | Some u \<Rightarrow> Inr u)"

definition protoToNetDocument :: "env \<Rightarrow> pb_Document \<Rightarrow> unit + net_Document" where
  "protoToNetDocument E document =
     checked (parse_reply_id E (pbd_DocumentId document)) id (\<lambda>documentId.
       Inr \<lparr> nd_CreatedAt = ts_Seconds (pbd_CreatedAt document),
             nd_DocumentDescription = pbd_Description document, nd_DocumentId = documentId,
             nd_DocumentName = pbd_DocumentName document,
             nd_LastModifiedAt = ts_Seconds (pbd_LastModifiedAt document) \<rparr>)"

definition protoToNetPrincipalType :: "pb_PrincipalType \<Rightarrow> unit + net_PrincipalType" where
  [conv_defs]: "protoToNetPrincipalType t =
     (if t = Principal_USER then Inr PrincipalTypeUser
      else if t = Principal_GUEST then Inr PrincipalTypeGuest
      else Inl ())"

definition protoToNetPrincipal :: "env \<Rightarrow> pb_Principal \<Rightarrow> unit + net_Principal" where
  "protoToNetPrincipal E pr =
     checked (parse_reply_id E (pbp_PrincipalId pr)) id (\<lambda>principalId.
     checked (protoToNetPrincipalType (pbp_PrincipalType pr)) id (\<lambda>principalType.
       Inr \<lparr> np_PrincipalId = principalId, np_PrincipalType = principalType \<rparr>))"

definition protoToNetPermission :: "env \<Rightarrow> pb_Permission \<Rightarrow> unit + net_Permission" where
  "protoToNetPermission E permission =
     checked (parse_reply_id E (pbr_CreatedBy permission)) id (\<lambda>createdBy.
     checked (parse_reply_id E (pbr_DocumentId permission)) id (\<lambda>documentId.
     checked (protoToNetPermissionLevel (pbr_PermissionLevel permission)) id (\<lambda>permissionLevel.
     checked (protoToNetPrincipal E (pbr_Recipient permission)) id (\<lambda>netPrincipal.
       Inr \<lparr> nr_CreatedAt = ts_Seconds (pbr_CreatedAt permission), nr_CreatedBy = createdBy,
             nr_DocumentId = documentId, nr_LastModifiedAt = ts_Seconds (pbr_LastModifiedAt permission),
             nr_PermissionLevel = permissionLevel, nr_Principal = netPrincipal \<rparr>))))"

definition protoToNetPermissions :: "env \<Rightarrow> pb_Permission list \<Rightarrow> unit + net_Permission list" where
  "protoToNetPermissions E ps = map_err (protoToNetPermission E) ps"

section \<open>Lemmas\<close>

lemma WriteHeader_simps [simp]:
  "rw_Status w = None \<Longrightarrow> rw_Status (WriteHeader w code) = Some code"
  "rw_Status w = Some st \<Longrightarrow> WriteHeader w code = w"
  "rw_Body (WriteHeader w code) = rw_Body w"
  by (simp_all add: WriteHeader_def split: option.splits)

lemma rw_Status_WriteHeader: "rw_Status (WriteHeader w code) \<noteq> None"
  by (simp add: WriteHeader_def split: option.splits)

lemma rw_Status_Encode [simp]: "rw_Status (Encode w p) = rw_Status (WriteHeader w 200)"
  by (simp add: Encode_def Let_def)

lemma rw_Status_SendError [simp]: "rw_Status w = None \<Longrightarrow> rw_Status (SendError w code msg) = Some code"
  by (simp add: SendError_def)

lemma rw_Body_Encode:
  "rw_Status w = Some st \<Longrightarrow> body_allowed st \<Longrightarrow> rw_Body (Encode w p) = rw_Body w @ [p]"
  by (simp add: Encode_def Let_def)

text \<open>A response to a fresh writer: one status, one body.\<close>

lemma SendError_fresh [simp]:
  "body_allowed code \<Longrightarrow> SendError fresh_writer code msg = \<lparr> rw_Status = Some code, rw_Body = [P_Error msg] \<rparr>"
  by (simp add: SendError_def Encode_def WriteHeader_def fresh_writer_def Let_def)

lemma SendJson_fresh [simp]:
  "body_allowed code \<Longrightarrow> SendJsonResponse fresh_writer code p = \<lparr> rw_Status = Some code, rw_Body = [p] \<rparr>"
  by (simp add: SendJsonResponse_def Encode_def WriteHeader_def fresh_writer_def Let_def)

lemma WriteHeader_fresh [simp]: "WriteHeader fresh_writer code = \<lparr> rw_Status = Some code, rw_Body = [] \<rparr>"
  by (simp add: WriteHeader_def fresh_writer_def)

lemma GrpcToHttpStatus_error: "400 \<le> GrpcToHttpStatus err \<and> GrpcToHttpStatus err < 600"
  by (cases err rule: GrpcToHttpStatus.cases) (simp_all split: grpc_code.split)

lemma body_allowed_error [simp]: "400 \<le> code \<Longrightarrow> body_allowed code"
  by (simp add: body_allowed_def)

lemma body_allowed_ok [simp]: "body_allowed 200" "body_allowed 201"
  by (simp_all add: body_allowed_def)

lemma run_attempt:
  "run_state (attempt m h k) s =
     (case run_state m s of (Inl e, s') \<Rightarrow> (Responded (h e), s') | (Inr x, s') \<Rightarrow> run_state (k x) s')"
  by (auto simp: attempt_def split: sum.splits prod.splits)

lemma run_attempt_return [simp]:
  "run_state (attempt (State_Monad.return (Inl e)) h k) s = (Responded (h e), s)"
  "run_state (attempt (State_Monad.return (Inr x)) h k) s = run_state (k x) s"
  by (simp_all add: run_attempt)

lemma parse_reply_id_simps [simp]:
  "uuid_Parse E s = Some u \<Longrightarrow> parse_reply_id E s = Inr u"
  "uuid_Parse E s = None \<Longrightarrow> parse_reply_id E s = Inl ()"
  by (simp_all add: parse_reply_id_def)

text \<open>The levels of the two interfaces name each other.\<close>

lemma net_levels_agree:
  "(netToProtoPermissionLevel l = Inr x) = (protoToNetPermissionLevel x = Inr l)"
  by (auto simp: conv_defs)

lemma net_cursor_roundtrip:
  "protobuf_ok P \<Longrightarrow> protoToNetCursor P pc = Inr s \<Longrightarrow> netToProtoCursor P s = Inr pc"
  by (auto simp: protoToNetCursor_def netToProtoCursor_def protobuf_ok_def DecodeString_EncodeToString
      split: option.splits)

end
