(* ===== verification/Gateway_Auth.thy ===== *)
theory Gateway_Auth
  imports Gateway_Http
begin

text \<open>
  Authentication in the gateway: \<^verbatim>\<open>auth.go\<close> (claims and the login handler) and
  \<^verbatim>\<open>auth_middleware.go\<close>. The package \<^verbatim>\<open>golang-jwt\<close> is a parameter. The locale \<open>user_only\<close>
  is the contract of the handlers that only users may call, and what it gives behind the
  middleware.
\<close>

section \<open>Claims\<close>

record CustomClaims =
  cl_UserName :: string
  cl_Issuer :: string
  cl_Subject :: string
  cl_IssuedAt :: time
  cl_ExpiresAt :: time

definition ParsePrincipalId :: "env \<Rightarrow> CustomClaims \<Rightarrow> unit + uuid" where
  "ParsePrincipalId E c = (case uuid_Parse E (cl_Subject c) of None \<Rightarrow> Inl () | Some parsedId \<Rightarrow> Inr parsedId)"

definition GetTokenType :: "CustomClaims \<Rightarrow> net_PrincipalType" where
  "GetTokenType c = (if cl_UserName c \<noteq> [] then PrincipalTypeUser else PrincipalTypeGuest)"

record http_request =
  req_Path :: string
  req_PathValue :: "string \<Rightarrow> string"        \<comment> \<open>the wildcards of the matched pattern\<close>
  req_Query :: "(string \<times> string) list"    \<comment> \<open>the query parameters\<close>
  req_Body :: string
  req_Authentication :: string            \<comment> \<open>the header, empty when absent\<close>
  req_Claims :: "CustomClaims option"     \<comment> \<open>the claims in the request context\<close>
  req_BearerAuthScopes :: "string list option"   \<comment> \<open>the scopes in the request context\<close>

text \<open>A request with a path and a header and nothing else, for the witnesses.\<close>

definition request_to :: "string \<Rightarrow> string \<Rightarrow> http_request" where
  "request_to path header = \<lparr> req_Path = path, req_PathValue = (\<lambda>_. []), req_Query = [], req_Body = [],
     req_Authentication = header, req_Claims = None, req_BearerAuthScopes = None \<rparr>"

definition GetClaims :: "CustomClaims option \<Rightarrow> unit + CustomClaims" where
  "GetClaims ctx = (case ctx of None \<Rightarrow> Inl () | Some customClaims \<Rightarrow> Inr customClaims)"

section \<open>Tokens\<close>

text \<open>\<^verbatim>\<open>golang-jwt\<close>: signing claims with a named method and key, and parsing a token at a
  moment with a key and the list of accepted methods; None for an error. Claims carry dates
  as \<^verbatim>\<open>NewNumericDate\<close> rounds them.\<close>

record jwt =
  jwt_NewNumericDate :: "time \<Rightarrow> time"
  jwt_SignedString :: "string \<Rightarrow> CustomClaims \<Rightarrow> string \<Rightarrow> string option"
  jwt_ParseWithClaims :: "time \<Rightarrow> string \<Rightarrow> string \<Rightarrow> string list \<Rightarrow> CustomClaims option"

text \<open>What its documentation promises of the method named in a token's header: signing writes
  the method used, and with \<^verbatim>\<open>WithValidMethods\<close> only the listed methods are accepted.\<close>

definition jwt_ok :: "(string \<Rightarrow> string option) \<Rightarrow> jwt \<Rightarrow> bool" where
  "jwt_ok header_alg J \<longleftrightarrow>
     (\<forall>alg claims key token. jwt_SignedString J alg claims key = Some token \<longrightarrow> header_alg token = Some alg) \<and>
     (\<forall>now token key methods claims. jwt_ParseWithClaims J now token key methods = Some claims \<longrightarrow>
        (\<exists>alg \<in> set methods. header_alg token = Some alg))"

lemma jwt_okD:
  assumes "jwt_ok header_alg J"
  shows "jwt_SignedString J alg claims key = Some token \<Longrightarrow> header_alg token = Some alg"
    and "jwt_ParseWithClaims J t token key methods = Some claims \<Longrightarrow> \<exists>alg \<in> set methods. header_alg token = Some alg"
  using assms unfolding jwt_ok_def by blast+

abbreviation HS256 :: string where "HS256 \<equiv> ''HS256''"
abbreviation ES256 :: string where "ES256 \<equiv> ''ES256''"

section \<open>The login handler\<close>

record PostAuthLoginJSONBody =
  lb_Password :: string
  lb_UserName :: string

text \<open>The claims of a login; the two instants are those of the two calls of \<^verbatim>\<open>time.Now()\<close>, in
  nanoseconds.\<close>

definition login_claims :: "jwt \<Rightarrow> env \<Rightarrow> time \<Rightarrow> time \<Rightarrow> string \<Rightarrow> uuid \<Rightarrow> CustomClaims" where
  "login_claims J E now1 now2 userName userId = \<lparr> cl_UserName = userName, cl_Issuer = ''reed'',
     cl_Subject = uuid_String E userId, cl_IssuedAt = jwt_NewNumericDate J now1,
     cl_ExpiresAt = jwt_NewNumericDate J (now2 + 60 * 60 * 1000000000) \<rparr>"

definition http_PostAuthLogin ::
  "UserServiceClient \<Rightarrow> env \<Rightarrow> jwt \<Rightarrow> string \<Rightarrow> time \<Rightarrow> time \<Rightarrow> PostAuthLoginJSONBody option \<Rightarrow>
   ResponseWriter \<Rightarrow> user_db handler" where
  "http_PostAuthLogin us E J key now1 now2 body w = (case body of
      None \<Rightarrow> respond (SendError w 400 ErrText)
    | Some reqBody \<Rightarrow>
        do { r \<leftarrow> uclient_ValidatePassword us E (lb_UserName reqBody) (lb_Password reqBody);
          (case r of
            None \<Rightarrow> State_Monad.return Panicked
          | Some (Inl err) \<Rightarrow>
              respond (if err = RpcError Code_NotFound
                then SendError w 404 (Text (''no user found with username: '' @ lb_UserName reqBody))
                else SendGrpcError w err)
          | Some (Inr (userId, isValid)) \<Rightarrow>
              if \<not> isValid
              then respond (SendError w 401 (Text ''the provided username and password did not match''))
              else (case jwt_SignedString J HS256 (login_claims J E now1 now2 (lb_UserName reqBody) userId) key of
                  None \<Rightarrow> respond (SendError w 500 ErrText)
                | Some signedToken \<Rightarrow> respond (SendJsonResponse w 200 (P_Login (60 * 60) signedToken)))) })"

section \<open>The middleware\<close>

definition TrimPrefix :: "string \<Rightarrow> string \<Rightarrow> string" where
  "TrimPrefix s prefix = (if take (length prefix) s = prefix then drop (length prefix) s else s)"

text \<open>On the login path the next handler runs first and the function goes on. When it then passes the
  request on again, that first run has read the body, and the second one finds it at its end (a
  body longer than the one JSON value the handler decodes is not modelled). The type assertion on the parsed
  claims cannot fail: the parser fills the struct it was given.\<close>

definition AuthMiddleware ::
  "jwt \<Rightarrow> time \<Rightarrow> string \<Rightarrow> (http_request \<Rightarrow> ResponseWriter \<Rightarrow> 's action) \<Rightarrow>
   http_request \<Rightarrow> ResponseWriter \<Rightarrow> 's action" where
  "AuthMiddleware J now key nextHandler r w0 =
     do { out \<leftarrow> (if req_Path r = ''/auth/login'' then nextHandler r w0 else respond w0);
       (case out of
         Panicked \<Rightarrow> State_Monad.return Panicked
       | Responded w \<Rightarrow>
           let headerValue = req_Authentication r; tokenString = TrimPrefix headerValue ''Bearer '' in
           if headerValue = []
           then respond (SendError w 401 (Text ''Authentication header with JWT bearer token is required''))
           else if tokenString = headerValue
           then respond (SendError w 401 (Text ''poorly formatted header value for Authentication header''))
           else (case jwt_ParseWithClaims J now tokenString key [ES256] of
               None \<Rightarrow> respond (SendError w 403 ErrText)
             | Some customClaims \<Rightarrow>
                 let rest = (if req_Path r = ''/auth/login'' then [] else req_Body r) in
                 nextHandler (r\<lparr>req_Body := rest, req_Claims := Some customClaims\<rparr>) w)) }"

section \<open>Handlers for users only\<close>

definition user_claims :: "CustomClaims option \<Rightarrow> bool" where
  "user_claims ctx \<longleftrightarrow> (\<exists>c. ctx = Some c \<and> GetTokenType c = PrincipalTypeUser)"

definition bearer_claims :: "jwt \<Rightarrow> time \<Rightarrow> string \<Rightarrow> http_request \<Rightarrow> CustomClaims option" where
  "bearer_claims J now key r =
     (if take 7 (req_Authentication r) = ''Bearer ''
      then jwt_ParseWithClaims J now (drop 7 (req_Authentication r)) key [ES256] else None)"

lemma TrimPrefix_Bearer: "TrimPrefix s ''Bearer '' = (if take 7 s = ''Bearer '' then drop 7 s else s)"
proof -
  have "length ''Bearer '' = 7" by simp
  then show ?thesis unfolding TrimPrefix_def by (simp only:)
qed

lemma drop_Bearer: "take 7 s = ''Bearer '' \<Longrightarrow> drop 7 s \<noteq> s"
proof
  assume "take 7 s = ''Bearer ''" "drop 7 s = s"
  with append_take_drop_id [of 7 s] have "''Bearer '' @ s = s" by simp
  then show False by simp
qed

lemma AuthMiddleware_other_path:
  assumes "req_Path r \<noteq> ''/auth/login''"
  shows "run_state (AuthMiddleware J now key nextHandler r w) c =
    (case bearer_claims J now key r of
       Some claims \<Rightarrow> run_state (nextHandler (r\<lparr>req_Claims := Some claims\<rparr>) w) c
     | None \<Rightarrow> (Responded (
         if req_Authentication r = [] then
           SendError w 401 (Text ''Authentication header with JWT bearer token is required'')
         else if take 7 (req_Authentication r) \<noteq> ''Bearer '' then
           SendError w 401 (Text ''poorly formatted header value for Authentication header'')
         else SendError w 403 ErrText), c))"
  using assms drop_Bearer [of "req_Authentication r"]
  by (auto simp: AuthMiddleware_def bearer_claims_def Let_def TrimPrefix_Bearer split: option.splits)

text \<open>On the login path the handler has answered before the header is looked at.\<close>

lemma AuthMiddleware_login:
  assumes "req_Path r = ''/auth/login''" "run_state (nextHandler r w) c = (Responded w', c')"
  shows "run_state (AuthMiddleware J now key nextHandler r w) c =
    (case bearer_claims J now key r of
       Some claims \<Rightarrow> run_state (nextHandler (r\<lparr>req_Body := [], req_Claims := Some claims\<rparr>) w') c'
     | None \<Rightarrow> (Responded (
         if req_Authentication r = [] then
           SendError w' 401 (Text ''Authentication header with JWT bearer token is required'')
         else if take 7 (req_Authentication r) \<noteq> ''Bearer '' then
           SendError w' 401 (Text ''poorly formatted header value for Authentication header'')
         else SendError w' 403 ErrText), c'))"
  using assms drop_Bearer [of "req_Authentication r"]
  by (auto simp: AuthMiddleware_def bearer_claims_def Let_def TrimPrefix_Bearer split: option.splits)

text \<open>A handler for users only answers everyone else with an error status and leaves the
  connection alone.\<close>

locale user_only =
  fixes user_handler :: "CustomClaims option \<Rightarrow> ResponseWriter \<Rightarrow> 's action"
  assumes refuses: "\<not> user_claims ctx \<Longrightarrow>
    \<exists>code msg. 400 \<le> code \<and> run_state (user_handler ctx w) c = (Responded (SendError w code msg), c)"
begin

text \<open>Behind the middleware, whatever arrives without a token that parses to a user's claims.\<close>

lemma unauthenticated_refused:
  assumes "req_Path r \<noteq> ''/auth/login''" "\<not> user_claims (bearer_claims J now key r)"
  shows "\<exists>code msg. 400 \<le> code \<and>
    run_state (AuthMiddleware J now key (\<lambda>r. user_handler (req_Claims r)) r w) c = (Responded (SendError w code msg), c)"
proof (cases "bearer_claims J now key r")
  case None
  have "\<exists>code' \<ge> 400. \<exists>msg'. SendError w code msg = SendError w code' msg'" if "400 \<le> code" for code msg
    using that by blast
  with None assms(1) show ?thesis by (auto simp: AuthMiddleware_other_path)
next
  case (Some claims)
  with assms refuses [of "Some claims" w c] show ?thesis
    by (simp add: AuthMiddleware_other_path)
qed

end

section \<open>Properties\<close>

text \<open>A token package in which a token spells out its method, user name and subject, for the
  witnesses.\<close>

definition dotless :: "string \<Rightarrow> bool" where
  "dotless s = list_all (\<lambda>ch. ch \<noteq> CHR ''.'') s"

definition plain_alg :: "string \<Rightarrow> string option" where
  "plain_alg token = Some (takeWhile (\<lambda>ch. ch \<noteq> CHR ''.'') token)"

definition plain_jwt :: jwt where
  "plain_jwt = \<lparr> jwt_NewNumericDate = id,
     jwt_SignedString = (\<lambda>alg claims key. if dotless alg
       then Some (alg @ ''.'' @ cl_UserName claims @ ''.'' @ cl_Subject claims) else None),
     jwt_ParseWithClaims = (\<lambda>_ token _ methods.
       let alg = takeWhile (\<lambda>ch. ch \<noteq> CHR ''.'') token; rest = drop (Suc (length alg)) token;
           name = takeWhile (\<lambda>ch. ch \<noteq> CHR ''.'') rest in
       if alg \<in> set methods
       then Some \<lparr> cl_UserName = name, cl_Issuer = ''reed'', cl_Subject = drop (Suc (length name)) rest,
         cl_IssuedAt = 0, cl_ExpiresAt = 0 \<rparr>
       else None) \<rparr>"

lemma plain_jwt_ok: "jwt_ok plain_alg plain_jwt"
  by (auto simp: jwt_ok_def plain_jwt_def plain_alg_def dotless_def list_all_iff takeWhile_append2 Let_def
      split: if_splits)

text \<open>What a login is answered, status and body, from the credentials, the accounts and the fate of
  the call to the user service. The statuses of lost calls are written out.\<close>

definition lost_call :: "grpc_code \<Rightarrow> string \<Rightarrow> nat \<times> payload" where
  "lost_call st name =
     (if st = Code_NotFound then (404, P_Error (Text (''no user found with username: '' @ name)))
      else (case map_of [(Code_InvalidArgument, 400), (Code_AlreadyExists, 409), (Code_PermissionDenied, 403),
              (Code_Unauthenticated, 401), (Code_ResourceExhausted, 429), (Code_Unimplemented, 501),
              (Code_Unavailable, 503), (Code_DeadlineExceeded, 504)] st of
            Some code \<Rightarrow> code | None \<Rightarrow> 500, P_Error ErrText))"

definition login_reply ::
  "UserServiceClient \<Rightarrow> env \<Rightarrow> jwt \<Rightarrow> string \<Rightarrow> time \<Rightarrow> time \<Rightarrow> user_db \<Rightarrow> PostAuthLoginJSONBody option \<Rightarrow> nat \<times> payload" where
  "login_reply us E J key now1 now2 users body = (case body of
      None \<Rightarrow> (400, P_Error ErrText)
    | Some b \<Rightarrow> (case tr_delivery (usc_conn us) of
        Undelivered st \<Rightarrow> lost_call st (lb_UserName b)
      | ReplyLost st \<Rightarrow> lost_call st (lb_UserName b)
      | Delivered \<Rightarrow>
          if lb_UserName b = [] \<or> lb_Password b = [] then (400, P_Error ErrText)
          else (case find (\<lambda>r. u_user_name r = lb_UserName b) users of
            None \<Rightarrow> (404, P_Error (Text (''no user found with username: '' @ lb_UserName b)))
          | Some r \<Rightarrow>
              if \<not> CompareHashAndPassword (usc_bcrypt us) (u_hashed_password r) (lb_Password b)
              then (401, P_Error (Text ''the provided username and password did not match''))
              else (case jwt_SignedString J HS256 \<lparr> cl_UserName = lb_UserName b, cl_Issuer = ''reed'',
                    cl_Subject = uuid_String E (u_id r), cl_IssuedAt = jwt_NewNumericDate J now1,
                    cl_ExpiresAt = jwt_NewNumericDate J (now2 + 3600000000000) \<rparr> key of
                  None \<Rightarrow> (500, P_Error ErrText)
                | Some token \<Rightarrow> (200, P_Login 3600 token)))))"

lemma GrpcToHttpStatus_lost:
  "(if st = Code_NotFound then SendError w 404 (Text (''no user found with username: '' @ name))
    else SendGrpcError w (RpcError st)) = (case lost_call st name of (code, p) \<Rightarrow> Encode (WriteHeader w code) p)"
  by (cases st) (simp_all add: lost_call_def SendGrpcError_def SendError_def)

lemma login_reply_body_allowed: "body_allowed (fst (login_reply us E J key now1 now2 users body))"
proof -
  have "body_allowed (fst (lost_call st name))" for st name
    by (cases st) (simp_all add: lost_call_def)
  then show ?thesis
    by (auto simp: login_reply_def split: option.split delivery.split)
qed

text \<open>The credentials as the gateway sees them behind the transport, with every fault.\<close>

lemma ValidatePassword_call:
  assumes "env_ok E" "usc_server us = pg_user_repository" "snapshot c = None" "users_ok (tables c)"
    and run: "run_state (uclient_ValidatePassword us E name p) c = (q, d)"
  shows "tables d = tables c \<and> (q = (case tr_delivery (usc_conn us) of
        Undelivered st \<Rightarrow> Some (Inl (RpcError st)) | ReplyLost st \<Rightarrow> Some (Inl (RpcError st))
      | Delivered \<Rightarrow>
          if name = [] \<or> p = [] then Some (Inl (RpcError Code_InvalidArgument))
          else (case find (\<lambda>r. u_user_name r = name) (tables c) of
            None \<Rightarrow> Some (Inl (RpcError Code_NotFound))
          | Some r \<Rightarrow> Some (Inr (if CompareHashAndPassword (usc_bcrypt us) (u_hashed_password r) p
              then (u_id r, True) else (uuid_Nil, False))))) \<or>
    faults c \<noteq> [] \<and> tr_delivery (usc_conn us) = Delivered \<and> q = Some (Inl (RpcError Code_Internal)))"
proof -
  let ?req = "\<lparr> vpr_UserName = name, vpr_UserPassword = p \<rparr>"
  let ?m = "urpc_ValidatePassword pg_user_repository E (usc_bcrypt us) ?req"
  obtain x e where m: "run_state ?m c = (x, e)" by fastforce
  show ?thesis
  proof (cases "name = [] \<or> p = []")
    case True
    then have "x = Inl (UStatus Code_InvalidArgument None)" "e = c"
      using m by (auto simp: urpc_ValidatePassword_def split: if_splits)
    with True m run assms(2) show ?thesis
      by (auto simp: uclient_ValidatePassword_def invoke_def run_check split: delivery.splits)
  next
    case False
    then have "vpr_UserPassword ?req \<noteq> []" "vpr_UserName ?req \<noteq> []" by simp_all
    from login_run [OF assms(3,4) this m] False m run assms(1,2) show ?thesis
      by (auto simp: uclient_ValidatePassword_def invoke_def run_check split: delivery.splits option.splits if_splits)
  qed
qed

lemma login_response:
  assumes "env_ok E" "usc_server us = pg_user_repository" "snapshot c = None" "users_ok (tables c)"
    and run: "run_state (http_PostAuthLogin us E J key now1 now2 body w) c = (out, c')"
  shows "tables c' = tables c \<and> (\<exists>st p. out = Responded (Encode (WriteHeader w st) p) \<and> body_allowed st \<and>
    ((st, p) = login_reply us E J key now1 now2 (tables c) body \<or>
     faults c \<noteq> [] \<and> tr_delivery (usc_conn us) = Delivered \<and> body \<noteq> None \<and> (st, p) = (500, P_Error ErrText)))"
proof (cases body)
  case None
  with run show ?thesis by (auto simp: http_PostAuthLogin_def login_reply_def SendError_def)
next
  case (Some b)
  obtain q d where q: "run_state (uclient_ValidatePassword us E (lb_UserName b) (lb_Password b)) c = (q, d)" by fastforce
  note V = ValidatePassword_call [OF assms(1-4) q]
  define reply where "reply = login_reply us E J key now1 now2 (tables c) body"
  have c': "c' = d" "out = (case q of None \<Rightarrow> Panicked
      | Some (Inl err) \<Rightarrow> Responded (if err = RpcError Code_NotFound
          then SendError w 404 (Text (''no user found with username: '' @ lb_UserName b)) else SendGrpcError w err)
      | Some (Inr (userId, isValid)) \<Rightarrow> Responded (if \<not> isValid
          then SendError w 401 (Text ''the provided username and password did not match'')
          else (case jwt_SignedString J HS256 (login_claims J E now1 now2 (lb_UserName b) userId) key of
              None \<Rightarrow> SendError w 500 ErrText | Some token \<Rightarrow> SendJsonResponse w 200 (P_Login 3600 token))))"
    using run q Some by (auto simp: http_PostAuthLogin_def split: option.splits sum.splits prod.splits if_splits)
  from V consider "q = Some (Inl (RpcError Code_Internal))" "faults c \<noteq> []" "tr_delivery (usc_conn us) = Delivered"
    | "out = Responded (Encode (WriteHeader w (fst reply)) (snd reply))"
    unfolding c' reply_def
    by (auto simp: Some login_reply_def lost_call_def SendGrpcError_def SendError_def SendJsonResponse_def login_claims_def
        split: delivery.splits option.splits if_splits grpc_code.splits)
  then show ?thesis
  proof cases
    case 1
    with V c' Some have "tables c' = tables c \<and> out = Responded (Encode (WriteHeader w 500) (P_Error ErrText))"
      by (auto simp: SendGrpcError_def SendError_def)
    moreover have "body_allowed 500" by simp
    ultimately show ?thesis using 1(2,3) Some by blast
  next
    case 2
    with V c'(1) login_reply_body_allowed [of us E J key now1 now2 "tables c" body] show ?thesis
      unfolding reply_def by (metis prod.collapse)
  qed
qed

text \<open>A client of the PostgreSQL-backed user service, and a login with the right password.\<close>

definition login_client :: UserServiceClient where
  "login_client = \<lparr> usc_server = pg_user_repository, usc_bcrypt = demo_bcrypt,
     usc_conn = \<lparr> tr_delivery = Delivered, tr_crash = Code_Unavailable \<rparr> \<rparr>"

lemma login_client_simps:
  "usc_server login_client = pg_user_repository" "tr_delivery (usc_conn login_client) = Delivered"
  "usc_bcrypt login_client = demo_bcrypt"
  by (simp_all add: login_client_def)

lemma demo_login:
  "\<exists>c'. run_state (http_PostAuthLogin login_client (concrete_env 1 1) plain_jwt ''asdf'' 5 6
     (Some \<lparr> lb_Password = ''old-secret'', lb_UserName = ''alice'' \<rparr>) fresh_writer) demo_users =
   (Responded \<lparr> rw_Status = Some 200, rw_Body = [P_Login 3600 (''HS256.alice.'' @ canon_String 7)] \<rparr>, c')"
proof -
  let ?m = "http_PostAuthLogin login_client (concrete_env 1 1) plain_jwt ''asdf'' 5 6
     (Some \<lparr> lb_Password = ''old-secret'', lb_UserName = ''alice'' \<rparr>) fresh_writer"
  have "fst (run_state ?m demo_users) =
      Responded \<lparr> rw_Status = Some 200, rw_Body = [P_Login 3600 (''HS256.alice.'' @ canon_String 7)] \<rparr>"
    using login_response [OF env_ok_concrete login_client_simps(1) demo_users_ok(1,2) prod.collapse [symmetric],
        of 1 1 plain_jwt "''asdf''" 5 6 "Some \<lparr> lb_Password = ''old-secret'', lb_UserName = ''alice'' \<rparr>" fresh_writer]
      demo_users_ok(3)
    by (simp add: login_client_simps login_reply_def demo_users_def serviceToRepository_def demo_bcrypt_def plain_jwt_def
        dotless_def concrete_env_def Encode_def Let_def)
  then show ?thesis by (metis prod.collapse)
qed

text \<open>C37: the gateway refuses the tokens it issues. The login handler signs with HS256 and the
  middleware accepts ES256 only: with a token that any login returned, every path but the
  login is answered 403 at every moment, and the handler behind the middleware does not run.\<close>

theorem issued_token_refused:
  assumes "jwt_ok header_alg J"
    and "run_state (http_PostAuthLogin us E J key now1 now2 body fresh_writer) c =
      (Responded \<lparr> rw_Status = st, rw_Body = [P_Login n token] \<rparr>, c')"
    and "req_Path r \<noteq> ''/auth/login''" "req_Authentication r = ''Bearer '' @ token"
  shows "run_state (AuthMiddleware J t key nextHandler r w) d = (Responded (SendError w 403 ErrText), d)"
proof -
  obtain claims where "jwt_SignedString J HS256 claims key = Some token"
    using assms(2)
    by (auto simp: http_PostAuthLogin_def SendGrpcError_def GrpcToHttpStatus_error
        split: option.splits if_splits prod.splits sum.splits)
  then have alg: "header_alg token = Some HS256"
    by (rule jwt_okD [OF assms(1)])
  have "jwt_ParseWithClaims J t token key [ES256] = None"
  proof (cases "jwt_ParseWithClaims J t token key [ES256]")
    case (Some claims')
    from jwt_okD(2) [OF assms(1) this] alg show ?thesis by simp
  qed
  with assms(3,4) show ?thesis
    by (simp add: AuthMiddleware_other_path bearer_claims_def)
qed

theorem issued_token_refused_witness:
  "\<exists>c'. run_state (http_PostAuthLogin login_client (concrete_env 1 1) plain_jwt ''asdf'' 5 6
     (Some \<lparr> lb_Password = ''old-secret'', lb_UserName = ''alice'' \<rparr>) fresh_writer) demo_users =
     (Responded \<lparr> rw_Status = Some 200, rw_Body = [P_Login 3600 (''HS256.alice.'' @ canon_String 7)] \<rparr>, c') \<and>
   (\<forall>nextHandler. run_state (AuthMiddleware plain_jwt 100 ''asdf'' nextHandler
      (request_to ''/document'' (''Bearer '' @ ''HS256.alice.'' @ canon_String 7))
      fresh_writer) demo_users = (Responded \<lparr> rw_Status = Some 403, rw_Body = [P_Error ErrText] \<rparr>, demo_users))"
proof -
  from demo_login obtain c' where run: "run_state (http_PostAuthLogin login_client (concrete_env 1 1) plain_jwt ''asdf'' 5 6
     (Some \<lparr> lb_Password = ''old-secret'', lb_UserName = ''alice'' \<rparr>) fresh_writer) demo_users =
     (Responded \<lparr> rw_Status = Some 200, rw_Body = [P_Login 3600 (''HS256.alice.'' @ canon_String 7)] \<rparr>, c')" by blast
  let ?r = "(request_to ''/document'' (''Bearer '' @ ''HS256.alice.'' @ canon_String 7))"
  have "req_Path ?r \<noteq> ''/auth/login''" "req_Authentication ?r = ''Bearer '' @ ''HS256.alice.'' @ canon_String 7"
    by (simp_all add: request_to_def)
  from issued_token_refused [OF plain_jwt_ok run this, where t = 100 and w = fresh_writer and d = demo_users] run
  show ?thesis by simp
qed

end
