(* ===== verification/Gateway_Documents.thy ===== *)
theory Gateway_Documents
  imports Gateway_Auth
begin

text \<open>
  The document routes of the gateway (second part of \<^verbatim>\<open>document.go\<close>). A handler reads the
  claims the middleware put into the request context, parses its parameters and body, makes
  one call of the document service and turns the reply into an HTTP response.
\<close>

section \<open>Parameters and bodies\<close>

record GetDocumentParams =
  gp_Cursor :: "string option"
  gp_Limit :: "int32 option"
  gp_PermissionLevel :: "net_PermissionLevel option"

record PostDocumentJSONBody =
  pd_DocumentDescription :: "string option"
  pd_DocumentName :: "string option"
  pd_UserId :: uuid

record PutDocumentJSONBody =
  ud_DocumentDescription :: "string option"
  ud_DocumentName :: "string option"

definition decoded :: "'b option \<Rightarrow> unit + 'b" where
  "decoded body = (case body of None \<Rightarrow> Inl () | Some b \<Rightarrow> Inr b)"

lemma decoded_simps [simp]: "decoded None = Inl ()" "decoded (Some b) = Inr b"
  by (simp_all add: decoded_def)

lemma GetClaims_simps [simp]: "GetClaims None = Inl ()" "GetClaims (Some c) = Inr c"
  by (simp_all add: GetClaims_def)

section \<open>Handlers\<close>

definition http_DeleteDocument ::
  "DocumentServiceClient \<Rightarrow> env \<Rightarrow> uuid list option \<Rightarrow> CustomClaims option \<Rightarrow> ResponseWriter \<Rightarrow> doc_db handler" where
  "http_DeleteDocument ds E body ctx w =
     attempt (pure (decoded body)) (\<lambda>_. SendError w 400 ErrText) (\<lambda>documentIds.
     attempt (pure (GetClaims ctx)) (\<lambda>_. SendError w 500 (Text ''Internal Server Error'')) (\<lambda>claims.
     attempt (pure (ParsePrincipalId E claims)) (\<lambda>_. SendError w 400 ErrText) (\<lambda>principalId.
     let principalType = GetTokenType claims in
     if principalType \<noteq> PrincipalTypeUser
     then respond (SendError w 403
       (Text (''Only user type tokens can delete documents, received token with type: '' @ principalType)))
     else attempt (client_DeleteDocuments ds E documentIds principalId) (SendGrpcError w) (\<lambda>_.
       respond (WriteHeader w 204)))))"

definition http_GetDocument ::
  "DocumentServiceClient \<Rightarrow> env \<Rightarrow> protobuf \<Rightarrow> GetDocumentParams \<Rightarrow> CustomClaims option \<Rightarrow> ResponseWriter \<Rightarrow> doc_db handler" where
  "http_GetDocument ds E P params ctx w =
     attempt (pure (GetClaims ctx)) (\<lambda>_. SendError w 500 (Text ''Internal Server Error'')) (\<lambda>claims.
     attempt (pure (ParsePrincipalId E claims)) (\<lambda>_. SendError w 400 ErrText) (\<lambda>principalId.
     attempt (pure (case gp_Cursor params of
         None \<Rightarrow> Inr None
       | Some s \<Rightarrow> checked (netToProtoCursor P s) id (\<lambda>pc. Inr (Some pc))))
       (\<lambda>_. SendError w 400 (Text ''failed to parse the provided cursor'')) (\<lambda>cursor.
     attempt (pure (case gp_PermissionLevel params of
         None \<Rightarrow> Inr PERMISSION_OWNER
       | Some l \<Rightarrow> netToProtoPermissionLevel l)) (\<lambda>_. SendError w 400 ErrText) (\<lambda>permissionLevel.
     attempt (client_ListDocumentsByPrincipal ds E principalId principalId [permissionLevel] cursor (gp_Limit params))
       (SendGrpcError w) (\<lambda>(documentPermissions, replyCursor).
     attempt (pure (protoToNetCursor P replyCursor)) (\<lambda>_. SendError w 500 (Text ''internal server error'')) (\<lambda>respCursor.
     attempt (pure (map_err (\<lambda>dp. protoToNetDocument E (pbdp_Document dp)) documentPermissions))
       (\<lambda>_. SendError w 500 (Text ''internal server error'')) (\<lambda>netDocuments.
     respond (SendJsonResponse w 200 (P_Documents (Some respCursor) netDocuments)))))))))"

definition http_PostDocument ::
  "DocumentServiceClient \<Rightarrow> env \<Rightarrow> PostDocumentJSONBody option \<Rightarrow> CustomClaims option \<Rightarrow> ResponseWriter \<Rightarrow> doc_db handler" where
  "http_PostDocument ds E body ctx w =
     attempt (pure (GetClaims ctx)) (\<lambda>_. SendError w 500 (Text ''InternalServerError'')) (\<lambda>claims.
     if GetTokenType claims \<noteq> PrincipalTypeUser
     then respond (SendError w 403 (Text ''must have a user type token to make documents''))
     else
     attempt (pure (ParsePrincipalId E claims)) (\<lambda>_. SendError w 400 ErrText) (\<lambda>userId.
     attempt (pure (decoded body)) (\<lambda>_. SendError w 400 ErrText) (\<lambda>request.
     attempt (client_CreateDocument ds E userId (pd_DocumentName request) (pd_DocumentDescription request))
       (SendGrpcError w) (\<lambda>documentId.
     respond (SendJsonResponse w 200 (P_Created documentId))))))"

definition http_DeleteDocumentDocumentId ::
  "DocumentServiceClient \<Rightarrow> env \<Rightarrow> uuid \<Rightarrow> CustomClaims option \<Rightarrow> ResponseWriter \<Rightarrow> doc_db handler" where
  "http_DeleteDocumentDocumentId ds E documentId ctx w =
     attempt (pure (GetClaims ctx)) (\<lambda>_. SendError w 500 (Text ''Internal server error'')) (\<lambda>claims.
     attempt (pure (ParsePrincipalId E claims)) (\<lambda>_. SendError w 400 ErrText) (\<lambda>principalId.
     if GetTokenType claims \<noteq> PrincipalTypeUser
     then respond (SendError w 403 (Text ''must have a user type token to delete documents''))
     else attempt (client_DeleteDocument ds E documentId principalId) (SendGrpcError w) (\<lambda>_.
       respond (WriteHeader w 204))))"

text \<open>The client method takes the document first and the principal second; the handler passes
  them the other way round.\<close>

definition http_GetDocumentDocumentId ::
  "DocumentServiceClient \<Rightarrow> env \<Rightarrow> uuid \<Rightarrow> CustomClaims option \<Rightarrow> ResponseWriter \<Rightarrow> doc_db handler" where
  "http_GetDocumentDocumentId ds E documentId ctx w =
     attempt (pure (GetClaims ctx)) (\<lambda>_. SendError w 500 (Text ''Internal Server error'')) (\<lambda>claims.
     attempt (pure (ParsePrincipalId E claims)) (\<lambda>_. SendError w 400 ErrText) (\<lambda>principalId.
     attempt (client_GetDocument ds E principalId documentId) (SendGrpcError w) (\<lambda>result.
     attempt (pure (protoToNetDocument E result)) (\<lambda>_. SendError w 500
       (Text ''Internal server error, failed to parse document sent from document service'')) (\<lambda>document.
     respond (SendJsonResponse w 200 (P_Document document))))))"

text \<open>The first two error branches do not return: without claims the next line calls a method on
  a nil pointer; with an unreadable subject the handler goes on with the nil principal.\<close>

definition http_PutDocumentDocumentId ::
  "DocumentServiceClient \<Rightarrow> env \<Rightarrow> uuid \<Rightarrow> PutDocumentJSONBody option \<Rightarrow> CustomClaims option \<Rightarrow>
   ResponseWriter \<Rightarrow> doc_db handler" where
  "http_PutDocumentDocumentId ds E documentId body ctx w0 = (case GetClaims ctx of
      Inl _ \<Rightarrow> State_Monad.return Panicked
    | Inr claims \<Rightarrow>
        let (principalId, w) = (case ParsePrincipalId E claims of
              Inl _ \<Rightarrow> (uuid_Nil, SendError w0 400 ErrText)
            | Inr u \<Rightarrow> (u, w0)) in
        attempt (pure (decoded body)) (\<lambda>_. SendError w 400 ErrText) (\<lambda>b.
        attempt (client_UpdateDocument ds E documentId principalId (ud_DocumentName b) (ud_DocumentDescription b))
          (SendGrpcError w) (\<lambda>_.
        respond (WriteHeader w 204))))"

section \<open>The handlers for users only\<close>

lemma run_attempt_pure:
  "run_state (attempt (pure r) h k) c = (case r of Inl e \<Rightarrow> (Responded (h e), c) | Inr x \<Rightarrow> run_state (k x) c)"
  by (simp split: sum.split)

lemma refused_exI:
  "400 \<le> code \<Longrightarrow> \<exists>code' \<ge> 400. \<exists>msg'. SendError w code msg = SendError w code' msg'"
  by blast

lemma not_user_cases:
  assumes "\<not> user_claims ctx"
  obtains "ctx = None" | c where "ctx = Some c" "GetTokenType c \<noteq> PrincipalTypeUser"
  using assms by (cases ctx) (auto simp: user_claims_def)

interpretation batch_delete: user_only "http_DeleteDocument ds E body"
proof
  fix ctx w and c :: "doc_db conn"
  assume "\<not> user_claims ctx"
  then show "\<exists>code msg. 400 \<le> code \<and>
      run_state (http_DeleteDocument ds E body ctx w) c = (Responded (SendError w code msg), c)"
    by (cases rule: not_user_cases; cases body)
      (auto simp: http_DeleteDocument_def Let_def run_attempt_pure refused_exI split: sum.splits)
qed

interpretation post_document: user_only "http_PostDocument ds E body"
proof
  fix ctx w and c :: "doc_db conn"
  assume "\<not> user_claims ctx"
  then show "\<exists>code msg. 400 \<le> code \<and>
      run_state (http_PostDocument ds E body ctx w) c = (Responded (SendError w code msg), c)"
    by (cases rule: not_user_cases) (auto simp: http_PostDocument_def refused_exI)
qed

interpretation delete_one: user_only "http_DeleteDocumentDocumentId ds E documentId"
proof
  fix ctx w and c :: "doc_db conn"
  assume "\<not> user_claims ctx"
  then show "\<exists>code msg. 400 \<le> code \<and>
      run_state (http_DeleteDocumentDocumentId ds E documentId ctx w) c = (Responded (SendError w code msg), c)"
    by (cases rule: not_user_cases)
      (auto simp: http_DeleteDocumentDocumentId_def run_attempt_pure refused_exI split: sum.splits)
qed

section \<open>Sample requests\<close>

text \<open>A client of the PostgreSQL-backed service over a transport that delivers, and the claims of
  user 7, for the witnesses.\<close>

definition demo_client :: DocumentServiceClient where
  "demo_client = \<lparr> dsc_server = pg_repository, dsc_conn = \<lparr> tr_delivery = Delivered, tr_crash = Code_Unavailable \<rparr> \<rparr>"

definition demo_claims :: "string \<Rightarrow> CustomClaims" where
  "demo_claims subject = \<lparr> cl_UserName = ''alice'', cl_Issuer = ''reed'', cl_Subject = subject,
     cl_IssuedAt = 0, cl_ExpiresAt = 3600 \<rparr>"

lemma demo_client_simps [simp]:
  "dsc_server demo_client = pg_repository" "tr_delivery (dsc_conn demo_client) = Delivered"
  "uuid_Parse demo_env (canon_String u) = Some u" "uuid_String demo_env = canon_String"
  "GetTokenType (demo_claims s) = PrincipalTypeUser" "cl_Subject (demo_claims s) = s"
  by (simp_all add: demo_client_def demo_env_def concrete_env_def canon_roundtrip demo_claims_def GetTokenType_def)

end
