(* ===== verification/Gateway_Permissions.thy ===== *)
theory Gateway_Permissions
  imports Gateway_Documents
begin

text \<open>
  The permission routes of the gateway (\<^verbatim>\<open>permission.go\<close>): listing, sharing with a user or a
  new guest, reading, changing and deleting permissions on a document.
\<close>

section \<open>Parameters and bodies\<close>

record ListPermissionsParams =
  lp_Cursor :: "string option"
  lp_Limit :: "int32 option"
  lp_PermissionFilter :: "net_PermissionLevel list option"

record PostPermissionJSONBody =
  pp_PermissionLevel :: net_PermissionLevel
  pp_UserIdToShare :: "uuid option"

record PutPermissionJSONBody =
  up_PermissionLevel :: net_PermissionLevel
  up_PrincipalType :: net_PrincipalType

section \<open>Handlers\<close>

definition http_GetDocumentDocumentIdPermission ::
  "DocumentServiceClient \<Rightarrow> env \<Rightarrow> protobuf \<Rightarrow> uuid \<Rightarrow> ListPermissionsParams \<Rightarrow> CustomClaims option \<Rightarrow>
   ResponseWriter \<Rightarrow> doc_db handler" where
  "http_GetDocumentDocumentIdPermission ds E P documentId params ctx w =
     attempt (pure (GetClaims ctx)) (\<lambda>_. SendError w 500 (Text ''Internal server error'')) (\<lambda>claims.
     if GetTokenType claims \<noteq> PrincipalTypeUser
     then respond (SendError w 403 (Text ''Must have a user type token to list permissions on a document''))
     else
     attempt (pure (ParsePrincipalId E claims)) (\<lambda>_. SendError w 400 ErrText) (\<lambda>userId.
     attempt (pure (case lp_PermissionFilter params of
         None \<Rightarrow> Inr []
       | Some ls \<Rightarrow> netToProtoPermissionFilter ls)) (\<lambda>_. SendError w 400 ErrText) (\<lambda>permissionFilter.
     attempt (pure (case lp_Cursor params of
         None \<Rightarrow> Inr None
       | Some s \<Rightarrow> checked (netToProtoCursor P s) id (\<lambda>pc. Inr (Some pc))))
       (\<lambda>_. SendError w 400 ErrText) (\<lambda>cursor.
     attempt (client_ListPermissionsOnDocument ds E documentId userId permissionFilter cursor (lp_Limit params))
       (SendGrpcError w) (\<lambda>(recipientPermissions, replyCursor).
     attempt (pure (protoToNetPermissions E recipientPermissions))
       (\<lambda>_. SendError w 500 (Text ''failed to parse permission returned from backend service'')) (\<lambda>netPermissions.
     attempt (pure (protoToNetCursor P replyCursor))
       (\<lambda>_. SendError w 500 (Text ''failed to parse cursor returned from backend service'')) (\<lambda>responseCursor.
     respond (SendJsonResponse w 200 (P_Permissions (Some responseCursor) netPermissions)))))))))"

definition http_PostDocumentDocumentIdPermission ::
  "DocumentServiceClient \<Rightarrow> env \<Rightarrow> uuid \<Rightarrow> PostPermissionJSONBody option \<Rightarrow> CustomClaims option \<Rightarrow>
   ResponseWriter \<Rightarrow> doc_db handler" where
  "http_PostDocumentDocumentIdPermission ds E documentId body ctx w =
     attempt (pure (GetClaims ctx)) (\<lambda>_. SendError w 500 (Text ''Internal Server error'')) (\<lambda>claims.
     attempt (pure (ParsePrincipalId E claims)) (\<lambda>_. SendError w 400 ErrText) (\<lambda>principalId.
     if GetTokenType claims \<noteq> PrincipalTypeUser
     then respond (SendError w 403 (Text ''must have a user token to create permissions on a document''))
     else
     attempt (pure (decoded body)) (\<lambda>_. SendError w 400 ErrText) (\<lambda>reqBody.
     if pp_PermissionLevel reqBody = net_Owner
     then respond (SendError w 400 (Text ''cannot create permissions at owner level''))
     else
     attempt (pure (netToProtoPermissionLevel (pp_PermissionLevel reqBody)))
       (\<lambda>_. SendError w 400 (Text ''unable to map the given permission level to a valid permission level'')) (\<lambda>permissionLevel.
     case pp_UserIdToShare reqBody of
       Some userIdToShare \<Rightarrow>
         attempt (client_UpsertPermissionUser ds E userIdToShare principalId documentId permissionLevel)
           (SendGrpcError w) (\<lambda>_.
         respond (SendJsonResponse w 200 (P_Shared None (Some userIdToShare))))
     | None \<Rightarrow>
         attempt (client_CreateGuest ds E documentId principalId permissionLevel) (SendGrpcError w) (\<lambda>result.
         attempt (pure (parse_reply_id E result)) (\<lambda>_. SendError w 500 (Text ''Internal Server Error'')) (\<lambda>guestId.
         respond (SendJsonResponse w 200 (P_Shared (Some guestId) None))))))))"

definition http_DeletePermissionPrincipal ::
  "DocumentServiceClient \<Rightarrow> env \<Rightarrow> uuid \<Rightarrow> uuid \<Rightarrow> CustomClaims option \<Rightarrow> ResponseWriter \<Rightarrow> doc_db handler" where
  "http_DeletePermissionPrincipal ds E documentId principalId ctx w =
     attempt (pure (GetClaims ctx)) (\<lambda>_. SendError w 500 (Text ''Internal server error'')) (\<lambda>claims.
     attempt (pure (ParsePrincipalId E claims)) (\<lambda>_. SendError w 400 ErrText) (\<lambda>callingPrincipalId.
     if GetTokenType claims \<noteq> PrincipalTypeUser
     then respond (SendError w 403 (Text ''only users type tokens can delete permissions''))
     else attempt (client_DeletePermissionsPrincipal ds E principalId documentId callingPrincipalId) (SendGrpcError w) (\<lambda>_.
       respond (WriteHeader w 204))))"

definition http_GetPermissionPrincipal ::
  "DocumentServiceClient \<Rightarrow> env \<Rightarrow> uuid \<Rightarrow> uuid \<Rightarrow> CustomClaims option \<Rightarrow> ResponseWriter \<Rightarrow> doc_db handler" where
  "http_GetPermissionPrincipal ds E documentId principalId ctx w =
     attempt (pure (GetClaims ctx)) (\<lambda>_. SendError w 500 (Text ''Internal Server Error'')) (\<lambda>claims.
     attempt (pure (ParsePrincipalId E claims)) (\<lambda>_. SendError w 403 ErrText) (\<lambda>callingPrincipalId.
     if GetTokenType claims = PrincipalTypeGuest \<and> principalId \<noteq> callingPrincipalId
     then respond (SendError w 403 (Text ''guests cannot get the permissions of other principals on documents''))
     else
     attempt (client_GetPermissionsOfPrincipalOnDocument ds E documentId principalId callingPrincipalId) (SendGrpcError w) (\<lambda>result.
     attempt (pure (protoToNetPermission E result)) (\<lambda>_. SendError w 500 (Text ''Internal server error'')) (\<lambda>netPermission.
     respond (SendJsonResponse w 200 (P_Permission netPermission))))))"

definition http_PutPermissionPrincipal ::
  "DocumentServiceClient \<Rightarrow> env \<Rightarrow> uuid \<Rightarrow> uuid \<Rightarrow> PutPermissionJSONBody option \<Rightarrow> CustomClaims option \<Rightarrow>
   ResponseWriter \<Rightarrow> doc_db handler" where
  "http_PutPermissionPrincipal ds E documentId principalId body ctx w =
     attempt (pure (GetClaims ctx)) (\<lambda>_. SendError w 500 (Text ''Internal server error'')) (\<lambda>claims.
     attempt (pure (ParsePrincipalId E claims)) (\<lambda>_. SendError w 400 ErrText) (\<lambda>callingPrincipalId.
     if GetTokenType claims = PrincipalTypeGuest
     then respond (SendError w 403 (Text ''guests cannot change the permissions of other principals''))
     else
     attempt (pure (decoded body)) (\<lambda>_. SendError w 400 ErrText) (\<lambda>reqBody.
     attempt (pure (netToProtoPermissionLevel (up_PermissionLevel reqBody)))
       (\<lambda>_. SendError w 400 (Text ''invalid permission level'')) (\<lambda>permissionLevel.
     if up_PrincipalType reqBody = PrincipalTypeUser
     then attempt (client_UpsertPermissionUser ds E principalId callingPrincipalId documentId permissionLevel)
       (SendGrpcError w) (\<lambda>_. respond (WriteHeader w 204))
     else attempt (client_UpdatePermissionGuest ds E principalId callingPrincipalId permissionLevel)
       (SendGrpcError w) (\<lambda>_. respond (WriteHeader w 204))))))"

section \<open>The handlers for users only\<close>

lemma GetTokenType_cases: "GetTokenType c \<noteq> PrincipalTypeUser \<longleftrightarrow> GetTokenType c = PrincipalTypeGuest"
  by (simp add: GetTokenType_def)

interpretation list_permissions: user_only "http_GetDocumentDocumentIdPermission ds E P documentId params"
proof
  fix ctx w and c :: "doc_db conn"
  assume "\<not> user_claims ctx"
  then show "\<exists>code msg. 400 \<le> code \<and>
      run_state (http_GetDocumentDocumentIdPermission ds E P documentId params ctx w) c = (Responded (SendError w code msg), c)"
    by (cases rule: not_user_cases) (auto simp: http_GetDocumentDocumentIdPermission_def refused_exI)
qed

interpretation share: user_only "http_PostDocumentDocumentIdPermission ds E documentId body"
proof
  fix ctx w and c :: "doc_db conn"
  assume "\<not> user_claims ctx"
  then show "\<exists>code msg. 400 \<le> code \<and>
      run_state (http_PostDocumentDocumentIdPermission ds E documentId body ctx w) c = (Responded (SendError w code msg), c)"
    by (cases rule: not_user_cases)
      (auto simp: http_PostDocumentDocumentIdPermission_def run_attempt_pure refused_exI split: sum.splits)
qed

interpretation delete_permission: user_only "http_DeletePermissionPrincipal ds E documentId principalId"
proof
  fix ctx w and c :: "doc_db conn"
  assume "\<not> user_claims ctx"
  then show "\<exists>code msg. 400 \<le> code \<and>
      run_state (http_DeletePermissionPrincipal ds E documentId principalId ctx w) c = (Responded (SendError w code msg), c)"
    by (cases rule: not_user_cases)
      (auto simp: http_DeletePermissionPrincipal_def run_attempt_pure refused_exI split: sum.splits)
qed

interpretation put_permission: user_only "http_PutPermissionPrincipal ds E documentId principalId body"
proof
  fix ctx w and c :: "doc_db conn"
  assume "\<not> user_claims ctx"
  then show "\<exists>code msg. 400 \<le> code \<and>
      run_state (http_PutPermissionPrincipal ds E documentId principalId body ctx w) c = (Responded (SendError w code msg), c)"
    by (cases rule: not_user_cases)
      (auto simp: http_PutPermissionPrincipal_def GetTokenType_cases run_attempt_pure refused_exI split: sum.splits)
qed

section \<open>Properties\<close>

text \<open>A request that is refused: an error status, and the connection is left alone.\<close>

definition refused :: "doc_db handler \<Rightarrow> ResponseWriter \<Rightarrow> doc_db conn \<Rightarrow> bool" where
  "refused h w c \<longleftrightarrow> (\<exists>code msg. 400 \<le> code \<and> run_state h c = (Responded (SendError w code msg), c))"

text \<open>C13: behind the authentication middleware, a request whose header does not carry a token that
  parses to the claims of a user gets an error status from each of the seven routes meant for
  users, and none of them reaches the database: guests cannot create, delete or share documents,
  nor list, change or delete permissions.\<close>

theorem only_users_change:
  assumes "req_Path r \<noteq> ''/auth/login''" "\<not> user_claims (bearer_claims J t key r)"
  shows "refused (AuthMiddleware J t key (\<lambda>r. http_PostDocument ds E post (req_Claims r)) r w) w c \<and>
    refused (AuthMiddleware J t key (\<lambda>r. http_DeleteDocument ds E ids (req_Claims r)) r w) w c \<and>
    refused (AuthMiddleware J t key (\<lambda>r. http_DeleteDocumentDocumentId ds E i (req_Claims r)) r w) w c \<and>
    refused (AuthMiddleware J t key (\<lambda>r. http_PostDocumentDocumentIdPermission ds E i grant (req_Claims r)) r w) w c \<and>
    refused (AuthMiddleware J t key (\<lambda>r. http_DeletePermissionPrincipal ds E i p (req_Claims r)) r w) w c \<and>
    refused (AuthMiddleware J t key (\<lambda>r. http_PutPermissionPrincipal ds E i p change (req_Claims r)) r w) w c \<and>
    refused (AuthMiddleware J t key (\<lambda>r. http_GetDocumentDocumentIdPermission ds E P i params (req_Claims r)) r w) w c"
  unfolding refused_def
  by (intro conjI post_document.unauthenticated_refused batch_delete.unauthenticated_refused
      delete_one.unauthenticated_refused share.unauthenticated_refused delete_permission.unauthenticated_refused
      put_permission.unauthenticated_refused list_permissions.unauthenticated_refused assms)

text \<open>A token package that accepts one token, the one of a guest.\<close>

definition guest_jwt :: jwt where
  "guest_jwt = \<lparr> jwt_NewNumericDate = id, jwt_SignedString = (\<lambda>_ _ _. None),
     jwt_ParseWithClaims = (\<lambda>_ token _ methods. if token = ''guest'' \<and> ES256 \<in> set methods
       then Some \<lparr> cl_UserName = [], cl_Issuer = ''reed'', cl_Subject = canon_String 8, cl_IssuedAt = 0, cl_ExpiresAt = 9 \<rparr>
       else None) \<rparr>"

theorem only_users_change_witness:
  "refused (AuthMiddleware guest_jwt 0 ''asdf''
     (\<lambda>r. http_DeleteDocumentDocumentId demo_client demo_env 1 (req_Claims r))
     (request_to ''/document'' ''Bearer guest'') fresh_writer)
   fresh_writer demo_conn"
proof -
  let ?r = "(request_to ''/document'' ''Bearer guest'')"
  have path: "req_Path ?r \<noteq> ''/auth/login''" by (simp add: request_to_def)
  have "\<not> user_claims (bearer_claims guest_jwt 0 ''asdf'' ?r)"
    by (simp add: request_to_def user_claims_def bearer_claims_def guest_jwt_def GetTokenType_def)
  from only_users_change [OF path this] show ?thesis by blast
qed

end
