(* ===== verification/Gateway_Users.thy ===== *)
theory Gateway_Users
  imports Gateway_Auth
begin

text \<open>
  The user routes of the gateway (\<^verbatim>\<open>user.go\<close>) with the validation of a registration
  (\<^verbatim>\<open>custom_validation.go\<close>). None of them looks at the claims. The deadline of half a second
  that they put on the call is one way for its transport to fail.
\<close>

record PostUserJSONBody =
  pu_MaxDocuments :: "int32 option"
  pu_Password :: string
  pu_UserEmail :: string
  pu_UserName :: string

record PutUserJSONBody =
  uu_NewPassword :: string
  uu_OldPassword :: string

definition containsSpecialChar :: "string \<Rightarrow> bool" where
  "containsSpecialChar s = list_ex (\<lambda>ch. ch \<in> set (''!@#$%^&*()_+-=[]{};'' @ [CHR 0x27] @ '':'' @ [CHR 0x22, CHR 0x5C] @ ''|,.<>/?'')) s"

definition Validate :: "PostUserJSONBody \<Rightarrow> message option" where
  "Validate rb =
     (if \<not> containsSpecialChar (pu_Password rb) then Some (Text ''password did not contain a special character'')
      else if containsSpecialChar (pu_UserName rb) then Some (Text ''username must not contain a special character'')
      else None)"

definition http_PostUser ::
  "UserServiceClient \<Rightarrow> env \<Rightarrow> PostUserJSONBody option \<Rightarrow> ResponseWriter \<Rightarrow> user_db handler" where
  "http_PostUser us E body w = (case body of
      None \<Rightarrow> respond (SendError w 400 ErrText)
    | Some reqBody \<Rightarrow> (case Validate reqBody of
        Some err \<Rightarrow> respond (SendError w 400 err)
      | None \<Rightarrow>
          attempt (uclient_CreateUser us E (pu_UserName reqBody) (pu_UserEmail reqBody) (pu_Password reqBody)
            (pu_MaxDocuments reqBody)) (SendGrpcError w) (\<lambda>serviceReply.
          respond (SendJsonResponse w 201 (P_CreatedUser serviceReply)))))"

definition http_DeleteUserUserId :: "UserServiceClient \<Rightarrow> env \<Rightarrow> uuid \<Rightarrow> ResponseWriter \<Rightarrow> user_db handler" where
  "http_DeleteUserUserId us E userId w =
     attempt (uclient_DeactivateUser us E userId) (SendGrpcError w) (\<lambda>_. respond (WriteHeader w 204))"

definition http_GetUserUserId :: "UserServiceClient \<Rightarrow> env \<Rightarrow> uuid \<Rightarrow> ResponseWriter \<Rightarrow> user_db handler" where
  "http_GetUserUserId us E userId w =
     attempt (uclient_GetUser us E userId) (SendGrpcError w) (\<lambda>user.
     respond (SendJsonResponse w 200 (P_User \<lparr> nu_Email = pbu_Email user, nu_MaxDocuments = pbu_MaxDocuments user,
       nu_UserId = userId, nu_UserName = pbu_UserName user \<rparr>)))"

definition http_PutUserUserId ::
  "UserServiceClient \<Rightarrow> env \<Rightarrow> uuid \<Rightarrow> PutUserJSONBody option \<Rightarrow> ResponseWriter \<Rightarrow> user_db handler" where
  "http_PutUserUserId us E userId body w = (case body of
      None \<Rightarrow> respond (SendError w 400 ErrText)
    | Some reqBody \<Rightarrow>
        attempt (uclient_ChangeUserPassword us E userId (uu_OldPassword reqBody) (uu_NewPassword reqBody))
          (SendGrpcError w) (\<lambda>_. respond (WriteHeader w 204)))"

section \<open>Properties\<close>

text \<open>A password cannot be changed through the gateway. The RPC is answered by the stub of the
  generated server, because the handler of the user service has another name: whoever asks and
  whatever the passwords are, the answer to a readable request is 501 and no account changes.\<close>

lemma put_user_not_implemented:
  assumes "tr_delivery (usc_conn us) = Delivered"
  shows "run_state (http_PutUserUserId us E userId (Some b) fresh_writer) c =
    (Responded \<lparr> rw_Status = Some 501, rw_Body = [P_Error ErrText] \<rparr>, c)"
  using assms
  by (simp add: http_PutUserUserId_def uclient_ChangeUserPassword_def urpc_ChangeUserPassword_def invoke_def
      run_attempt run_check SendGrpcError_def)

end
