(* ===== verification/Proto_Sample.thy ===== *)
theory Proto_Sample
  imports Gateway_Http
begin

text \<open>
  A concrete codec for cursors in the style of the protobuf wire format (base-128 varints,
  zigzag for signed numbers, length-delimited strings, a presence byte per optional field):
  an instance of the parameter \<open>protobuf\<close> that satisfies what the theorems assume of it.
\<close>

section \<open>Varints\<close>

fun varint :: "nat \<Rightarrow> byte list" where
  "varint n = (if n < 128 then [of_nat n] else of_nat (n mod 128 + 128) # varint (n div 128))"

declare varint.simps [simp del]

fun unvarint :: "byte list \<Rightarrow> (nat \<times> byte list) option" where
  "unvarint [] = None"
| "unvarint (b # bs) = (if unat b < 128 then Some (unat b, bs)
     else map_option (\<lambda>(n, rest). (unat b - 128 + 128 * n, rest)) (unvarint bs))"

lemma unat_byte: "n < 256 \<Longrightarrow> unat (of_nat n :: byte) = n"
  by (simp add: unat_of_nat take_bit_eq_mod)

lemma unvarint_varint [simp]: "unvarint (varint n @ rest) = Some (n, rest)"
proof (induction n rule: varint.induct)
  case (1 n)
  show ?case
  proof (cases "n < 128")
    case True
    then show ?thesis by (simp add: varint.simps unat_byte)
  next
    case False
    have "n mod 128 + 128 < 256" by simp
    from unat_byte [OF this] 1 False show ?thesis
      by (subst varint.simps) simp
  qed
qed

definition zigzag :: "int \<Rightarrow> nat" where
  "zigzag i = (if 0 \<le> i then nat (2 * i) else nat (- 2 * i - 1))"

definition unzigzag :: "nat \<Rightarrow> int" where
  "unzigzag n = (if even n then int (n div 2) else - int (n div 2) - 1)"

lemma unzigzag_zigzag [simp]: "unzigzag (zigzag i) = i"
proof (cases "0 \<le> i")
  case True
  then show ?thesis by (simp add: unzigzag_def zigzag_def nat_mult_distrib)
next
  case False
  then have n: "nat (- 2 * i - 1) = Suc (2 * nat (- i - 1))" by linarith
  have "zigzag i = Suc (2 * nat (- i - 1))" using False n by (simp add: zigzag_def)
  then show ?thesis using False by (simp add: unzigzag_def)
qed

section \<open>Strings and optional fields\<close>

definition bytes_of :: "string \<Rightarrow> byte list" where
  "bytes_of s = map (\<lambda>ch. of_nat (of_char ch)) s"

definition string_of :: "byte list \<Rightarrow> string" where
  "string_of bs = map (\<lambda>b. char_of (unat b)) bs"

lemma string_of_bytes_of [simp]: "string_of (bytes_of s) = s"
  by (induction s) (simp_all add: string_of_def bytes_of_def unat_byte)

definition put_string :: "string \<Rightarrow> byte list" where
  "put_string s = varint (length s) @ bytes_of s"

definition get_string :: "byte list \<Rightarrow> (string \<times> byte list) option" where
  "get_string bs = (case unvarint bs of None \<Rightarrow> None
     | Some (n, rest) \<Rightarrow> if n \<le> length rest then Some (string_of (take n rest), drop n rest) else None)"

lemma get_put_string [simp]: "get_string (put_string s @ rest) = Some (s, rest)"
proof -
  have "length (bytes_of s) = length s" by (simp add: bytes_of_def)
  then show ?thesis by (simp add: get_string_def put_string_def)
qed

fun put_option :: "('a \<Rightarrow> byte list) \<Rightarrow> 'a option \<Rightarrow> byte list" where
  "put_option put None = [0]"
| "put_option put (Some x) = 1 # put x"

fun get_option :: "(byte list \<Rightarrow> ('a \<times> byte list) option) \<Rightarrow> byte list \<Rightarrow> ('a option \<times> byte list) option" where
  "get_option get [] = None"
| "get_option get (b # bs) = (if b = 0 then Some (None, bs)
     else map_option (\<lambda>(x, rest). (Some x, rest)) (get bs))"

lemma get_put_option:
  "(\<And>x r. get (put x @ r) = Some (x, r)) \<Longrightarrow> get_option get (put_option put v @ rest) = Some (v, rest)"
  by (cases v) simp_all

definition put_Timestamp :: "Timestamp \<Rightarrow> byte list" where
  "put_Timestamp t = varint (zigzag (ts_Seconds t)) @ varint (zigzag (ts_Nanos t))"

definition get_Timestamp :: "byte list \<Rightarrow> (Timestamp \<times> byte list) option" where
  "get_Timestamp bs = (case unvarint bs of None \<Rightarrow> None
     | Some (n, rest) \<Rightarrow> map_option (\<lambda>(m, rest). (\<lparr> ts_Seconds = unzigzag n, ts_Nanos = unzigzag m \<rparr>, rest)) (unvarint rest))"

lemma get_put_Timestamp: "get_Timestamp (put_Timestamp t @ rest) = Some (t, rest)"
  by (simp add: get_Timestamp_def put_Timestamp_def)

section \<open>Cursors\<close>

definition put_Cursor :: "pb_Cursor \<Rightarrow> byte list" where
  "put_Cursor pc = varint (unat (pbc_SortField pc)) @ put_option put_Timestamp (pbc_LastSeenTime pc)
     @ put_option put_string (pbc_LastSeenDocumentId pc)"

definition get_Cursor :: "byte list \<Rightarrow> pb_Cursor option" where
  "get_Cursor bs = (case unvarint bs of None \<Rightarrow> None
     | Some (n, bs) \<Rightarrow> (case get_option get_Timestamp bs of None \<Rightarrow> None
       | Some (t, bs) \<Rightarrow> map_option (\<lambda>(i, _). \<lparr> pbc_SortField = of_nat n, pbc_LastSeenTime = t, pbc_LastSeenDocumentId = i \<rparr>)
           (get_option get_string bs)))"

lemma get_put_Cursor: "get_Cursor (put_Cursor pc) = Some pc"
  using get_put_option [OF get_put_string, where rest = "[]"]
  by (simp add: get_Cursor_def put_Cursor_def get_put_option [OF get_put_Timestamp])

definition sample_protobuf :: protobuf where
  "sample_protobuf = \<lparr> proto_Marshal = (\<lambda>pc. Some (put_Cursor pc)), proto_Unmarshal = get_Cursor \<rparr>"

lemma sample_protobuf_ok: "protobuf_ok sample_protobuf"
  by (simp add: protobuf_ok_def sample_protobuf_def get_put_Cursor)

end
