(* ===== verification/Gateway_Listing.thy ===== *)
theory Gateway_Listing
  imports Gateway_Documents Doc_Listing Proto_Sample
begin

text \<open>
  Following the cursors of \<^verbatim>\<open>GET /document\<close>: the route simulates the listing of the service,
  page by page, with cursors as base64 strings of protobuf messages, so what is proved of the
  walk over the service carries over to a browser's walk over HTTP.
\<close>

section \<open>The route as a listing\<close>

text \<open>What a document of the service looks like in a response.\<close>

definition net_document :: "env \<Rightarrow> DocumentPermission \<Rightarrow> net_Document" where
  "net_document E x = (let d = dp_Document x in
     \<lparr> nd_CreatedAt = ts_Seconds (timestamppb_New E (doc_CreatedAt d)), nd_DocumentDescription = doc_Description d,
       nd_DocumentId = doc_ID d, nd_DocumentName = doc_Name d,
       nd_LastModifiedAt = ts_Seconds (timestamppb_New E (doc_LastModifiedAt d)) \<rparr>)"

text \<open>One request of a browser that holds a cursor; a response that is not a page ends its walk.\<close>

definition fetch_http ::
  "DocumentServiceClient \<Rightarrow> protobuf \<Rightarrow> CustomClaims \<Rightarrow> net_PermissionLevel \<Rightarrow> int32 \<Rightarrow> env \<Rightarrow> doc_db conn \<Rightarrow>
   string \<Rightarrow> net_Document list \<times> string" where
  "fetch_http ds P claims level limit E c s =
     (case fst (run_state (http_GetDocument ds E P
        \<lparr> gp_Cursor = Some s, gp_Limit = Some limit, gp_PermissionLevel = Some level \<rparr> (Some claims) fresh_writer) c) of
        Responded w \<Rightarrow> (case rw_Body w of [P_Documents (Some s') ds] \<Rightarrow> (ds, s') | _ \<Rightarrow> ([], s))
      | Panicked \<Rightarrow> ([], s))"

text \<open>The string stands for the cursor: it is read back as the cursor by gateway and server.\<close>

definition stands_for :: "env \<Rightarrow> protobuf \<Rightarrow> string \<Rightarrow> Cursor \<Rightarrow> bool" where
  "stands_for E P s cur \<longleftrightarrow> (\<exists>pc. netToProtoCursor P s = Inr pc \<and> parseServiceCursor E (Some pc) = Inr cur)"

text \<open>Marshalling fails only on strings that are not UTF-8; those of UUIDs are plain ASCII.\<close>

definition ascii :: "string \<Rightarrow> bool" where
  "ascii s = list_all (\<lambda>ch. (of_char ch :: nat) < 128) s"

definition marshals_ascii :: "protobuf \<Rightarrow> bool" where
  "marshals_ascii P \<longleftrightarrow> (\<forall>pc. (\<forall>s. pbc_LastSeenDocumentId pc = Some s \<longrightarrow> ascii s) \<longrightarrow> proto_Marshal P pc \<noteq> None)"

lemma cursor_over_http:
  assumes "env_ok E" "protobuf_ok P" "marshals_ascii P" "\<And>u. ascii (uuid_String E u)" "valid_sort cur"
  obtains pc s where "serviceToPbCursor E cur = Inr pc" "protoToNetCursor P pc = Inr s" "stands_for E P s cur"
proof -
  from assms(5) obtain sf where sf: "serviceToPbSortField (cur_SortField cur) = Inr sf"
      "pbToServiceSortField sf = Inr (cur_SortField cur)"
    by (auto simp: valid_sort_def conv_defs)
  define pc where "pc = \<lparr> pbc_SortField = sf, pbc_LastSeenTime = Some (timestamppb_New E (cur_LastSeenTime cur)),
    pbc_LastSeenDocumentId = Some (uuid_String E (cur_LastSeenID cur)) \<rparr>"
  have pc: "serviceToPbCursor E cur = Inr pc" by (simp add: serviceToPbCursor_def sf pc_def)
  have "proto_Marshal P pc \<noteq> None"
    using assms(3,4) by (simp add: marshals_ascii_def pc_def)
  then obtain s where s: "protoToNetCursor P pc = Inr s"
    by (auto simp: protoToNetCursor_def)
  have "parseServiceCursor E (Some pc) = Inr cur"
    using assms(1) by (simp add: parseServiceCursor_def pc_def sf)
  with net_cursor_roundtrip [OF assms(2) s] have "stands_for E P s cur"
    by (auto simp: stands_for_def)
  with pc s that show thesis by blast
qed

lemma documents_over_wire:
  assumes "env_ok E" "\<And>x. x \<in> set xs \<Longrightarrow> dp_Permission x \<in> set AllPermissions"
  obtains pbs where "serviceToPbDocumentPermissionList E xs = Inr pbs"
    and "map_err (\<lambda>dp. protoToNetDocument E (pbdp_Document dp)) pbs = Inr (map (net_document E) xs)"
proof -
  let ?pb = "\<lambda>x. \<lparr> pbdp_Document = serviceToPbDocument E (dp_Document x), pbdp_PermissionLevel = dp_Permission x \<rparr>"
  have "serviceToPbDocumentPermissionList E xs = Inr (map ?pb xs)"
    unfolding serviceToPbDocumentPermissionList_def
    using assms(2) by (intro map_err_total) (auto simp: conv_defs AllPermissions_def)
  moreover have "map_err (\<lambda>dp. protoToNetDocument E (pbdp_Document dp)) (map ?pb ys) = Inr (map (net_document E) ys)" for ys
    using assms(1) by (induction ys)
      (simp_all add: protoToNetDocument_def serviceToPbDocument_def net_document_def Let_def)
  ultimately show thesis using that by blast
qed

definition http_listing :: "uuid \<Rightarrow> pb_PermissionLevel \<Rightarrow> int32 \<Rightarrow> env \<Rightarrow> doc_db conn \<Rightarrow> listing" where
  "http_listing u level limit E c =
     \<lparr> ls_conn = c, ls_env = E, ls_subject = u, ls_levels = [level], ls_size = limit \<rparr>"

lemma fetch_http_simulates:
  assumes E: "env_ok E" and P: "protobuf_ok P" "marshals_ascii P" and ids: "\<And>u. ascii (uuid_String E u)"
    and ds: "dsc_server ds = pg_repository" "tr_delivery (dsc_conn ds) = Delivered"
    and claims: "uuid_Parse E (cl_Subject claims) = Some u" and level: "netToProtoPermissionLevel l = Inr level"
    and e: "valid_service_listing (http_listing u level limit E c)"
    and s: "stands_for E P s cur" and cur: "valid_sort cur"
  shows "fst (fetch_http ds P claims l limit E c s) = map (net_document E) (fst (fetch_service (http_listing u level limit E c) cur)) \<and>
    stands_for E P (snd (fetch_http ds P claims l limit E c s)) (snd (fetch_service (http_listing u level limit E c) cur)) \<and>
    valid_sort (snd (fetch_service (http_listing u level limit E c) cur))"
proof -
  from service_page_run [OF e cur] obtain xs c' where
    run: "run_state (svc_ListDocumentsByPrincipal pg_repository E u [level] (Some cur) limit) c =
      (Inr (xs, documents_cursor cur xs), c')"
    and page: "is_page (document_key (cur_SortField cur)) (visible_documents u [level] (store (tables c)))
      (cursor_key cur) (nat (sint (default_size limit))) xs"
    by (auto simp: http_listing_def default_levels_def)
  have lv: "level \<in> set AllPermissions"
    using level by (auto simp: conv_defs AllPermissions_def split: if_splits)
  have "dp_Permission x \<in> set AllPermissions" if "x \<in> set xs" for x
    using page that lv by (auto simp: is_page_def visible_documents_def simp del: store_simps)
  from documents_over_wire [OF E this] obtain pbs where
    pbs: "serviceToPbDocumentPermissionList E xs = Inr pbs"
    and net: "map_err (\<lambda>dp. protoToNetDocument E (pbdp_Document dp)) pbs = Inr (map (net_document E) xs)" by blast
  have sort: "valid_sort (documents_cursor cur xs)"
    using cur by (simp add: valid_sort_def documents_cursor_def Let_def)
  from cursor_over_http [OF E P ids sort] obtain pc' s' where
    pc': "serviceToPbCursor E (documents_cursor cur xs) = Inr pc'" "protoToNetCursor P pc' = Inr s'"
    and s': "stands_for E P s' (documents_cursor cur xs)" by blast
  from s obtain pc where pc: "netToProtoCursor P s = Inr pc" "parseServiceCursor E (Some pc) = Inr cur"
    by (auto simp: stands_for_def)
  have "fetch_http ds P claims l limit E c s = (map (net_document E) xs, s')"
    using E ds claims level run pbs net pc' pc lv
    by (simp add: fetch_http_def http_GetDocument_def ParsePrincipalId_def client_ListDocumentsByPrincipal_def invoke_def
        rpc_ListDocumentsByPrincipal_def pbToServicePermissionLevelList_def pbToServicePermissionLevel_ok
        run_attempt run_check)
  moreover have "fetch_service (http_listing u level limit E c) cur = (xs, documents_cursor cur xs)"
    using run by (simp add: fetch_service_def http_listing_def)
  ultimately show ?thesis using s' sort by simp
qed

section \<open>Properties\<close>

text \<open>C7: a browser that follows the cursors of \<^verbatim>\<open>GET /document\<close> from a cursor it was given comes to
  an end, and sees, in descending order and each once, exactly the documents of the principal
  at the level it asks for that lie below that cursor, whatever page size it asks for.\<close>

theorem gateway_listing_complete:
  assumes "env_ok E" "protobuf_ok P" "marshals_ascii P" "\<forall>u. ascii (uuid_String E u)"
    and "dsc_server ds = pg_repository" "tr_delivery (dsc_conn ds) = Delivered"
    and "uuid_Parse E (cl_Subject claims) = Some u" "netToProtoPermissionLevel l = Inr level"
    and "db_ok (tables c)" "snapshot c = None" "faults c = []"
    and "stands_for E P s cur" "cur_SortField cur = Sort_CreatedAt"
  shows "\<exists>xs. page_loop (fetch_http ds P claims l limit E c) s = Some (map (net_document E) xs) \<and>
    set xs = {x \<in> visible_documents u [level] (store (tables c)). document_key Sort_CreatedAt x < cursor_key cur} \<and>
    sorted_wrt (\<lambda>a b. document_key Sort_CreatedAt b < document_key Sort_CreatedAt a) xs"
proof -
  let ?e = "http_listing u level limit E c"
  have "level \<in> set AllPermissions"
    using assms(8) by (auto simp: conv_defs AllPermissions_def split: if_splits)
  with assms(1,9-11) have e: "valid_service_listing ?e"
    by (simp add: valid_service_listing_def http_listing_def)
  have below: "svc_docs.below ?e cur =
      {x \<in> visible_documents u [level] (store (tables c)). document_key Sort_CreatedAt x < cursor_key cur}"
    unfolding svc_docs.below_def by (simp add: http_listing_def default_levels_def)
  have "page_loop (fetch_http ds P claims l limit E c) s =
      Some (map (net_document E) (walk (fetch_service ?e) (Suc (card (svc_docs.below ?e cur))) cur))"
    by (rule svc_docs.loop_simulates [OF e, where R = "stands_for E P"])
      (use fetch_http_simulates [OF assms(1-3) _ assms(5-8) e] assms(4,12,13) in \<open>auto simp: valid_sort_def\<close>)
  with svc_docs.walk_visits_all [OF e assms(13) lessI] show ?thesis
    unfolding below by blast
qed

lemma ascii_append: "ascii (s @ t) \<longleftrightarrow> ascii s \<and> ascii t"
  by (simp add: ascii_def)

lemma ascii_take_drop: "ascii s \<Longrightarrow> ascii (take n s)" "ascii s \<Longrightarrow> ascii (drop n s)"
  by (auto simp: ascii_def list_all_iff dest: in_set_takeD in_set_dropD)

lemma ascii_hex_digit: "(of_char (hex_digit n) :: nat) < 128"
proof -
  have "list_all (\<lambda>n. (of_char (hex_digit n) :: nat) < 128) [0..<16]" by code_simp
  moreover have "hex_digit n = hex_digit (n mod 16)" by (simp add: hex_digit_def)
  ultimately show ?thesis by (simp only: list_all_iff) (metis atLeastLessThan_iff mod_less_divisor set_upt zero_le zero_less_numeral)
qed

lemma ascii_canon_String: "ascii (canon_String u)"
proof -
  have hex: "ascii (hex_of k n)" for k n
    by (induction k arbitrary: n) (simp_all add: ascii_def ascii_hex_digit)
  have "ascii ''-''" by (simp add: ascii_def)
  then show ?thesis
    by (simp add: canon_String_def Let_def ascii_append ascii_take_drop hex del: hex_of.simps append.simps)
qed

theorem gateway_listing_complete_witness:
  "\<exists>s xs. stands_for demo_env sample_protobuf s (demo_cursor Sort_CreatedAt) \<and>
     page_loop (fetch_http demo_client sample_protobuf (demo_claims (canon_String 7)) net_Owner 3 demo_env demo_conn) s =
       Some (map (net_document demo_env) xs) \<and>
     set xs = {x \<in> visible_documents 7 [Owner] (store demo_db).
          document_key Sort_CreatedAt x < cursor_key (demo_cursor Sort_CreatedAt)}"
proof -
  let ?cur = "demo_cursor Sort_CreatedAt"
  have P: "protobuf_ok sample_protobuf" "marshals_ascii sample_protobuf"
    by (rule sample_protobuf_ok) (simp add: marshals_ascii_def sample_protobuf_def)
  have ids: "ascii (uuid_String demo_env u)" for u by (simp add: ascii_canon_String)
  have cur: "valid_sort ?cur" "cur_SortField ?cur = Sort_CreatedAt" by (simp_all add: demo_cursor_def valid_sort_def)
  obtain pc s where s: "stands_for demo_env sample_protobuf s ?cur"
    by (rule cursor_over_http [OF demo_ok(2) P ids cur(1)])
  have "uuid_Parse demo_env (cl_Subject (demo_claims (canon_String 7))) = Some 7"
    "netToProtoPermissionLevel net_Owner = Inr Owner"
    "db_ok (tables demo_conn)" "snapshot demo_conn = None" "faults demo_conn = []"
    by (simp_all add: conv_defs demo_conn_def demo_ok)
  note H = this
  have "dsc_server demo_client = pg_repository" "tr_delivery (dsc_conn demo_client) = Delivered" by simp_all
  from gateway_listing_complete [OF demo_ok(2) P _ this H s cur(2), where limit = 3] ids s
  show ?thesis by (auto simp: demo_conn_def simp del: store_simps)
qed

end
