(* ===== verification/Gateway_Refinement.thy ===== *)
theory Gateway_Refinement
  imports Gateway_Permissions Gateway_Users Gateway_Listing
begin

text \<open>
  The routes of the gateway against the abstract store of the document service: what a route
  that changes documents or permissions does, end to end through handler, client, transport,
  server, service, repository and database. Then what the routes cannot do.
\<close>

section \<open>Clients against the service\<close>

lemma run_invoke:
  obtains (undelivered) st where "run_state (invoke T code m) c = (Inl (RpcError st), c)"
  | (failed) st where "run_state (invoke T code m) c = (Inl (RpcError st), snd (run_state m c))"
  | (answered) x where "fst (run_state m c) = Inr x" "run_state (invoke T code m) c = (Inr x, snd (run_state m c))"
proof (cases "tr_delivery T")
  case Delivered
  then show ?thesis
    using that by (cases "run_state m c"; cases "fst (run_state m c)") (auto simp: invoke_def run_check)
next
  case (Undelivered st)
  then show ?thesis using that by (simp add: invoke_def)
next
  case (ReplyLost st)
  then show ?thesis using that by (cases "run_state m c") (simp add: invoke_def)
qed

text \<open>A call of a client method either never reached the service, or the service has done what
  the method asks for; a reply is the reply of the service.\<close>

definition carries :: "(doc_db, client_err + 'a) db_op \<Rightarrow> 'b doc_op \<Rightarrow> ('b \<Rightarrow> 'a) \<Rightarrow> bool" where
  "carries m svc f \<longleftrightarrow> (\<forall>c. case run_state m c of
     (Inl _, c') \<Rightarrow> c' = c \<or> c' = snd (run_state svc c)
   | (Inr x, c') \<Rightarrow> (\<exists>y. run_state svc c = (Inr y, c') \<and> x = f y))"

lemma carries_call:
  assumes "m = check svc g (\<lambda>y. reply (f y))"
  shows "carries (call ds m) svc f"
  unfolding carries_def
proof
  fix c
  have m: "snd (run_state m c) = snd (run_state svc c)"
    "fst (run_state m c) = Inr x \<Longrightarrow> \<exists>y. fst (run_state svc c) = Inr y \<and> x = f y" for x
    unfolding assms by (auto simp: run_check split: prod.splits sum.splits)
  show "case run_state (call ds m) c of
     (Inl _, c') \<Rightarrow> c' = c \<or> c' = snd (run_state svc c)
   | (Inr x, c') \<Rightarrow> (\<exists>y. run_state svc c = (Inr y, c') \<and> x = f y)"
    by (cases rule: run_invoke [where T = "dsc_conn ds" and code = "failure_code (dsc_conn ds)" and m = m and c = c])
      (use m in \<open>auto simp: prod_eq_iff\<close>)
qed

lemma carries_cases:
  assumes "carries m svc f"
  obtains (kept) e where "run_state m c = (Inl e, c)"
  | (failed) e where "run_state m c = (Inl e, snd (run_state svc c))"
  | (served) y c' where "run_state svc c = (Inr y, c')" "run_state m c = (Inr (f y), c')"
proof (cases "run_state m c")
  case (Pair r c')
  have "case (r, c') of (Inl _, c') \<Rightarrow> c' = c \<or> c' = snd (run_state svc c)
     | (Inr x, c') \<Rightarrow> (\<exists>y. run_state svc c = (Inr y, c') \<and> x = f y)"
    using assms unfolding carries_def Pair [symmetric] by (rule spec)
  with Pair show ?thesis using that by (cases r) auto
qed

lemma carries_parse:
  assumes "env_ok E" and m: "carries m svc (uuid_String E)"
  shows "carries (check m id (\<lambda>s. State_Monad.return (case uuid_Parse E s of
     None \<Rightarrow> Inl PlainError | Some u \<Rightarrow> Inr u))) svc id"
  unfolding carries_def
proof
  fix c
  show "case run_state (check m id (\<lambda>s. State_Monad.return (case uuid_Parse E s of
     None \<Rightarrow> Inl PlainError | Some u \<Rightarrow> Inr u))) c of
     (Inl _, c') \<Rightarrow> c' = c \<or> c' = snd (run_state svc c)
   | (Inr x, c') \<Rightarrow> (\<exists>y. run_state svc c = (Inr y, c') \<and> x = id y)"
    by (cases rule: carries_cases [OF m, of c]) (simp_all add: run_check assms(1))
qed

lemma check_pure [simp]: "check (pure (Inr x)) h k = k x"
  by (simp add: check_def)

lemma map_err_parse_ids:
  "env_ok E \<Longrightarrow> map_err (parse_id E) (map (uuid_String E) ids) = Inr ids"
  by (induction ids) simp_all

lemmas rpc_write_defs = rpc_CreateDocument_def rpc_UpdateDocument_def rpc_DeleteDocument_def rpc_DeleteDocuments_def
  rpc_CreateGuest_def rpc_UpsertPermissionUser_def rpc_UpdatePermissionGuest_def rpc_DeletePermissionsPrincipal_def

lemma carries_CreateDocument:
  assumes "env_ok E"
  shows "carries (client_CreateDocument ds E u n s) (svc_CreateDocument (dsc_server ds) E u n s) id"
proof -
  let ?req = "\<lparr> cdr_OwnerUserId = uuid_String E u, cdr_DocumentName = n, cdr_DocumentDescription = s,
    cdr_ClientContext = principal_context E u \<rparr>"
  have "carries (call ds (rpc_CreateDocument (dsc_server ds) E ?req))
      (svc_CreateDocument (dsc_server ds) E u n s) (uuid_String E)"
    by (rule carries_call) (simp add: rpc_CreateDocument_def assms)
  then show ?thesis
    unfolding client_CreateDocument_def by (rule carries_parse [OF assms])
qed

lemma carries_writes:
  assumes "env_ok E"
  shows "carries (client_UpdateDocument ds E i u n t) (svc_UpdateDocument (dsc_server ds) E i n t) id"
    and "carries (client_DeleteDocument ds E i u) (svc_DeleteDocument (dsc_server ds) E i) id"
    and "carries (client_DeleteDocuments ds E ids u) (svc_DeleteDocuments (dsc_server ds) E ids u) id"
    and "carries (client_DeletePermissionsPrincipal ds E p i u) (svc_DeletePermissionPrincipal (dsc_server ds) E p i) id"
  unfolding client_defs
  by (rule carries_call; simp add: rpc_write_defs assms map_err_parse_ids)+

lemma carries_grants:
  assumes "env_ok E" "l \<in> set AllPermissions"
  shows "carries (client_CreateGuest ds E i u l) (svc_CreateGuest (dsc_server ds) E u i l) (uuid_String E)"
    and "carries (client_UpsertPermissionUser ds E p u i l) (svc_UpsertPermissionUser (dsc_server ds) E p i l) id"
    and "carries (client_UpdatePermissionGuest ds E g u l) (svc_UpdatePermissionGuest (dsc_server ds) E g l) id"
  unfolding client_defs
  by (rule carries_call; simp add: rpc_write_defs assms pbToServicePermissionLevel_ok)+

section \<open>Routes that change documents or permissions\<close>

datatype gw_route =
    Route_BatchDelete "uuid list option"
  | Route_Create "PostDocumentJSONBody option"
  | Route_Delete uuid
  | Route_Update uuid "PutDocumentJSONBody option"
  | Route_Share uuid "PostPermissionJSONBody option"
  | Route_Unshare uuid uuid
  | Route_ChangePermission uuid uuid "PutPermissionJSONBody option"

fun http_route ::
  "DocumentServiceClient \<Rightarrow> env \<Rightarrow> gw_route \<Rightarrow> CustomClaims option \<Rightarrow> ResponseWriter \<Rightarrow> doc_db handler" where
  "http_route ds E (Route_BatchDelete body) = http_DeleteDocument ds E body"
| "http_route ds E (Route_Create body) = http_PostDocument ds E body"
| "http_route ds E (Route_Delete i) = http_DeleteDocumentDocumentId ds E i"
| "http_route ds E (Route_Update i body) = http_PutDocumentDocumentId ds E i body"
| "http_route ds E (Route_Share i body) = http_PostDocumentDocumentIdPermission ds E i body"
| "http_route ds E (Route_Unshare i p) = http_DeletePermissionPrincipal ds E i p"
| "http_route ds E (Route_ChangePermission i p body) = http_PutPermissionPrincipal ds E i p body"

text \<open>What a route asks of the document service on behalf of a principal.\<close>

definition at_level :: "net_PermissionLevel \<Rightarrow> (PermissionLevel \<Rightarrow> doc_request) \<Rightarrow> doc_request option" where
  "at_level l f = (case netToProtoPermissionLevel l of Inl _ \<Rightarrow> None | Inr level \<Rightarrow> Some (f level))"

fun route_request :: "gw_route \<Rightarrow> uuid \<Rightarrow> doc_request option" where
  "route_request (Route_BatchDelete body) u = map_option (\<lambda>ids. Req_DeleteDocuments ids u) body"
| "route_request (Route_Create body) u =
     map_option (\<lambda>b. Req_CreateDocument u (pd_DocumentName b) (pd_DocumentDescription b)) body"
| "route_request (Route_Delete i) u = Some (Req_DeleteDocument i)"
| "route_request (Route_Update i body) u =
     map_option (\<lambda>b. Req_UpdateDocument i (ud_DocumentName b) (ud_DocumentDescription b)) body"
| "route_request (Route_Share i body) u = Option.bind body (\<lambda>b. at_level (pp_PermissionLevel b) (\<lambda>l.
     case pp_UserIdToShare b of Some v \<Rightarrow> Req_UpsertPermissionUser v i l | None \<Rightarrow> Req_CreateGuest u i l))"
| "route_request (Route_Unshare i p) u = Some (Req_DeletePermissionPrincipal p i)"
| "route_request (Route_ChangePermission i p body) u = Option.bind body (\<lambda>b. at_level (up_PermissionLevel b) (\<lambda>l.
     if up_PrincipalType b = PrincipalTypeUser then Req_UpsertPermissionUser p i l else Req_UpdatePermissionGuest p l))"

text \<open>A call that performs a request: the store stays or changes as specified, and an answer
  means that the request was specified to succeed and has had its effect.\<close>

definition performs :: "env \<Rightarrow> (doc_db, client_err + 'a) db_op \<Rightarrow> doc_request \<Rightarrow> bool" where
  "performs E m rq \<longleftrightarrow> (\<forall>c r c'. snapshot c = None \<longrightarrow> db_ok (tables c) \<longrightarrow> run_state m c = (r, c') \<longrightarrow>
     snapshot c' = None \<and> db_ok (tables c') \<and>
     (store (tables c') = store (tables c) \<or> store (tables c') = snd (spec_request E rq (store (tables c)))) \<and>
     (\<forall>x. r = Inr x \<longrightarrow> (\<exists>y. spec_request E rq (store (tables c)) = (Inr y, store (tables c')))))"

lemma performsI:
  assumes "env_ok E" and m: "carries m svc f"
    and svc: "svc_request pg_repository E rq = check svc id (\<lambda>y. ret (g y))"
  shows "performs E m rq"
  unfolding performs_def
proof (intro allI impI)
  fix c r c'
  assume c: "snapshot c = None" "db_ok (tables c)" and run: "run_state m c = (r, c')"
  have req: "run_state (svc_request pg_repository E rq) c =
      (map_sum id g (fst (run_state svc c)), snd (run_state svc c))"
    unfolding svc by (auto simp: run_check split: prod.splits sum.splits)
  note D = refinesD [OF pg.request [OF assms(1)] req c]
  have "store (tables (snd (run_state svc c))) = store (tables c) \<or>
      store (tables (snd (run_state svc c))) = snd (spec_request E rq (store (tables c)))"
    using D(3) by (auto simp: meets_def simp del: store_simps dest: arg_cong [where f = snd])
  moreover have "spec_request E rq (store (tables c)) = (Inr (g y), store (tables c'))"
    if "run_state svc c = (Inr y, c')" for y
    using D(3) that by (auto simp: meets_def failed_def simp del: store_simps)
  ultimately show "snapshot c' = None \<and> db_ok (tables c') \<and>
     (store (tables c') = store (tables c) \<or> store (tables c') = snd (spec_request E rq (store (tables c)))) \<and>
     (\<forall>x. r = Inr x \<longrightarrow> (\<exists>y. spec_request E rq (store (tables c)) = (Inr y, store (tables c'))))"
    by (cases rule: carries_cases [OF m, of c]) (use c run D(1,2) in \<open>auto simp del: store_simps\<close>)
qed

lemma performs_CreateDocument:
  "env_ok E \<Longrightarrow> dsc_server ds = pg_repository \<Longrightarrow>
   performs E (client_CreateDocument ds E u n s) (Req_CreateDocument u n s)"
  using carries_CreateDocument [of E ds u n s] by (intro performsI) simp_all

lemma performs_writes:
  assumes "env_ok E" "dsc_server ds = pg_repository"
  shows "performs E (client_UpdateDocument ds E i u n t) (Req_UpdateDocument i n t)"
    and "performs E (client_DeleteDocument ds E i u) (Req_DeleteDocument i)"
    and "performs E (client_DeleteDocuments ds E ids u) (Req_DeleteDocuments ids u)"
    and "performs E (client_DeletePermissionsPrincipal ds E p i u) (Req_DeletePermissionPrincipal p i)"
  by (rule carries_writes [OF assms(1), THEN performsI [OF assms(1)]]; simp add: assms(2))+

lemma performs_grants:
  assumes "env_ok E" "dsc_server ds = pg_repository" "l \<in> set AllPermissions"
  shows "performs E (client_CreateGuest ds E i u l) (Req_CreateGuest u i l)"
    and "performs E (client_UpsertPermissionUser ds E p u i l) (Req_UpsertPermissionUser p i l)"
    and "performs E (client_UpdatePermissionGuest ds E g u l) (Req_UpdatePermissionGuest g l)"
  by (rule carries_grants [OF assms(1,3), THEN performsI [OF assms(1)]]; simp add: assms(2))+

text \<open>What a route promises of its outcome: the store stays as it was or changes as the request of
  the route is specified to change it; a success status means that an identified principal
  asked, that the request was specified to succeed, and that it has had its effect.\<close>

definition outcome_ok ::
  "env \<Rightarrow> gw_route \<Rightarrow> CustomClaims option \<Rightarrow> doc_db conn \<Rightarrow> http_outcome \<Rightarrow> doc_db conn \<Rightarrow> bool" where
  "outcome_ok E route ctx c out c' \<longleftrightarrow> snapshot c' = None \<and> db_ok (tables c') \<and>
     (store (tables c') = store (tables c) \<or>
      (\<exists>u rq. ctx \<noteq> None \<and> route_request route u = Some rq \<and>
         store (tables c') = snd (spec_request E rq (store (tables c))))) \<and>
     (\<forall>w st. out = Responded w \<and> rw_Status w = Some st \<and> st < 300 \<longrightarrow>
      (\<exists>claims u rq y. ctx = Some claims \<and> uuid_Parse E (cl_Subject claims) = Some u \<and>
         route_request route u = Some rq \<and>
         spec_request E rq (store (tables c)) = (Inr y, store (tables c'))))"

definition route_ok :: "env \<Rightarrow> gw_route \<Rightarrow> CustomClaims option \<Rightarrow> doc_db handler \<Rightarrow> bool" where
  "route_ok E route ctx h \<longleftrightarrow> (\<forall>c out c'. snapshot c = None \<longrightarrow> db_ok (tables c) \<longrightarrow>
     run_state h c = (out, c') \<longrightarrow> outcome_ok E route ctx c out c')"

named_theorems route_intros \<open>rules for the shapes of a handler\<close>

lemma route_ok_refused:
  "(\<And>w st. out = Responded w \<Longrightarrow> rw_Status w = Some st \<Longrightarrow> 300 \<le> st) \<Longrightarrow>
   route_ok E route ctx (State_Monad.return out)"
  by (auto simp: route_ok_def outcome_ok_def simp del: store_simps) (meson not_le)

lemma route_ok_error [route_intros]:
  "400 \<le> code \<Longrightarrow> route_ok E route ctx (respond (SendError fresh_writer code msg))"
  by (rule route_ok_refused) auto

lemma route_ok_pure [route_intros]:
  assumes "400 \<le> code" "\<And>x. r = Inr x \<Longrightarrow> route_ok E route ctx (k x)"
  shows "route_ok E route ctx (attempt (pure r) (\<lambda>_. SendError fresh_writer code msg) k)"
  using assms route_ok_error [OF assms(1), of E route ctx msg]
  by (cases r) (simp_all add: route_ok_def)

lemma route_ok_if [route_intros]:
  "(b \<Longrightarrow> route_ok E route ctx m) \<Longrightarrow> (\<not> b \<Longrightarrow> route_ok E route ctx n) \<Longrightarrow> route_ok E route ctx (if b then m else n)"
  by simp

lemma outcome_call:
  assumes "performs E m rq" "route_request route u = Some rq" "ctx \<noteq> None"
    and "snapshot c = None" "db_ok (tables c)" "run_state m c = (r, c')"
    and "\<And>x w st. r = Inr x \<Longrightarrow> out = Responded w \<Longrightarrow> rw_Status w = Some st \<Longrightarrow> st < 300 \<Longrightarrow>
      \<exists>claims. ctx = Some claims \<and> uuid_Parse E (cl_Subject claims) = Some u"
    and "\<And>e w st. r = Inl e \<Longrightarrow> out = Responded w \<Longrightarrow> rw_Status w = Some st \<Longrightarrow> 300 \<le> st"
  shows "outcome_ok E route ctx c out c'"
proof -
  have P: "snapshot c' = None \<and> db_ok (tables c') \<and>
     (store (tables c') = store (tables c) \<or> store (tables c') = snd (spec_request E rq (store (tables c)))) \<and>
     (\<forall>x. r = Inr x \<longrightarrow> (\<exists>y. spec_request E rq (store (tables c)) = (Inr y, store (tables c'))))"
    using assms(1,4,5,6) unfolding performs_def by blast
  show ?thesis
  proof (cases r)
    case (Inl e)
    with P assms(2,3,8) show ?thesis
      unfolding outcome_ok_def by (metis not_le)
  next
    case (Inr x)
    with P assms(2,3,7) show ?thesis
      unfolding outcome_ok_def by metis
  qed
qed

lemma route_ok_call [route_intros]:
  assumes "performs E m rq" "route_request route u = Some rq"
    and ctx: "ctx = Some claims" "uuid_Parse E (cl_Subject claims) = Some u" and k: "\<And>x. returns (k x)"
  shows "route_ok E route ctx (attempt m (SendGrpcError fresh_writer) k)"
  unfolding route_ok_def
proof (intro allI impI)
  fix c out c'
  assume c: "snapshot c = None" "db_ok (tables c)"
    and run: "run_state (attempt m (SendGrpcError fresh_writer) k) c = (out, c')"
  obtain r d where m: "run_state m c = (r, d)" by fastforce
  have c': "c' = d"
    using run m k unfolding returns_def
    by (auto simp: run_attempt split: sum.splits) (metis Pair_inject run_state_return)
  have "300 \<le> st" if "r = Inl e" "out = Responded w" "rw_Status w = Some st" for e w st
    using run m that GrpcToHttpStatus_error [of e]
    by (auto simp: run_attempt SendGrpcError_def fresh_writer_def)
  then show "outcome_ok E route ctx c out c'"
    using outcome_call [OF assms(1,2) _ c m] ctx c' by simp
qed

lemma GetClaims_Inr: "GetClaims ctx = Inr claims \<longleftrightarrow> ctx = Some claims"
  by (simp add: GetClaims_def split: option.splits)

lemma ParsePrincipalId_Inr: "ParsePrincipalId E claims = Inr u \<longleftrightarrow> uuid_Parse E (cl_Subject claims) = Some u"
  by (simp add: ParsePrincipalId_def split: option.splits)

lemma decoded_Inr: "decoded body = Inr b \<longleftrightarrow> body = Some b"
  by (simp add: decoded_def split: option.splits)

lemmas guard_Inr = GetClaims_Inr ParsePrincipalId_Inr decoded_Inr

lemma net_level_valid: "netToProtoPermissionLevel l = Inr level \<Longrightarrow> level \<in> set AllPermissions"
  by (auto simp: conv_defs AllPermissions_def split: if_splits)

lemma returns_attempt_pure [route_intros]:
  "(\<And>x. returns (k x)) \<Longrightarrow> returns (attempt (pure r) h k)"
  unfolding returns_def attempt_def by (cases r) auto

lemmas returns_respond [route_intros] = returns_return [of "Responded w" for w]

text \<open>A handler that has sent an error status before its call cannot report success any more.\<close>

lemma status_sent:
  assumes "rw_Status w = Some st"
  shows "rw_Status (SendError w code msg) = Some st" "rw_Status (WriteHeader w code) = Some st"
  using assms by (simp_all add: SendError_def)

lemma route_ok_call_after_error:
  assumes "performs E m rq" "route_request route u = Some rq" "ctx \<noteq> None"
    and "rw_Status w = Some st" "rw_Status w' = Some st" "300 \<le> st"
  shows "route_ok E route ctx (attempt m (SendGrpcError w) (\<lambda>_. respond w'))"
  unfolding route_ok_def
proof (intro allI impI)
  fix c out c'
  assume c: "snapshot c = None" "db_ok (tables c)"
    and run: "run_state (attempt m (SendGrpcError w) (\<lambda>_. respond w')) c = (out, c')"
  obtain r d where m: "run_state m c = (r, d)" by fastforce
  have d: "d = c'" and out: "out = Responded v \<Longrightarrow> rw_Status v = Some st" for v
    using run m assms(4,5) by (auto simp: run_attempt SendGrpcError_def status_sent split: sum.splits)
  from outcome_call [OF assms(1-3) c m [unfolded d], of out] out assms(6)
  show "outcome_ok E route ctx c out c'" by force
qed

lemma route_Update:
  assumes "env_ok E" "dsc_server ds = pg_repository"
  shows "route_ok E (Route_Update i body) ctx (http_PutDocumentDocumentId ds E i body ctx fresh_writer)"
proof (cases ctx)
  case None
  then show ?thesis by (auto simp: http_PutDocumentDocumentId_def intro!: route_ok_refused)
next
  case ctx: (Some claims)
  show ?thesis
  proof (cases "uuid_Parse E (cl_Subject claims)")
    case None
    have w: "rw_Status (SendError fresh_writer 400 ErrText) = Some 400" by (simp add: fresh_writer_def)
    with None ctx show ?thesis
      by (cases body) (auto simp: http_PutDocumentDocumentId_def ParsePrincipalId_def attempt_def [of "pure _"] status_sent
          intro!: route_ok_refused route_ok_call_after_error [OF performs_writes(1) [OF assms], where u = uuid_Nil])
  next
    case (Some u)
    with ctx show ?thesis
      by (auto simp: http_PutDocumentDocumentId_def ParsePrincipalId_def guard_Inr
          simp del: SendError_fresh WriteHeader_fresh intro!: route_intros performs_writes assms)
  qed
qed

lemma route_Share:
  assumes "env_ok E" "dsc_server ds = pg_repository"
  shows "route_ok E (Route_Share i body) ctx (http_PostDocumentDocumentIdPermission ds E i body ctx fresh_writer)"
  unfolding http_PostDocumentDocumentIdPermission_def
proof (intro route_intros; (simp add: guard_Inr)?)
  fix claims u b level
  assume *: "ctx = Some claims" "uuid_Parse E (cl_Subject claims) = Some u" "body = Some b"
    "netToProtoPermissionLevel (pp_PermissionLevel b) = Inr level"
  note P = performs_grants [OF assms net_level_valid [OF *(4)]]
  show "route_ok E (Route_Share i (Some b)) (Some claims) (case pp_UserIdToShare b of
       None \<Rightarrow> attempt (client_CreateGuest ds E i u level) (SendGrpcError fresh_writer) (\<lambda>result.
         attempt (pure (parse_reply_id E result)) (\<lambda>_. SendError fresh_writer 500 (Text ''Internal Server Error'')) (\<lambda>guestId.
         respond (SendJsonResponse fresh_writer 200 (P_Shared (Some guestId) None))))
     | Some userIdToShare \<Rightarrow>
         attempt (client_UpsertPermissionUser ds E userIdToShare u i level) (SendGrpcError fresh_writer) (\<lambda>_.
         respond (SendJsonResponse fresh_writer 200 (P_Shared None (Some userIdToShare)))))"
    by (cases "pp_UserIdToShare b") (auto simp: * at_level_def intro!: route_intros P)
qed

lemma route_ChangePermission:
  assumes "env_ok E" "dsc_server ds = pg_repository"
  shows "route_ok E (Route_ChangePermission i p body) ctx (http_PutPermissionPrincipal ds E i p body ctx fresh_writer)"
  unfolding http_PutPermissionPrincipal_def
  by (intro route_intros)
    (auto simp: guard_Inr at_level_def intro!: performs_grants [OF assms] elim: net_level_valid)

lemma route_others:
  assumes "env_ok E" "dsc_server ds = pg_repository"
  shows "route_ok E (Route_BatchDelete ids) ctx (http_DeleteDocument ds E ids ctx fresh_writer)"
    and "route_ok E (Route_Create body) ctx (http_PostDocument ds E body ctx fresh_writer)"
    and "route_ok E (Route_Delete i) ctx (http_DeleteDocumentDocumentId ds E i ctx fresh_writer)"
    and "route_ok E (Route_Unshare i p) ctx (http_DeletePermissionPrincipal ds E i p ctx fresh_writer)"
  unfolding http_DeleteDocument_def http_PostDocument_def http_DeleteDocumentDocumentId_def
    http_DeletePermissionPrincipal_def Let_def
  by (intro route_intros performs_writes [OF assms] performs_CreateDocument [OF assms]; auto simp: guard_Inr)+

lemma http_route_ok:
  assumes "env_ok E" "dsc_server ds = pg_repository"
  shows "route_ok E route ctx (http_route ds E route ctx fresh_writer)"
  by (cases route) (simp_all add: route_others route_Update route_Share route_ChangePermission assms)

section \<open>Properties\<close>

text \<open>C3: the routes of the gateway that change documents or permissions refine the store of the
  document service, end to end and under every fault of the transport and of the database: the
  store stays as it was or changes as the request of the route is specified to change it, and
  a success status means that an identified principal asked for it, that the request was
  specified to succeed, and that it has had its effect.\<close>

theorem gateway_refines_spec:
  assumes "env_ok E" "dsc_server ds = pg_repository" "snapshot c = None" "db_ok (tables c)"
    and "run_state (http_route ds E route ctx fresh_writer) c = (out, c')"
  shows "db_ok (tables c') \<and>
    (store (tables c') = store (tables c) \<or>
     (\<exists>u rq. ctx \<noteq> None \<and> route_request route u = Some rq \<and>
        store (tables c') = snd (spec_request E rq (store (tables c))))) \<and>
    (\<forall>w st. out = Responded w \<and> rw_Status w = Some st \<and> st < 300 \<longrightarrow>
     (\<exists>claims u rq y. ctx = Some claims \<and> uuid_Parse E (cl_Subject claims) = Some u \<and>
        route_request route u = Some rq \<and> spec_request E rq (store (tables c)) = (Inr y, store (tables c'))))"
  using http_route_ok [OF assms(1,2), of route ctx] assms(3-5)
  unfolding route_ok_def outcome_ok_def by blast

lemma demo_create:
  "\<exists>c'. run_state (http_route demo_client demo_env
     (Route_Create (Some \<lparr> pd_DocumentDescription = None, pd_DocumentName = Some ''plan'', pd_UserId = 7 \<rparr>))
     (Some (demo_claims (canon_String 7))) fresh_writer) demo_conn =
     (Responded \<lparr> rw_Status = Some 200, rw_Body = [P_Created 42] \<rparr>, c')"
proof -
  let ?q = "run_state (svc_CreateDocument pg_repository demo_env 7 (Some ''plan'') None) demo_conn"
  have "fst ?q = Inr 42" by code_simp
  then obtain c' where "?q = (Inr 42, c')" by (cases ?q) auto
  then show ?thesis
    by (simp add: http_PostDocument_def ParsePrincipalId_def client_CreateDocument_def invoke_def rpc_CreateDocument_def
        run_attempt run_check)
qed

theorem gateway_refines_spec_witness:
  "\<exists>c' y. run_state (http_route demo_client demo_env
     (Route_Create (Some \<lparr> pd_DocumentDescription = None, pd_DocumentName = Some ''plan'', pd_UserId = 7 \<rparr>))
     (Some (demo_claims (canon_String 7))) fresh_writer) demo_conn =
     (Responded \<lparr> rw_Status = Some 200, rw_Body = [P_Created 42] \<rparr>, c') \<and>
   spec_request demo_env (Req_CreateDocument 7 (Some ''plan'') None) (store demo_db) = (Inr y, store (tables c'))"
proof -
  from demo_create obtain c' where run: "run_state (http_route demo_client demo_env
     (Route_Create (Some \<lparr> pd_DocumentDescription = None, pd_DocumentName = Some ''plan'', pd_UserId = 7 \<rparr>))
     (Some (demo_claims (canon_String 7))) fresh_writer) demo_conn =
     (Responded \<lparr> rw_Status = Some 200, rw_Body = [P_Created 42] \<rparr>, c')" by blast
  from gateway_refines_spec [OF demo_ok(2) _ _ _ run] run show ?thesis
    by (auto simp: demo_conn_def demo_ok simp del: http_route.simps store_simps spec_request.simps)
qed

text \<open>C40: a document cannot be read through the gateway. The handler passes the caller's identifier
  where the client expects the document's: whatever document is asked for, the answer is the
  same, and it is not found unless the caller's identifier happens to be that of a document.\<close>

theorem get_document_looks_up_caller:
  assumes "env_ok E" "dsc_server ds = pg_repository" "tr_delivery (dsc_conn ds) = Delivered"
    and "snapshot c = None" "db_ok (tables c)" "faults c = []"
    and "uuid_Parse E (cl_Subject claims) = Some u" "st_documents (store (tables c)) u = None"
  shows "fst (run_state (http_GetDocumentDocumentId ds E i (Some claims) fresh_writer) c) =
    Responded \<lparr> rw_Status = Some 404, rw_Body = [P_Error ErrText] \<rparr>"
proof -
  have "fst (run_state (svc_GetDocument pg_repository E u) c) = Inl (NotFound (Some (Pgx ErrNoRows)))"
    using request_healthy(1) [OF pg.get_document [OF assms(1)] assms(4-6), of u] assms(8)
    by (simp add: spec_GetDocument_def del: store_simps)
  then obtain c' where "run_state (svc_GetDocument pg_repository E u) c =
      (Inl (NotFound (Some (Pgx ErrNoRows))), c')"
    by (metis prod.collapse)
  with assms(1-3,7) show ?thesis
    by (simp add: http_GetDocumentDocumentId_def ParsePrincipalId_def client_GetDocument_def invoke_def
        rpc_GetDocument_def run_attempt run_check serviceToGRPCError_def errors_As_def SendGrpcError_def)
qed

theorem get_document_looks_up_caller_witness:
  "st_documents (store demo_db) 1 \<noteq> None \<and>
   fst (run_state (http_GetDocumentDocumentId demo_client demo_env 1 (Some (demo_claims (canon_String 7))) fresh_writer)
     demo_conn) = Responded \<lparr> rw_Status = Some 404, rw_Body = [P_Error ErrText] \<rparr>"
proof
  show "st_documents (store demo_db) 1 \<noteq> None" by code_simp
  have "st_documents (store demo_db) 7 = None" by code_simp
  then show "fst (run_state (http_GetDocumentDocumentId demo_client demo_env 1 (Some (demo_claims (canon_String 7)))
      fresh_writer) demo_conn) = Responded \<lparr> rw_Status = Some 404, rw_Body = [P_Error ErrText] \<rparr>"
    by (intro get_document_looks_up_caller [where u = 7]) (simp_all add: demo_ok demo_conn_def del: store_simps)
qed

text \<open>An update whose token has an unreadable subject is refused and carried out. The handler
  sends the error and does not return: the client is told that its request was bad, and the
  document has the new name and description.\<close>

lemma put_document_after_refusal:
  assumes "env_ok E" "dsc_server ds = pg_repository" "tr_delivery (dsc_conn ds) = Delivered"
    and "snapshot c = None" "db_ok (tables c)" "faults c = []"
    and "uuid_Parse E (cl_Subject claims) = None"
    and "st_documents (store (tables c)) i \<noteq> None" "ud_DocumentName b \<noteq> None"
    and run: "run_state (http_PutDocumentDocumentId ds E i (Some b) (Some claims) fresh_writer) c = (out, c')"
  shows "out = Responded \<lparr> rw_Status = Some 400, rw_Body = [P_Error ErrText] \<rparr> \<and>
    store (tables c') = snd (spec_UpdateDocument i (ud_DocumentName b) (ud_DocumentDescription b) (store (tables c)))"
proof -
  let ?m = "svc_UpdateDocument pg_repository E i (ud_DocumentName b) (ud_DocumentDescription b)"
  have refines: "refines ?m (spec_UpdateDocument i (ud_DocumentName b) (ud_DocumentDescription b))"
    using pg.update_document [OF assms(1), of i "ud_DocumentName b" "ud_DocumentDescription b"] .
  have "fst (run_state ?m c) = Inr ()"
    using request_healthy(1) [OF refines assms(4-6)] assms(8,9)
    by (auto simp: spec_UpdateDocument_def simp del: store_simps split: option.splits)
  then obtain d where d: "run_state ?m c = (Inr (), d)" by (metis prod.collapse)
  with request_healthy(2) [OF refines assms(4-6)]
  have "store (tables d) = snd (spec_UpdateDocument i (ud_DocumentName b) (ud_DocumentDescription b) (store (tables c)))"
    by simp
  moreover have "out = Responded \<lparr> rw_Status = Some 400, rw_Body = [P_Error ErrText] \<rparr> \<and> c' = d"
    using run d assms(1-3,7)
    by (simp add: http_PutDocumentDocumentId_def ParsePrincipalId_def client_UpdateDocument_def invoke_def
        rpc_UpdateDocument_def run_attempt run_check)
  ultimately show ?thesis by simp
qed

end
