(* ===== verification/Config.thy ===== *)
theory Config
  imports Prelude
begin

text \<open>
  Configuration from the environment: \<^verbatim>\<open>GetEnvWithDefault\<close> (\<^verbatim>\<open>internal/util/env.go\<close> of the
  gateway and of the user service, \<^verbatim>\<open>document_service/internal/config/postgres.go\<close>),
  \<^verbatim>\<open>GetConfiguration\<close> (\<^verbatim>\<open>internal/config/postgres.go\<close> of either service) and the addresses and
  the key of the gateway (\<^verbatim>\<open>api_gateway/internal/config/constants.go\<close>). The standard library's
  \<^verbatim>\<open>strconv.Atoi\<close> and the verb \<^verbatim>\<open>%d\<close> are modelled; \<^verbatim>\<open>pgxpool.ParseConfig\<close> is a parameter.
\<close>

section \<open>Decimal numbers\<close>

definition digit :: "nat \<Rightarrow> char" where "digit n = char_of (48 + n)"

definition is_digit :: "char \<Rightarrow> bool" where
  "is_digit c \<longleftrightarrow> 48 \<le> (of_char c :: nat) \<and> (of_char c :: nat) < 58"

definition digits_value :: "string \<Rightarrow> nat" where
  "digits_value s = foldl (\<lambda>n c. 10 * n + (of_char c - 48)) 0 s"

text \<open>\<^verbatim>\<open>strconv.Atoi\<close> on a 64-bit platform: an optional sign and at least one digit, nothing else,
  within the range of \<^verbatim>\<open>int\<close>; None is an error.\<close>

definition in_int :: "int \<Rightarrow> bool" where
  "in_int n \<longleftrightarrow> - (2 ^ 63) \<le> n \<and> n < 2 ^ 63"

definition parse_digits :: "string \<Rightarrow> int option" where
  "parse_digits s = (if s = [] \<or> \<not> list_all is_digit s then None else Some (int (digits_value s)))"

definition strconv_Atoi :: "string \<Rightarrow> int option" where
  "strconv_Atoi s =
     (let v = (case s of
          CHR ''-'' # r \<Rightarrow> map_option uminus (parse_digits r)
        | CHR ''+'' # r \<Rightarrow> parse_digits r
        | _ \<Rightarrow> parse_digits s)
      in case v of None \<Rightarrow> None | Some n \<Rightarrow> if in_int n then Some n else None)"

fun decimal :: "nat \<Rightarrow> string" where
  "decimal n = (if n < 10 then [digit n] else decimal (n div 10) @ [digit (n mod 10)])"

declare decimal.simps [simp del]

definition fmt_d :: "int \<Rightarrow> string" where
  "fmt_d n = (if n < 0 then CHR ''-'' # decimal (nat (- n)) else decimal (nat n))"

lemma of_char_digit [simp]: "n < 10 \<Longrightarrow> (of_char (digit n) :: nat) = 48 + n"
  by (simp add: digit_def)

lemma is_digit_digit [simp]: "n < 10 \<Longrightarrow> is_digit (digit n)"
  by (simp add: is_digit_def)

lemma digits_value_snoc: "digits_value (s @ [c]) = 10 * digits_value s + (of_char c - 48)"
  by (simp add: digits_value_def)

lemma decimal_digits: "decimal n \<noteq> [] \<and> list_all is_digit (decimal n) \<and> digits_value (decimal n) = n"
proof (induction n rule: decimal.induct)
  case (1 n)
  show ?case
  proof (cases "n < 10")
    case True
    then show ?thesis by (simp add: decimal.simps [of n] digits_value_def)
  next
    case False
    with 1 show ?thesis
      by (simp add: decimal.simps [of n] digits_value_snoc)
  qed
qed

lemmas decimal_simps [simp] =
  decimal_digits [THEN conjunct1] decimal_digits [THEN conjunct2, THEN conjunct1]
  decimal_digits [THEN conjunct2, THEN conjunct2]

lemma parse_digits_decimal [simp]: "parse_digits (decimal n) = Some (int n)"
  by (simp add: parse_digits_def)

lemma is_digit_signs [simp]: "\<not> is_digit (CHR ''-'')" "\<not> is_digit (CHR ''+'')"
  by (simp_all add: is_digit_def)

lemma Atoi_digits: "list_all is_digit s \<Longrightarrow> strconv_Atoi s =
    (case parse_digits s of None \<Rightarrow> None | Some n \<Rightarrow> if in_int n then Some n else None)"
  unfolding strconv_Atoi_def Let_def by (cases s) (auto split: char.split bool.split)

text \<open>Reading back what was printed.\<close>

lemma Atoi_fmt_d: "in_int n \<Longrightarrow> strconv_Atoi (fmt_d n) = Some n"
proof (cases "n < 0")
  case True
  assume "in_int n"
  with True show ?thesis by (simp add: fmt_d_def strconv_Atoi_def)
next
  case False
  assume "in_int n"
  with False show ?thesis by (simp add: fmt_d_def Atoi_digits)
qed

lemma Atoi_in_int: "strconv_Atoi s = Some n \<Longrightarrow> in_int n"
  by (auto simp: strconv_Atoi_def Let_def split: option.splits if_splits)

section \<open>The environment\<close>

text \<open>An error of the standard library or of a package, one wrapped by \<^verbatim>\<open>fmt.Errorf\<close> with
  \<^verbatim>\<open>%w\<close>, and the result of \<^verbatim>\<open>errors.Join\<close>.\<close>

datatype go_err = GoErr string | Wrapped string go_err | Joined "go_err list"

text \<open>\<^verbatim>\<open>os.Getenv\<close> gives the empty string for a variable that is not set.\<close>

type_synonym environment = "string \<Rightarrow> string"

text \<open>The function exists three times, once per service.\<close>

definition GetEnvWithDefault :: "environment \<Rightarrow> string \<Rightarrow> string \<Rightarrow> string" where
  "GetEnvWithDefault os_Getenv key defaultValue =
     (let value = os_Getenv key in if value = [] then defaultValue else value)"

definition user_GetEnvWithDefault :: "environment \<Rightarrow> string \<Rightarrow> string \<Rightarrow> string" where
  "user_GetEnvWithDefault os_Getenv key defaultValue =
     (let value = os_Getenv key in if value = [] then defaultValue else value)"

definition gateway_GetEnvWithDefault :: "environment \<Rightarrow> string \<Rightarrow> string \<Rightarrow> string" where
  "gateway_GetEnvWithDefault os_Getenv key defaultValue =
     (let value = os_Getenv key in if value = [] then defaultValue else value)"

lemma env_copies:
  "user_GetEnvWithDefault = GetEnvWithDefault" "gateway_GetEnvWithDefault = GetEnvWithDefault"
  by (simp_all add: fun_eq_iff user_GetEnvWithDefault_def gateway_GetEnvWithDefault_def GetEnvWithDefault_def)

lemma GetEnvWithDefault_nonempty: "d \<noteq> [] \<Longrightarrow> GetEnvWithDefault g k d \<noteq> []"
  by (simp add: GetEnvWithDefault_def Let_def)

text \<open>The package variables of the gateway.\<close>

definition UserServiceAddr :: "environment \<Rightarrow> string" where
  "UserServiceAddr g = gateway_GetEnvWithDefault g ''USER_SERVICE_ADDRESS'' ''user-service:50051''"

definition DocumentServiceAddr :: "environment \<Rightarrow> string" where
  "DocumentServiceAddr g = gateway_GetEnvWithDefault g ''DOCUMENT_SERVICE_ADDRESS'' ''document-service:50051''"

definition JWTSecretKey :: "environment \<Rightarrow> string" where
  "JWTSecretKey g = gateway_GetEnvWithDefault g ''JWT_SIGNING_KEY'' ''asdf''"

section \<open>The database configuration\<close>

text \<open>The settings of a connection string by keyword, the tracer, and the hook a new connection
  runs on its type map.\<close>

record pgxpool_Config =
  cfg_settings :: "string \<rightharpoonup> string"
  cfg_Tracer :: bool
  cfg_AfterConnect :: "(string list \<Rightarrow> go_err + string list) option"

type_synonym ParseConfig_fn = "string \<Rightarrow> go_err + pgxpool_Config"

definition connection_string :: "string \<Rightarrow> int \<Rightarrow> string \<Rightarrow> string \<Rightarrow> string \<Rightarrow> string \<Rightarrow> string" where
  "connection_string host port user password dbName poolMaxCons =
     ''host='' @ host @ '' port='' @ fmt_d port @ '' user='' @ user @ '' password='' @ password @
     '' dbname='' @ dbName @ '' pool_max_conns='' @ poolMaxCons"

definition port_of :: "string \<Rightarrow> int" where
  "port_of portEnv = (case strconv_Atoi portEnv of None \<Rightarrow> 5432 | Some port \<Rightarrow> port)"

definition GetConfiguration :: "environment \<Rightarrow> ParseConfig_fn \<Rightarrow> go_err + pgxpool_Config" where
  "GetConfiguration g pgxpool_ParseConfig =
     (let portEnv = GetEnvWithDefault g ''POSTGRES_PORT'' ''5432'';
          port = port_of portEnv;
          host = GetEnvWithDefault g ''POSTGRES_HOST'' ''localhost'';
          dbName = GetEnvWithDefault g ''POSTGRES_DB'' ''postgres'';
          user = GetEnvWithDefault g ''POSTGRES_USER'' ''admin'';
          password = GetEnvWithDefault g ''POSTGRES_PASSWORD'' ''password'';
          poolMaxCons = GetEnvWithDefault g ''POOL_MAX_CONS'' ''25''
      in checked (pgxpool_ParseConfig (connection_string host port user password dbName poolMaxCons)) id (\<lambda>cfg.
         Inr (cfg\<lparr>cfg_Tracer := True\<rparr>)))"

definition user_GetConfiguration :: "environment \<Rightarrow> ParseConfig_fn \<Rightarrow> go_err + pgxpool_Config" where
  "user_GetConfiguration g pgxpool_ParseConfig =
     (let portEnv = user_GetEnvWithDefault g ''POSTGRES_PORT'' ''5432'';
          port = port_of portEnv;
          host = user_GetEnvWithDefault g ''POSTGRES_HOST'' ''localhost'';
          dbName = user_GetEnvWithDefault g ''POSTGRES_DB'' ''postgres'';
          user = user_GetEnvWithDefault g ''POSTGRES_USER'' ''admin'';
          password = user_GetEnvWithDefault g ''POSTGRES_PASSWORD'' ''password'';
          poolMaxCons = user_GetEnvWithDefault g ''POOL_MAX_CONS'' ''25''
      in checked (pgxpool_ParseConfig (connection_string host port user password dbName poolMaxCons)) id (\<lambda>cfg.
         Inr (cfg\<lparr>cfg_Tracer := True\<rparr>)))"

lemma configuration_copies: "user_GetConfiguration = GetConfiguration"
  by (simp add: fun_eq_iff user_GetConfiguration_def GetConfiguration_def env_copies)

section \<open>What the connection string says\<close>

text \<open>The documented keyword/value format: settings separated by spaces, a value that is not
  quoted ends at a space, and quotes and backslashes are special. A plain value has none of
  them. A comma would separate several hosts; a port lies between 1 and 65535, and a pool has
  at least one connection and at most as many as a 32-bit number counts. What is assumed of
  \<^verbatim>\<open>pgxpool.ParseConfig\<close> concerns the six keywords the services use, and such values only.\<close>

definition plain_value :: "string \<Rightarrow> bool" where
  "plain_value v \<longleftrightarrow> v \<noteq> [] \<and> (\<forall>c \<in> set v. 32 < (of_char c :: nat) \<and> c \<noteq> CHR 0x27 \<and> c \<noteq> CHR 0x5C)"

definition plain_number :: "int \<Rightarrow> int \<Rightarrow> string \<Rightarrow> bool" where
  "plain_number lo hi v \<longleftrightarrow> (case strconv_Atoi v of None \<Rightarrow> False | Some n \<Rightarrow> lo \<le> n \<and> n \<le> hi \<and> v = fmt_d n)"

fun join_settings :: "(string \<times> string) list \<Rightarrow> string" where
  "join_settings [] = []"
| "join_settings [(k, v)] = k @ ''='' @ v"
| "join_settings ((k, v) # kv # kvs) = k @ ''='' @ v @ '' '' @ join_settings (kv # kvs)"

definition used_keywords :: "string list" where
  "used_keywords = [''host'', ''port'', ''user'', ''password'', ''dbname'', ''pool_max_conns'']"

definition valid_setting :: "string \<times> string \<Rightarrow> bool" where
  "valid_setting = (\<lambda>(k, v). k \<in> set used_keywords \<and> plain_value v \<and>
     (k = ''host'' \<longrightarrow> CHR '','' \<notin> set v) \<and>
     (k = ''port'' \<longrightarrow> plain_number 1 65535 v) \<and>
     (k = ''pool_max_conns'' \<longrightarrow> plain_number 1 (2 ^ 31 - 1) v))"

definition ParseConfig_ok :: "ParseConfig_fn \<Rightarrow> bool" where
  "ParseConfig_ok P \<longleftrightarrow> (\<forall>kvs. list_all valid_setting kvs \<longrightarrow> distinct (map fst kvs) \<longrightarrow>
     set (map fst kvs) = set used_keywords \<longrightarrow>
     (\<exists>cfg. P (join_settings kvs) = Inr cfg \<and> (\<forall>(k, v) \<in> set kvs. cfg_settings cfg k = Some v)))"

text \<open>A parser of plain settings, for the witnesses.\<close>

definition split_setting :: "string \<Rightarrow> string \<times> string" where
  "split_setting w = (takeWhile (\<lambda>c. c \<noteq> CHR ''='') w, drop 1 (dropWhile (\<lambda>c. c \<noteq> CHR ''='') w))"

definition plain_ParseConfig :: ParseConfig_fn where
  "plain_ParseConfig s = Inr \<lparr> cfg_settings = map_of (map split_setting (split_on (CHR '' '') s)),
     cfg_Tracer = False, cfg_AfterConnect = None \<rparr>"

lemma split_setting_join: "CHR ''='' \<notin> set k \<Longrightarrow> split_setting (k @ ''='' @ v) = (k, v)"
  by (simp add: split_setting_def takeWhile_append dropWhile_append)

lemma plain_value_no_space: "plain_value v \<Longrightarrow> CHR '' '' \<notin> set v"
  unfolding plain_value_def using less_irrefl [of "32::nat"] by fastforce

lemma valid_setting_chars: "valid_setting (k, v) \<Longrightarrow> CHR ''='' \<notin> set k \<and> CHR '' '' \<notin> set (k @ ''='' @ v)"
proof -
  assume kv: "valid_setting (k, v)"
  have "list_all (\<lambda>k. CHR ''='' \<notin> set k \<and> CHR '' '' \<notin> set k) used_keywords" by (simp add: used_keywords_def)
  with kv have "CHR ''='' \<notin> set k" "CHR '' '' \<notin> set k"
    unfolding valid_setting_def list_all_iff by blast+
  moreover have "CHR '' '' \<notin> set v" using kv plain_value_no_space unfolding valid_setting_def by blast
  ultimately show ?thesis by simp
qed

lemma split_join_settings:
  "kvs \<noteq> [] \<Longrightarrow> list_all valid_setting kvs \<Longrightarrow>
   map split_setting (split_on (CHR '' '') (join_settings kvs)) = kvs"
proof (induction kvs rule: join_settings.induct)
  case (2 k v)
  then have *: "CHR ''='' \<notin> set k" "CHR '' '' \<notin> set (k @ ''='' @ v)"
    using valid_setting_chars [of k v] by simp_all
  from split_on_single [OF *(2)] *(1) show ?case
    by (simp add: split_setting_join [simplified])
next
  case (3 k v kv kvs)
  then have *: "CHR ''='' \<notin> set k" "CHR '' '' \<notin> set (k @ ''='' @ v)"
    using valid_setting_chars [of k v] by simp_all
  show ?case
    using 3 *(1) split_on_first [OF *(2), of "join_settings (kv # kvs)"]
    by (simp add: split_setting_join [simplified])
qed simp

lemma plain_ParseConfig_ok: "ParseConfig_ok plain_ParseConfig"
  unfolding ParseConfig_ok_def
proof (intro allI impI)
  fix kvs assume *: "list_all valid_setting kvs" "distinct (map fst kvs)" "set (map fst kvs) = set used_keywords"
  show "\<exists>cfg. plain_ParseConfig (join_settings kvs) = Inr cfg \<and> (\<forall>(k, v) \<in> set kvs. cfg_settings cfg k = Some v)"
    by (cases "kvs = []") (auto simp: plain_ParseConfig_def split_join_settings [OF _ *(1)] * map_of_is_SomeI)
qed

section \<open>Properties\<close>

definition env_settings :: "environment \<Rightarrow> (string \<times> string) list" where
  "env_settings g = [(''host'', GetEnvWithDefault g ''POSTGRES_HOST'' ''localhost''),
     (''port'', fmt_d (port_of (GetEnvWithDefault g ''POSTGRES_PORT'' ''5432''))),
     (''user'', GetEnvWithDefault g ''POSTGRES_USER'' ''admin''),
     (''password'', GetEnvWithDefault g ''POSTGRES_PASSWORD'' ''password''),
     (''dbname'', GetEnvWithDefault g ''POSTGRES_DB'' ''postgres''),
     (''pool_max_conns'', GetEnvWithDefault g ''POOL_MAX_CONS'' ''25'')]"

lemma GetConfiguration_settings:
  "GetConfiguration g P = checked (P (join_settings (env_settings g))) id (\<lambda>cfg. Inr (cfg\<lparr>cfg_Tracer := True\<rparr>))"
  by (simp add: GetConfiguration_def env_settings_def connection_string_def Let_def)

lemma fmt_d_plain_number: "lo \<le> n \<Longrightarrow> n \<le> hi \<Longrightarrow> in_int n \<Longrightarrow> plain_number lo hi (fmt_d n)"
  by (simp add: plain_number_def Atoi_fmt_d)

lemma plain_value_fmt_d: "0 \<le> n \<Longrightarrow> plain_value (fmt_d n)"
proof -
  assume n: "0 \<le> n"
  have "32 < (of_char c :: nat) \<and> c \<noteq> CHR 0x27 \<and> c \<noteq> CHR 0x5C" if "is_digit c" for c
    using that by (auto simp: is_digit_def)
  with n show ?thesis
    using decimal_simps(2) [of "nat n"] by (auto simp: plain_value_def fmt_d_def list_all_iff)
qed

lemma plain_number_plain_value: "plain_number lo hi v \<Longrightarrow> 0 \<le> lo \<Longrightarrow> plain_value v"
  by (auto simp: plain_number_def plain_value_fmt_d split: option.splits)

lemma default_port: "strconv_Atoi ''5432'' = Some 5432" "strconv_Atoi [] = None"
  by (simp_all add: strconv_Atoi_def parse_digits_def is_digit_def digits_value_def in_int_def)

lemma port_of_environment: "port_of (GetEnvWithDefault g ''POSTGRES_PORT'' ''5432'') =
    (case strconv_Atoi (g ''POSTGRES_PORT'') of Some n \<Rightarrow> n | None \<Rightarrow> 5432)"
  by (simp add: port_of_def GetEnvWithDefault_def default_port Let_def)

text \<open>C33: the database configuration says what the environment says. Either service configures its
  pool, with the query tracer, for the host, user, password, database and pool size of the
  environment, each with its default where the variable is not set, and for the port of the
  environment, or 5432 where that variable is not set or not a number. The values must be such
  that a connection string can hold them without quotes.\<close>

theorem configuration_from_environment:
  assumes "ParseConfig_ok P"
    and host: "host = (if g ''POSTGRES_HOST'' = [] then ''localhost'' else g ''POSTGRES_HOST'')"
      "plain_value host" "CHR '','' \<notin> set host"
    and port: "port = (case strconv_Atoi (g ''POSTGRES_PORT'') of Some n \<Rightarrow> n | None \<Rightarrow> 5432)" "1 \<le> port" "port \<le> 65535"
    and user: "user = (if g ''POSTGRES_USER'' = [] then ''admin'' else g ''POSTGRES_USER'')" "plain_value user"
    and password: "password = (if g ''POSTGRES_PASSWORD'' = [] then ''password'' else g ''POSTGRES_PASSWORD'')"
      "plain_value password"
    and dbname: "dbname = (if g ''POSTGRES_DB'' = [] then ''postgres'' else g ''POSTGRES_DB'')" "plain_value dbname"
    and conns: "conns = (if g ''POOL_MAX_CONS'' = [] then ''25'' else g ''POOL_MAX_CONS'')"
      "plain_number 1 (2 ^ 31 - 1) conns"
  shows "\<exists>cfg. GetConfiguration g P = Inr cfg \<and> user_GetConfiguration g P = Inr cfg \<and> cfg_Tracer cfg \<and>
    cfg_settings cfg ''host'' = Some host \<and> cfg_settings cfg ''port'' = Some (fmt_d port) \<and>
    cfg_settings cfg ''user'' = Some user \<and> cfg_settings cfg ''password'' = Some password \<and>
    cfg_settings cfg ''dbname'' = Some dbname \<and> cfg_settings cfg ''pool_max_conns'' = Some conns"
proof -
  let ?kvs = "[(''host'', host), (''port'', fmt_d port), (''user'', user), (''password'', password),
    (''dbname'', dbname), (''pool_max_conns'', conns)]"
  have kvs: "env_settings g = ?kvs"
    by (simp add: env_settings_def port_of_environment port(1) [symmetric])
      (simp add: GetEnvWithDefault_def host(1) user(1) password(1) dbname(1) conns(1))
  have "in_int port" using port(2,3) by (simp add: in_int_def)
  then have "list_all valid_setting ?kvs"
    using host(2,3) port(2,3) user(2) password(2) dbname(2) conns(2) plain_number_plain_value [OF conns(2)]
    by (simp add: valid_setting_def used_keywords_def fmt_d_plain_number plain_value_fmt_d)
  moreover have "distinct (map fst ?kvs)" "set (map fst ?kvs) = set used_keywords"
    by (simp_all add: used_keywords_def)
  ultimately obtain cfg where "P (join_settings ?kvs) = Inr cfg" "\<forall>(k, v) \<in> set ?kvs. cfg_settings cfg k = Some v"
    using assms(1) unfolding ParseConfig_ok_def by blast
  then show ?thesis by (simp add: configuration_copies GetConfiguration_settings kvs del: join_settings.simps)
qed

definition demo_environment :: environment where
  "demo_environment = (\<lambda>_. [])(''POSTGRES_PORT'' := ''6000'', ''POSTGRES_HOST'' := ''10.0.0.7'')"

lemma demo_numbers:
  "fmt_d 6000 = ''6000''" "fmt_d 25 = ''25''" "strconv_Atoi ''6000'' = Some 6000" "strconv_Atoi ''25'' = Some 25"
  by (simp_all add: fmt_d_def decimal.simps digit_def char_of_def bit_Suc_0_iff strconv_Atoi_def parse_digits_def is_digit_def
      digits_value_def in_int_def)

theorem configuration_from_environment_witness:
  "\<exists>cfg. GetConfiguration demo_environment plain_ParseConfig = Inr cfg \<and>
     cfg_settings cfg ''port'' = Some ''6000'' \<and> cfg_settings cfg ''host'' = Some ''10.0.0.7'' \<and>
     cfg_settings cfg ''pool_max_conns'' = Some ''25''"
  using configuration_from_environment [OF plain_ParseConfig_ok, of "''10.0.0.7''" demo_environment 6000
      "''admin''" "''password''" "''postgres''" "''25''"]
  by (auto simp: demo_environment_def plain_value_def plain_number_def demo_numbers)

text \<open>The values are put into the connection string without quotes, so a password with a space in it is
  not transmitted: two environments with different passwords give the same configuration, however
  the string is read.\<close>

lemma password_with_space_ambiguous:
  assumes "g ''POSTGRES_PASSWORD'' = p @ '' dbname='' @ x" "g ''POSTGRES_DB'' = y" "y \<noteq> []"
    and "p \<noteq> []" "x \<noteq> []"
  shows "GetConfiguration g P =
    GetConfiguration (g(''POSTGRES_PASSWORD'' := p, ''POSTGRES_DB'' := x @ '' dbname='' @ y)) P"
  using assms by (simp add: GetConfiguration_def GetEnvWithDefault_def connection_string_def Let_def)

end
