(* ===== verification/Gateway_Server.thy ===== *)
theory Gateway_Server
  imports Gateway_Permissions Gateway_Users Proto_Sample Config
begin

text \<open>
  The gateway as a whole: the service with its two clients (\<^verbatim>\<open>server.go\<close>), the wrappers that
  bind path and query parameters and apply the middlewares (the generated
  \<^verbatim>\<open>api_gateway.gen.go\<close>), the error handler (\<^verbatim>\<open>error_handling.go\<close>) and the server that
  \<^verbatim>\<open>cmd/server/main.go\<close> puts together. A request runs on the connections of both services.
  Here a request comes with its route; theory \<open>Routing\<close> matches it against the
  patterns. Parameter binding (\<^verbatim>\<open>oapi-codegen/runtime\<close>), the request validator
  (\<^verbatim>\<open>nethttp-middleware\<close>) and the JSON decoder are parameters.
\<close>

section \<open>State and parameters\<close>

record world =
  w_docs :: "doc_db conn"
  w_users :: "user_db conn"

definition on_docs :: "(doc_db, 'a) db_op \<Rightarrow> (world, 'a) state" where
  "on_docs m = State (\<lambda>s. case run_state m (w_docs s) of (x, c) \<Rightarrow> (x, s\<lparr>w_docs := c\<rparr>))"

definition on_users :: "(user_db, 'a) db_op \<Rightarrow> (world, 'a) state" where
  "on_users m = State (\<lambda>s. case run_state m (w_users s) of (x, c) \<Rightarrow> (x, s\<lparr>w_users := c\<rparr>))"

type_synonym http_Handler = "http_request \<Rightarrow> ResponseWriter \<Rightarrow> world action"
type_synonym MiddlewareFunc = "http_Handler \<Rightarrow> http_Handler"

text \<open>Binding: the name of the parameter and its raw value; an error is its text. An optional query
  parameter that is absent is bound to None.\<close>

record runtime_pkg =
  BindUUID :: "string \<Rightarrow> string \<Rightarrow> string + uuid"
  BindQueryString :: "string \<Rightarrow> (string \<times> string) list \<Rightarrow> string + string option"
  BindQueryInt32 :: "string \<Rightarrow> (string \<times> string) list \<Rightarrow> string + int32 option"
  BindQueryLevels :: "string \<Rightarrow> (string \<times> string) list \<Rightarrow> string + net_PermissionLevel list option"

record json_pkg =
  js_Login :: "string \<Rightarrow> PostAuthLoginJSONBody option"
  js_DocumentIds :: "string \<Rightarrow> uuid list option"
  js_PostDocument :: "string \<Rightarrow> PostDocumentJSONBody option"
  js_PutDocument :: "string \<Rightarrow> PutDocumentJSONBody option"
  js_PostPermission :: "string \<Rightarrow> PostPermissionJSONBody option"
  js_PutPermission :: "string \<Rightarrow> PutPermissionJSONBody option"
  js_PostUser :: "string \<Rightarrow> PostUserJSONBody option"
  js_PutUser :: "string \<Rightarrow> PutUserJSONBody option"

record gateway_env =
  gw_env :: env
  gw_protobuf :: protobuf
  gw_jwt :: jwt
  gw_JWTSecretKey :: string
  gw_now :: time                  \<comment> \<open>when the middleware parses the token\<close>
  gw_login_now :: "time \<times> time"   \<comment> \<open>the two calls of \<^verbatim>\<open>time.Now\<close> in the login\<close>
  gw_json :: json_pkg
  gw_runtime :: runtime_pkg
  gw_validator :: MiddlewareFunc

section \<open>Errors of parameters\<close>

text \<open>The error types of the generated code, with the name of the parameter and the text of the cause;
  the wrappers make only the fifth.\<close>

datatype param_err =
    UnescapedCookieParamError string string
  | UnmarshalingParamError string string
  | RequiredParamError string
  | RequiredHeaderError string string
  | InvalidParamFormatError string string
  | TooManyValuesForParamError string int

fun param_Error :: "param_err \<Rightarrow> string" where
  "param_Error (UnescapedCookieParamError ParamName Err) = ''error unescaping cookie parameter '' @ [CHR 0x27] @ ParamName @ [CHR 0x27]"
| "param_Error (UnmarshalingParamError ParamName Err) = ''Error unmarshaling parameter '' @ ParamName @ '' as JSON: '' @ Err"
| "param_Error (RequiredParamError ParamName) = ''Query argument '' @ ParamName @ '' is required, but not found''"
| "param_Error (RequiredHeaderError ParamName Err) = ''Header parameter '' @ ParamName @ '' is required, but not found''"
| "param_Error (InvalidParamFormatError ParamName Err) = ''Invalid format for parameter '' @ ParamName @ '': '' @ Err"
| "param_Error (TooManyValuesForParamError ParamName Count) = ''Expected one value for '' @ ParamName @ '', got '' @ fmt_d Count"

text \<open>Two of the types have no cause to unwrap.\<close>

fun param_Unwrap :: "param_err \<Rightarrow> string option" where
  "param_Unwrap (UnescapedCookieParamError _ Err) = Some Err"
| "param_Unwrap (UnmarshalingParamError _ Err) = Some Err"
| "param_Unwrap (RequiredHeaderError _ Err) = Some Err"
| "param_Unwrap (InvalidParamFormatError _ Err) = Some Err"
| "param_Unwrap (RequiredParamError _) = None"
| "param_Unwrap (TooManyValuesForParamError _ _) = None"

section \<open>The service and its wrapper\<close>

record Service =
  userServiceClient :: UserServiceClient
  documentServiceClient :: DocumentServiceClient

definition NewService :: "UserServiceClient \<Rightarrow> DocumentServiceClient \<Rightarrow> Service" where
  "NewService usClient dsClient = \<lparr> userServiceClient = usClient, documentServiceClient = dsClient \<rparr>"

record ServerInterfaceWrapper =
  siw_Handler :: Service
  siw_HandlerMiddlewares :: "MiddlewareFunc list"
  siw_ErrorHandlerFunc :: "ResponseWriter \<Rightarrow> http_request \<Rightarrow> param_err \<Rightarrow> world action"

definition ErrorHandlerFunc :: "ResponseWriter \<Rightarrow> http_request \<Rightarrow> param_err \<Rightarrow> world action" where
  "ErrorHandlerFunc w r err = respond (Encode (WriteHeader w 400) (P_PlainText (Text (param_Error err))))"

text \<open>\<^verbatim>\<open>for _, middleware := range siw.HandlerMiddlewares { handler = middleware(handler) }\<close>: the
  last middleware of the list is the outermost.\<close>

definition serve_with :: "ServerInterfaceWrapper \<Rightarrow> http_Handler \<Rightarrow> http_Handler" where
  "serve_with siw handler = foldl (\<lambda>handler middleware. middleware handler) handler (siw_HandlerMiddlewares siw)"

definition with_scopes :: "http_request \<Rightarrow> http_request" where
  "with_scopes r = r\<lparr>req_BearerAuthScopes := Some []\<rparr>"

definition bind_path ::
  "gateway_env \<Rightarrow> ServerInterfaceWrapper \<Rightarrow> string \<Rightarrow> http_request \<Rightarrow> ResponseWriter \<Rightarrow> (uuid \<Rightarrow> world action) \<Rightarrow> world action" where
  "bind_path X siw name r w k = (case BindUUID (gw_runtime X) name (req_PathValue r name) of
      Inl err \<Rightarrow> siw_ErrorHandlerFunc siw w r (InvalidParamFormatError name err) | Inr u \<Rightarrow> k u)"

definition bind_query ::
  "(string \<Rightarrow> (string \<times> string) list \<Rightarrow> string + 'a option) \<Rightarrow> ServerInterfaceWrapper \<Rightarrow> string \<Rightarrow> http_request \<Rightarrow>
   ResponseWriter \<Rightarrow> ('a option \<Rightarrow> world action) \<Rightarrow> world action" where
  "bind_query bindf siw name r w k = (case bindf name (req_Query r) of
      Inl err \<Rightarrow> siw_ErrorHandlerFunc siw w r (InvalidParamFormatError name err) | Inr v \<Rightarrow> k v)"

section \<open>The wrappers of the routes\<close>

definition siw_PostAuthLogin :: "gateway_env \<Rightarrow> ServerInterfaceWrapper \<Rightarrow> http_Handler" where
  "siw_PostAuthLogin X siw r w = serve_with siw (\<lambda>r w. on_users (http_PostAuthLogin (userServiceClient (siw_Handler siw))
     (gw_env X) (gw_jwt X) (gw_JWTSecretKey X) (fst (gw_login_now X)) (snd (gw_login_now X))
     (js_Login (gw_json X) (req_Body r)) w)) r w"

definition siw_DeleteDocument :: "gateway_env \<Rightarrow> ServerInterfaceWrapper \<Rightarrow> http_Handler" where
  "siw_DeleteDocument X siw r w = serve_with siw (\<lambda>r w. on_docs (http_DeleteDocument
     (documentServiceClient (siw_Handler siw)) (gw_env X) (js_DocumentIds (gw_json X) (req_Body r)) (req_Claims r) w))
     (with_scopes r) w"

definition siw_GetDocument :: "gateway_env \<Rightarrow> ServerInterfaceWrapper \<Rightarrow> http_Handler" where
  "siw_GetDocument X siw r0 w =
     (let r = with_scopes r0 in
      bind_query (BindQueryString (gw_runtime X)) siw ''cursor'' r w (\<lambda>cursor.
      bind_query (BindQueryInt32 (gw_runtime X)) siw ''limit'' r w (\<lambda>limit.
      bind_query (BindQueryString (gw_runtime X)) siw ''permissionLevel'' r w (\<lambda>permissionLevel.
      serve_with siw (\<lambda>r w. on_docs (http_GetDocument (documentServiceClient (siw_Handler siw)) (gw_env X) (gw_protobuf X)
        \<lparr> gp_Cursor = cursor, gp_Limit = limit, gp_PermissionLevel = permissionLevel \<rparr> (req_Claims r) w)) r w))))"

definition siw_PostDocument :: "gateway_env \<Rightarrow> ServerInterfaceWrapper \<Rightarrow> http_Handler" where
  "siw_PostDocument X siw r w = serve_with siw (\<lambda>r w. on_docs (http_PostDocument
     (documentServiceClient (siw_Handler siw)) (gw_env X) (js_PostDocument (gw_json X) (req_Body r)) (req_Claims r) w))
     (with_scopes r) w"

definition siw_DeleteDocumentDocumentId :: "gateway_env \<Rightarrow> ServerInterfaceWrapper \<Rightarrow> http_Handler" where
  "siw_DeleteDocumentDocumentId X siw r w =
     bind_path X siw ''documentId'' r w (\<lambda>documentId.
     serve_with siw (\<lambda>r w. on_docs (http_DeleteDocumentDocumentId (documentServiceClient (siw_Handler siw)) (gw_env X)
       documentId (req_Claims r) w)) (with_scopes r) w)"

definition siw_GetDocumentDocumentId :: "gateway_env \<Rightarrow> ServerInterfaceWrapper \<Rightarrow> http_Handler" where
  "siw_GetDocumentDocumentId X siw r w =
     bind_path X siw ''documentId'' r w (\<lambda>documentId.
     serve_with siw (\<lambda>r w. on_docs (http_GetDocumentDocumentId (documentServiceClient (siw_Handler siw)) (gw_env X)
       documentId (req_Claims r) w)) (with_scopes r) w)"

definition siw_PutDocumentDocumentId :: "gateway_env \<Rightarrow> ServerInterfaceWrapper \<Rightarrow> http_Handler" where
  "siw_PutDocumentDocumentId X siw r w =
     bind_path X siw ''documentId'' r w (\<lambda>documentId.
     serve_with siw (\<lambda>r w. on_docs (http_PutDocumentDocumentId (documentServiceClient (siw_Handler siw)) (gw_env X)
       documentId (js_PutDocument (gw_json X) (req_Body r)) (req_Claims r) w)) (with_scopes r) w)"

definition siw_GetDocumentDocumentIdPermission :: "gateway_env \<Rightarrow> ServerInterfaceWrapper \<Rightarrow> http_Handler" where
  "siw_GetDocumentDocumentIdPermission X siw r0 w =
     bind_path X siw ''documentId'' r0 w (\<lambda>documentId.
     let r = with_scopes r0 in
      bind_query (BindQueryString (gw_runtime X)) siw ''cursor'' r w (\<lambda>cursor.
      bind_query (BindQueryInt32 (gw_runtime X)) siw ''limit'' r w (\<lambda>limit.
      bind_query (BindQueryLevels (gw_runtime X)) siw ''permissionFilter'' r w (\<lambda>permissionFilter.
      serve_with siw (\<lambda>r w. on_docs (http_GetDocumentDocumentIdPermission (documentServiceClient (siw_Handler siw)) (gw_env X)
        (gw_protobuf X) documentId \<lparr> lp_Cursor = cursor, lp_Limit = limit, lp_PermissionFilter = permissionFilter \<rparr>
        (req_Claims r) w)) r w))))"

definition siw_PostDocumentDocumentIdPermission :: "gateway_env \<Rightarrow> ServerInterfaceWrapper \<Rightarrow> http_Handler" where
  "siw_PostDocumentDocumentIdPermission X siw r w =
     bind_path X siw ''documentId'' r w (\<lambda>documentId.
     serve_with siw (\<lambda>r w. on_docs (http_PostDocumentDocumentIdPermission (documentServiceClient (siw_Handler siw)) (gw_env X)
       documentId (js_PostPermission (gw_json X) (req_Body r)) (req_Claims r) w)) (with_scopes r) w)"

definition siw_DeletePermissionPrincipal :: "gateway_env \<Rightarrow> ServerInterfaceWrapper \<Rightarrow> http_Handler" where
  "siw_DeletePermissionPrincipal X siw r w =
     bind_path X siw ''documentId'' r w (\<lambda>documentId.
     bind_path X siw ''principalId'' r w (\<lambda>principalId.
     serve_with siw (\<lambda>r w. on_docs (http_DeletePermissionPrincipal (documentServiceClient (siw_Handler siw)) (gw_env X)
       documentId principalId (req_Claims r) w)) (with_scopes r) w))"

definition siw_GetPermissionPrincipal :: "gateway_env \<Rightarrow> ServerInterfaceWrapper \<Rightarrow> http_Handler" where
  "siw_GetPermissionPrincipal X siw r w =
     bind_path X siw ''documentId'' r w (\<lambda>documentId.
     bind_path X siw ''principalId'' r w (\<lambda>principalId.
     serve_with siw (\<lambda>r w. on_docs (http_GetPermissionPrincipal (documentServiceClient (siw_Handler siw)) (gw_env X)
       documentId principalId (req_Claims r) w)) (with_scopes r) w))"

definition siw_PutPermissionPrincipal :: "gateway_env \<Rightarrow> ServerInterfaceWrapper \<Rightarrow> http_Handler" where
  "siw_PutPermissionPrincipal X siw r w =
     bind_path X siw ''documentId'' r w (\<lambda>documentId.
     bind_path X siw ''principalId'' r w (\<lambda>principalId.
     serve_with siw (\<lambda>r w. on_docs (http_PutPermissionPrincipal (documentServiceClient (siw_Handler siw)) (gw_env X)
       documentId principalId (js_PutPermission (gw_json X) (req_Body r)) (req_Claims r) w)) (with_scopes r) w))"

definition siw_PostUser :: "gateway_env \<Rightarrow> ServerInterfaceWrapper \<Rightarrow> http_Handler" where
  "siw_PostUser X siw r w = serve_with siw (\<lambda>r w. on_users (http_PostUser (userServiceClient (siw_Handler siw)) (gw_env X)
     (js_PostUser (gw_json X) (req_Body r)) w)) (with_scopes r) w"

definition siw_DeleteUserUserId :: "gateway_env \<Rightarrow> ServerInterfaceWrapper \<Rightarrow> http_Handler" where
  "siw_DeleteUserUserId X siw r w =
     bind_path X siw ''userId'' r w (\<lambda>userId.
     serve_with siw (\<lambda>r w. on_users (http_DeleteUserUserId (userServiceClient (siw_Handler siw)) (gw_env X) userId w))
       (with_scopes r) w)"

definition siw_GetUserUserId :: "gateway_env \<Rightarrow> ServerInterfaceWrapper \<Rightarrow> http_Handler" where
  "siw_GetUserUserId X siw r w =
     bind_path X siw ''userId'' r w (\<lambda>userId.
     serve_with siw (\<lambda>r w. on_users (http_GetUserUserId (userServiceClient (siw_Handler siw)) (gw_env X) userId w))
       (with_scopes r) w)"

definition siw_PutUserUserId :: "gateway_env \<Rightarrow> ServerInterfaceWrapper \<Rightarrow> http_Handler" where
  "siw_PutUserUserId X siw r w =
     bind_path X siw ''userId'' r w (\<lambda>userId.
     serve_with siw (\<lambda>r w. on_users (http_PutUserUserId (userServiceClient (siw_Handler siw)) (gw_env X) userId
       (js_PutUser (gw_json X) (req_Body r)) w)) (with_scopes r) w)"

section \<open>The server\<close>

datatype pattern =
    POST_auth_login | DELETE_document | GET_document | POST_document
  | DELETE_document_id | GET_document_id | PUT_document_id
  | GET_permission | POST_permission
  | DELETE_permission_principal | GET_permission_principal | PUT_permission_principal
  | POST_user | DELETE_user_id | GET_user_id | PUT_user_id

fun HandlerWithOptions :: "gateway_env \<Rightarrow> ServerInterfaceWrapper \<Rightarrow> pattern \<Rightarrow> http_Handler" where
  "HandlerWithOptions X siw POST_auth_login = siw_PostAuthLogin X siw"
| "HandlerWithOptions X siw DELETE_document = siw_DeleteDocument X siw"
| "HandlerWithOptions X siw GET_document = siw_GetDocument X siw"
| "HandlerWithOptions X siw POST_document = siw_PostDocument X siw"
| "HandlerWithOptions X siw DELETE_document_id = siw_DeleteDocumentDocumentId X siw"
| "HandlerWithOptions X siw GET_document_id = siw_GetDocumentDocumentId X siw"
| "HandlerWithOptions X siw PUT_document_id = siw_PutDocumentDocumentId X siw"
| "HandlerWithOptions X siw GET_permission = siw_GetDocumentDocumentIdPermission X siw"
| "HandlerWithOptions X siw POST_permission = siw_PostDocumentDocumentIdPermission X siw"
| "HandlerWithOptions X siw DELETE_permission_principal = siw_DeletePermissionPrincipal X siw"
| "HandlerWithOptions X siw GET_permission_principal = siw_GetPermissionPrincipal X siw"
| "HandlerWithOptions X siw PUT_permission_principal = siw_PutPermissionPrincipal X siw"
| "HandlerWithOptions X siw POST_user = siw_PostUser X siw"
| "HandlerWithOptions X siw DELETE_user_id = siw_DeleteUserUserId X siw"
| "HandlerWithOptions X siw GET_user_id = siw_GetUserUserId X siw"
| "HandlerWithOptions X siw PUT_user_id = siw_PutUserUserId X siw"

text \<open>The options of \<^verbatim>\<open>main\<close>: authentication first in the list, then the validator.\<close>

definition main_wrapper :: "gateway_env \<Rightarrow> Service \<Rightarrow> ServerInterfaceWrapper" where
  "main_wrapper X service = \<lparr> siw_Handler = service,
     siw_HandlerMiddlewares = [AuthMiddleware (gw_jwt X) (gw_now X) (gw_JWTSecretKey X), gw_validator X],
     siw_ErrorHandlerFunc = ErrorHandlerFunc \<rparr>"

definition gateway_main :: "gateway_env \<Rightarrow> Service \<Rightarrow> pattern \<Rightarrow> http_Handler" where
  "gateway_main X service = HandlerWithOptions X (main_wrapper X service)"

section \<open>Requests that are turned away\<close>

text \<open>What the validator's documentation promises: it passes the request on, or answers with an
  error status and a text and does not.\<close>

definition validator_ok :: "MiddlewareFunc \<Rightarrow> bool" where
  "validator_ok V \<longleftrightarrow> (\<forall>nextHandler r w s. run_state (V nextHandler r w) s = run_state (nextHandler r w) s \<or>
     (\<exists>code msg. 400 \<le> code \<and> run_state (V nextHandler r w) s = (Responded (Encode (WriteHeader w code) (P_PlainText msg)), s)))"

definition turned_away :: "world action \<Rightarrow> ResponseWriter \<Rightarrow> world \<Rightarrow> bool" where
  "turned_away m w s \<longleftrightarrow> (\<exists>code p. 400 \<le> code \<and> run_state m s = (Responded (Encode (WriteHeader w code) p), s))"

lemma turned_away_error: "400 \<le> code \<Longrightarrow> turned_away (respond (Encode (WriteHeader w code) p)) w s"
  by (auto simp: turned_away_def)

lemma turned_away_bind:
  "(\<And>u. turned_away (k u) w s) \<Longrightarrow> turned_away (bind_path X (main_wrapper X sv) name r w k) w s"
  "(\<And>v. turned_away (k' v) w s) \<Longrightarrow> turned_away (bind_query bindf (main_wrapper X sv) name r w k') w s"
  by (auto simp: bind_path_def bind_query_def main_wrapper_def ErrorHandlerFunc_def turned_away_error split: sum.split)

lemma serve_with_main:
  "serve_with (main_wrapper X sv) h =
     gw_validator X (AuthMiddleware (gw_jwt X) (gw_now X) (gw_JWTSecretKey X) h)"
  by (simp add: serve_with_def main_wrapper_def)

lemma siw_Handler_main: "siw_Handler (main_wrapper X sv) = sv"
  by (simp add: main_wrapper_def)

lemma with_scopes_simps [simp]:
  "req_Path (with_scopes r) = req_Path r" "req_Authentication (with_scopes r) = req_Authentication r"
  "bearer_claims J t key (with_scopes r) = bearer_claims J t key r"
  by (simp_all add: with_scopes_def bearer_claims_def)

lemma AuthMiddleware_no_claims:
  assumes "req_Path r \<noteq> ''/auth/login''" "bearer_claims J t key r = None"
  obtains code msg where "400 \<le> code"
    "run_state (AuthMiddleware J t key h r w) s = (Responded (Encode (WriteHeader w code) (P_Error msg)), s)"
  using that [of 401] that [of 403] AuthMiddleware_other_path [OF assms(1), of J t key h w s] assms(2)
  by (simp add: SendError_def split: if_splits)

lemma serve_with_no_claims:
  assumes "validator_ok (gw_validator X)" "req_Path r \<noteq> ''/auth/login''"
    and "bearer_claims (gw_jwt X) (gw_now X) (gw_JWTSecretKey X) r = None"
  shows "turned_away (serve_with (main_wrapper X sv) h r w) w s"
proof -
  let ?A = "AuthMiddleware (gw_jwt X) (gw_now X) (gw_JWTSecretKey X) h"
  obtain code msg where A: "400 \<le> code" "run_state (?A r w) s = (Responded (Encode (WriteHeader w code) (P_Error msg)), s)"
    by (rule AuthMiddleware_no_claims [OF assms(2,3)])
  have "run_state (gw_validator X ?A r w) s = run_state (?A r w) s \<or>
     (\<exists>code msg. 400 \<le> code \<and> run_state (gw_validator X ?A r w) s = (Responded (Encode (WriteHeader w code) (P_PlainText msg)), s))"
    using assms(1) unfolding validator_ok_def by blast
  with A show ?thesis unfolding turned_away_def serve_with_main by metis
qed

lemmas siw_defs = siw_DeleteDocument_def siw_GetDocument_def siw_PostDocument_def siw_DeleteDocumentDocumentId_def
  siw_GetDocumentDocumentId_def siw_PutDocumentDocumentId_def siw_GetDocumentDocumentIdPermission_def
  siw_PostDocumentDocumentIdPermission_def siw_DeletePermissionPrincipal_def siw_GetPermissionPrincipal_def
  siw_PutPermissionPrincipal_def siw_PostUser_def siw_DeleteUserUserId_def siw_GetUserUserId_def siw_PutUserUserId_def

section \<open>Properties\<close>

text \<open>A gateway for the witnesses: a login body that is not empty is decoded as the one of a login with
  the right password, every other body fails to decode, and the validator lets everything through.\<close>

definition demo_json :: json_pkg where
  "demo_json = \<lparr> js_Login = (\<lambda>body. if body = [] then None
       else Some \<lparr> lb_Password = ''old-secret'', lb_UserName = ''alice'' \<rparr>),
     js_DocumentIds = (\<lambda>_. None), js_PostDocument = (\<lambda>_. None), js_PutDocument = (\<lambda>_. None),
     js_PostPermission = (\<lambda>_. None), js_PutPermission = (\<lambda>_. None), js_PostUser = (\<lambda>_. None), js_PutUser = (\<lambda>_. None) \<rparr>"

definition demo_gateway :: gateway_env where
  "demo_gateway = \<lparr> gw_env = concrete_env 1 1, gw_protobuf = sample_protobuf, gw_jwt = plain_jwt,
     gw_JWTSecretKey = ''asdf'', gw_now = 100, gw_login_now = (5, 6), gw_json = demo_json,
     gw_runtime = \<lparr> BindUUID = (\<lambda>_ v. case canon_Parse v of None \<Rightarrow> Inl ''invalid UUID'' | Some u \<Rightarrow> Inr u),
       BindQueryString = (\<lambda>_ _. Inr None),
       BindQueryInt32 = (\<lambda>_ _. Inr None), BindQueryLevels = (\<lambda>_ _. Inr None) \<rparr>,
     gw_validator = (\<lambda>h. h) \<rparr>"

definition demo_service :: Service where
  "demo_service = NewService login_client demo_client"

definition demo_world :: world where
  "demo_world = \<lparr> w_docs = demo_conn, w_users = demo_users \<rparr>"

text \<open>On every route of the server but the login, a request without a header that carries a token
  the middleware accepts is answered with an error status, and neither the documents nor the
  accounts are touched: neither connection sees a call.\<close>

lemma server_requires_token:
  assumes "validator_ok (gw_validator X)" "p \<noteq> POST_auth_login" "req_Path r \<noteq> ''/auth/login''"
    and "bearer_claims (gw_jwt X) (gw_now X) (gw_JWTSecretKey X) r = None"
  shows "\<exists>code body. 400 \<le> code \<and> run_state (gateway_main X sv p r fresh_writer) s =
    (Responded \<lparr> rw_Status = Some code, rw_Body = [body] \<rparr>, s)"
proof -
  note serve = serve_with_no_claims [OF assms(1,3,4)] serve_with_no_claims [of X "with_scopes r", simplified, OF assms(1,3,4)]
  have "turned_away (gateway_main X sv p r fresh_writer) fresh_writer s"
    unfolding gateway_main_def using assms(2)
    by (cases p) (simp_all add: siw_defs Let_def turned_away_bind serve)
  then show ?thesis
    by (auto simp: turned_away_def Encode_def WriteHeader_def fresh_writer_def Let_def)
qed

text \<open>What follows the answer of the login handler in the same response: the middleware goes on after
  it. A decoder finds no value in a body that is at its end.\<close>

definition login_trailer :: "gateway_env \<Rightarrow> http_request \<Rightarrow> message" where
  "login_trailer X r =
     (if req_Authentication r = [] then Text ''Authentication header with JWT bearer token is required''
      else if take 7 (req_Authentication r) \<noteq> ''Bearer '' then Text ''poorly formatted header value for Authentication header''
      else ErrText)"

lemma Encode_twice:
  "body_allowed st \<Longrightarrow> Encode (Encode \<lparr> rw_Status = Some st, rw_Body = [] \<rparr> p) p' = \<lparr> rw_Status = Some st, rw_Body = [p, p'] \<rparr>"
  by (simp add: Encode_def Let_def)

text \<open>C14: a login that passes the validator is always answered twice in one response. The status and the first body are, for a
  request body that cannot be decoded, 400; for a call to the user service that is lost, the
  HTTP status of its gRPC code; for empty credentials, 400; for an unknown name, 404; for a
  wrong password, 401; for the right one, 200 with a token of one hour signed over the name
  given and the identifier of the account, or 500 when signing fails; and 500 when the database connection
  of the user service fails. The middleware then goes on and appends the error it has for a missing, malformed
  or refused token, or, for a token it accepts, the error of a second run that finds no body.
  No account and no document changes.\<close>

theorem login_answers:
  assumes "env_ok (gw_env X)" "usc_server (userServiceClient sv) = pg_user_repository"
    and "snapshot (w_users s) = None" "users_ok (tables (w_users s))"
    and "req_Path r = ''/auth/login''" "js_Login (gw_json X) [] = None"
    and "\<And>h. run_state (gw_validator X h r fresh_writer) s = run_state (h r fresh_writer) s"
    and answer: "login_reply (userServiceClient sv) (gw_env X) (gw_jwt X) (gw_JWTSecretKey X) (fst (gw_login_now X))
      (snd (gw_login_now X)) (tables (w_users s)) (js_Login (gw_json X) (req_Body r)) = answer"
  shows "\<exists>c st body. run_state (gateway_main X sv POST_auth_login r fresh_writer) s =
      (Responded \<lparr> rw_Status = Some st, rw_Body = [body, P_Error (login_trailer X r)] \<rparr>, s\<lparr>w_users := c\<rparr>) \<and>
    tables c = tables (w_users s) \<and>
    ((st, body) = answer \<or> faults (w_users s) \<noteq> [] \<and> tr_delivery (usc_conn (userServiceClient sv)) = Delivered \<and>
       js_Login (gw_json X) (req_Body r) \<noteq> None \<and> (st, body) = (500, P_Error ErrText))"
proof -
  let ?h = "\<lambda>r w. on_users (http_PostAuthLogin (userServiceClient sv) (gw_env X) (gw_jwt X) (gw_JWTSecretKey X)
    (fst (gw_login_now X)) (snd (gw_login_now X)) (js_Login (gw_json X) (req_Body r)) w)"
  obtain out c where run: "run_state (http_PostAuthLogin (userServiceClient sv) (gw_env X) (gw_jwt X) (gw_JWTSecretKey X)
      (fst (gw_login_now X)) (snd (gw_login_now X)) (js_Login (gw_json X) (req_Body r)) fresh_writer) (w_users s) = (out, c)"
    by fastforce
  from login_response [OF assms(1-4) run] answer obtain st p
    where c: "tables c = tables (w_users s)" "out = Responded (Encode (WriteHeader fresh_writer st) p)" "body_allowed st"
      and st: "(st, p) = answer \<or> faults (w_users s) \<noteq> [] \<and> tr_delivery (usc_conn (userServiceClient sv)) = Delivered \<and>
        js_Login (gw_json X) (req_Body r) \<noteq> None \<and> (st, p) = (500, P_Error ErrText)"
    by blast
  have "run_state (?h r fresh_writer) s = (Responded (Encode (WriteHeader fresh_writer st) p), s\<lparr>w_users := c\<rparr>)"
    using run c(2) by (simp add: on_users_def)
  note A = AuthMiddleware_login [where nextHandler = ?h, OF assms(5) this, of "gw_jwt X" "gw_now X" "gw_JWTSecretKey X"]
  have again: "run_state (?h (r\<lparr>req_Body := [], req_Claims := cl\<rparr>) w) s' = (Responded (SendError w 400 ErrText), s')" for cl w s'
    using assms(6) by (simp add: on_users_def http_PostAuthLogin_def)
  have "run_state (gateway_main X sv POST_auth_login r fresh_writer) s =
      (Responded \<lparr> rw_Status = Some st, rw_Body = [p, P_Error (login_trailer X r)] \<rparr>, s\<lparr>w_users := c\<rparr>)"
    unfolding gateway_main_def HandlerWithOptions.simps siw_PostAuthLogin_def serve_with_main siw_Handler_main assms(7) A again
    using c(3) by (simp add: login_trailer_def SendError_def Encode_twice bearer_claims_def split: option.split)
  with c(1) st show ?thesis by blast
qed

theorem login_answers_witness:
  "fst (run_state (gateway_main demo_gateway demo_service POST_auth_login
     ((request_to ''/auth/login'' [])\<lparr>req_Body := ''credentials''\<rparr>) fresh_writer) demo_world) =
   Responded \<lparr> rw_Status = Some 200, rw_Body = [P_Login 3600 (''HS256.alice.'' @ canon_String 7),
     P_Error (Text ''Authentication header with JWT bearer token is required'')] \<rparr>"
proof -
  let ?r = "(request_to ''/auth/login'' [])\<lparr>req_Body := ''credentials''\<rparr>"
  have X: "env_ok (gw_env demo_gateway)" "usc_server (userServiceClient demo_service) = pg_user_repository"
    "snapshot (w_users demo_world) = None" "users_ok (tables (w_users demo_world))" "req_Path ?r = ''/auth/login''"
    "js_Login (gw_json demo_gateway) [] = None" "faults (w_users demo_world) = []"
    by (simp_all add: demo_gateway_def demo_service_def NewService_def login_client_simps demo_world_def demo_users_ok
        env_ok_concrete demo_json_def request_to_def)
  have "login_reply (userServiceClient demo_service) (gw_env demo_gateway) (gw_jwt demo_gateway)
      (gw_JWTSecretKey demo_gateway) (fst (gw_login_now demo_gateway)) (snd (gw_login_now demo_gateway))
      (tables (w_users demo_world)) (js_Login (gw_json demo_gateway) (req_Body ?r)) =
    (200, P_Login 3600 (''HS256.alice.'' @ canon_String 7))"
    by (simp add: login_reply_def demo_gateway_def demo_service_def NewService_def login_client_simps demo_world_def
        demo_json_def demo_users_def serviceToRepository_def demo_bcrypt_def plain_jwt_def dotless_def concrete_env_def)
  from login_answers [OF X(1-6) _ this] X(7) show ?thesis
    by (auto simp: demo_gateway_def login_trailer_def request_to_def)
qed

end
