(* ===== verification/Go_Path.thy ===== *)
theory Go_Path
  imports Prelude
begin

text \<open>
  The function \<^verbatim>\<open>path.Clean\<close> of the standard library, which \<^verbatim>\<open>http.ServeMux\<close> and the loader of the
  interface description use.
\<close>

abbreviation slash :: char where "slash \<equiv> CHR ''/''"

definition join_path :: "string list \<Rightarrow> string" where
  "join_path segs = concat (map (\<lambda>s. slash # s) segs)"

text \<open>By segments: empty ones and \<^verbatim>\<open>.\<close> are dropped, \<^verbatim>\<open>..\<close> removes the segment before it; where there
  is none it is dropped from a rooted path and kept in a relative one.\<close>

fun clean_segments :: "bool \<Rightarrow> string list \<Rightarrow> string list \<Rightarrow> string list" where
  "clean_segments rooted done [] = rev done"
| "clean_segments rooted done (s # ss) =
     (if s = [] \<or> s = ''.'' then clean_segments rooted done ss
      else if s = ''..'' then
        (if done \<noteq> [] \<and> hd done \<noteq> ''..'' then clean_segments rooted (tl done) ss
         else if rooted then clean_segments rooted done ss
         else clean_segments rooted (s # done) ss)
      else clean_segments rooted (s # done) ss)"

definition path_Clean :: "string \<Rightarrow> string" where
  "path_Clean p =
     (if p \<noteq> [] \<and> hd p = slash
      then case clean_segments True [] (split_on slash p) of [] \<Rightarrow> [slash] | segs \<Rightarrow> join_path segs
      else case clean_segments False [] (split_on slash p) of [] \<Rightarrow> ''.'' | segs \<Rightarrow> tl (join_path segs))"

section \<open>Cleaning twice\<close>

definition clean_segment :: "string \<Rightarrow> bool" where
  "clean_segment s \<longleftrightarrow> s \<noteq> [] \<and> s \<noteq> ''.'' \<and> s \<noteq> ''..'' \<and> slash \<notin> set s"

lemma split_on_pieces: "w \<in> set (split_on c xs) \<Longrightarrow> c \<notin> set w"
  by (induction xs arbitrary: w) (auto split: if_splits list.splits)

lemma clean_segments_clean:
  "list_all clean_segment acc \<Longrightarrow> (\<And>s. s \<in> set ss \<Longrightarrow> slash \<notin> set s) \<Longrightarrow>
   list_all clean_segment (clean_segments True acc ss)"
proof (induction ss arbitrary: acc)
  case (Cons s ss)
  then show ?case by (cases acc) (auto simp: clean_segment_def)
qed (simp add: list_all_iff)

lemma clean_segments_id: "list_all clean_segment ss \<Longrightarrow> clean_segments True acc ss = rev acc @ ss"
  by (induction ss arbitrary: acc) (auto simp: clean_segment_def)

lemma split_join_path: "(\<And>s. s \<in> set segs \<Longrightarrow> slash \<notin> set s) \<Longrightarrow> split_on slash (join_path segs) = [] # segs"
proof (induction segs rule: rev_induct)
  case (snoc s segs)
  then show ?case by (simp add: join_path_def split_on_last)
qed (simp add: join_path_def)

lemma join_path_rooted: "segs \<noteq> [] \<Longrightarrow> join_path segs \<noteq> [] \<and> hd (join_path segs) = slash"
  by (cases segs) (simp_all add: join_path_def)

lemma last_join_path: "segs \<noteq> [] \<Longrightarrow> list_all clean_segment segs \<Longrightarrow> last (join_path segs) \<noteq> slash"
  by (induction segs rule: rev_induct) (auto simp: join_path_def clean_segment_def dest: last_in_set)

lemma path_Clean_join:
  assumes "segs \<noteq> []" "list_all clean_segment segs"
  shows "path_Clean (join_path segs) = join_path segs" "path_Clean (join_path segs @ [slash]) = join_path segs"
proof -
  have sep: "slash \<notin> set s" if "s \<in> set segs" for s
    using assms(2) that by (auto simp: list_all_iff clean_segment_def)
  note r = join_path_rooted [OF assms(1)]
  show "path_Clean (join_path segs) = join_path segs"
    using r assms by (simp add: path_Clean_def split_join_path [OF sep] clean_segments_id split: list.split)
  have "split_on slash (join_path segs @ [slash]) = [] # segs @ [[]]"
    using split_on_last [of slash "[]" "join_path segs"] split_join_path [OF sep] by simp
  moreover have "clean_segments True [] ([] # segs @ [[]]) = segs"
  proof -
    have "clean_segments True acc (ss @ [[]]) = clean_segments True acc ss" for acc ss
      by (induction ss arbitrary: acc) auto
    then show ?thesis using assms(2) by (simp add: clean_segments_id)
  qed
  ultimately show "path_Clean (join_path segs @ [slash]) = join_path segs"
    using r assms(1) by (simp add: path_Clean_def split: list.split)
qed

lemma path_Clean_rooted:
  assumes "p \<noteq> []" "hd p = slash"
  obtains "path_Clean p = [slash]" | segs where "path_Clean p = join_path segs" "segs \<noteq> []" "list_all clean_segment segs"
proof -
  have "list_all clean_segment (clean_segments True [] (split_on slash p))"
    by (rule clean_segments_clean) (auto dest: split_on_pieces)
  with assms that show thesis
    by (cases "clean_segments True [] (split_on slash p)") (auto simp: path_Clean_def)
qed

end
