(* ===== verification/Routing.thy ===== *)
theory Routing
  imports Gateway_Server Go_Path
begin

text \<open>
  Routing of the gateway: the patterns \<^verbatim>\<open>HandlerWithOptions\<close> registers
  (\<^verbatim>\<open>api_gateway.gen.go\<close>) under the base URL of \<^verbatim>\<open>cmd/server/main.go\<close>, and the matching of a
  request against them by \<^verbatim>\<open>http.ServeMux\<close> of the standard library: patterns with a method, a
  host and a path of literals and wildcards, the cleaning of paths, the redirects, and the
  answers 404 and 405. The registered patterns have neither a trailing slash nor a wildcard for
  several segments, and these two forms are left out, as is the target \<^verbatim>\<open>*\<close> of \<^verbatim>\<open>OPTIONS\<close>.
\<close>

section \<open>Escapes and paths\<close>

definition hex_value :: "char \<Rightarrow> nat option" where
  "hex_value c = (let n = of_char c :: nat in
     if 48 \<le> n \<and> n < 58 then Some (n - 48)
     else if 97 \<le> n \<and> n < 103 then Some (n - 87)
     else if 65 \<le> n \<and> n < 71 then Some (n - 55) else None)"

text \<open>\<^verbatim>\<open>url.PathUnescape\<close>, None for an error, and the form \<^verbatim>\<open>net/http\<close> uses, which keeps the text then.\<close>

fun url_PathUnescape :: "string \<Rightarrow> string option" where
  "url_PathUnescape [] = Some []"
| "url_PathUnescape (c # s) =
     (if c = CHR ''%'' then
        (case s of a # b # r \<Rightarrow>
           (case (hex_value a, hex_value b, url_PathUnescape r) of
              (Some x, Some y, Some t) \<Rightarrow> Some (char_of (16 * x + y) # t)
            | _ \<Rightarrow> None)
         | _ \<Rightarrow> None)
      else map_option ((#) c) (url_PathUnescape s))"

definition pathUnescape :: "string \<Rightarrow> string" where
  "pathUnescape s = (case url_PathUnescape s of None \<Rightarrow> s | Some t \<Rightarrow> t)"

text \<open>\<^verbatim>\<open>cleanPath\<close> keeps a final slash.\<close>

definition cleanPath :: "string \<Rightarrow> string" where
  "cleanPath p0 = (if p0 = [] then [slash]
     else let p = (if hd p0 = slash then p0 else slash # p0); np = path_Clean p in
       if last p = slash \<and> np \<noteq> [slash] then np @ [slash] else np)"

text \<open>The segments \<^verbatim>\<open>firstSegment\<close> reads off a path one after the other; a final slash is a segment
  of its own.\<close>

definition path_segments :: "string \<Rightarrow> string list" where
  "path_segments path = (let ws = tl (split_on slash path) in
     if ws = [] then [] else map pathUnescape (butlast ws) @ [if last ws = [] then [slash] else pathUnescape (last ws)])"

text \<open>\<^verbatim>\<open>stripHostPort\<close> with \<^verbatim>\<open>net.SplitHostPort\<close>: a host in brackets may contain colons.\<close>

definition SplitHostPort_host :: "string \<Rightarrow> string option" where
  "SplitHostPort_host h =
     (let r = rev h; port = rev (takeWhile (\<lambda>c. c \<noteq> CHR '':'') r); before = rev (drop 1 (dropWhile (\<lambda>c. c \<noteq> CHR '':'') r)) in
      if h \<noteq> [] \<and> hd h = CHR ''['' then
        (if before \<noteq> [] \<and> last before = CHR '']'' \<and> CHR '']'' \<notin> set (butlast before) \<and> CHR ''['' \<notin> set (tl before) \<and>
            CHR ''['' \<notin> set port \<and> CHR '']'' \<notin> set port
         then Some (butlast (tl before)) else None)
      else if CHR '':'' \<in> set before \<or> CHR ''['' \<in> set h \<or> CHR '']'' \<in> set h then None
      else Some before)"

definition stripHostPort :: "string \<Rightarrow> string" where
  "stripHostPort h = (if CHR '':'' \<notin> set h then h
     else case SplitHostPort_host h of None \<Rightarrow> h | Some host \<Rightarrow> host)"

section \<open>Patterns and the multiplexer\<close>

datatype segment = Lit string | Wild string

record mux_pattern =
  mp_method :: string
  mp_host :: string
  mp_segments :: "segment list"

definition parse_segment :: "string \<Rightarrow> segment" where
  "parse_segment seg = (case seg of CHR ''{'' # r \<Rightarrow> Wild (butlast r) | _ \<Rightarrow> Lit (pathUnescape seg))"

definition parsePattern :: "string \<Rightarrow> mux_pattern" where
  "parsePattern s =
     (let blank = (\<lambda>c. c = CHR '' '' \<or> c = CHR 0x09);
          found = list_ex blank s;
          method = (if found then takeWhile (\<lambda>c. \<not> blank c) s else []);
          rest = (if found then dropWhile blank (dropWhile (\<lambda>c. \<not> blank c) s) else s) in
      \<lparr> mp_method = method, mp_host = takeWhile (\<lambda>c. c \<noteq> slash) rest,
        mp_segments = map parse_segment (tl (split_on slash (dropWhile (\<lambda>c. c \<noteq> slash) rest))) \<rparr>)"

type_synonym 'h mux = "(mux_pattern \<times> 'h) list"

text \<open>\<^verbatim>\<open>routingNode.matchPath\<close>: at every segment the literal is tried first, then the wildcard. The
  tree below a node is the list of the patterns that lead there, with what is left of them.\<close>

fun lit_child :: "string \<Rightarrow> (segment list \<times> 'n) list \<Rightarrow> (segment list \<times> 'n) list" where
  "lit_child seg [] = []"
| "lit_child seg ((Lit l # ss, n) # ts) = (if l = seg then (ss, n) # lit_child seg ts else lit_child seg ts)"
| "lit_child seg (_ # ts) = lit_child seg ts"

fun wild_child :: "(segment list \<times> 'n) list \<Rightarrow> (segment list \<times> 'n) list" where
  "wild_child [] = []"
| "wild_child ((Wild _ # ss, n) # ts) = (ss, n) # wild_child ts"
| "wild_child (_ # ts) = wild_child ts"

fun matchPath :: "(segment list \<times> 'n) list \<Rightarrow> string list \<Rightarrow> string list \<Rightarrow> ('n \<times> string list) option" where
  "matchPath t [] matches = (case find (\<lambda>(ss, _). ss = []) t of None \<Rightarrow> None | Some (_, n) \<Rightarrow> Some (n, matches))"
| "matchPath t (seg # rest) matches =
     (case matchPath (lit_child seg t) rest matches of
        Some r \<Rightarrow> Some r
      | None \<Rightarrow> if seg \<noteq> [slash] then matchPath (wild_child t) rest (matches @ [seg]) else None)"

definition subtree :: "'h mux \<Rightarrow> string \<Rightarrow> string \<Rightarrow> (segment list \<times> mux_pattern \<times> 'h) list" where
  "subtree m host method = map (\<lambda>(p, h). (mp_segments p, p, h)) (filter (\<lambda>(p, h). mp_host p = host \<and> mp_method p = method) m)"

definition or_else :: "'a option \<Rightarrow> 'a option \<Rightarrow> 'a option" where
  "or_else x y = (case x of None \<Rightarrow> y | Some _ \<Rightarrow> x)"

definition matchMethodAndPath :: "'h mux \<Rightarrow> string \<Rightarrow> string \<Rightarrow> string \<Rightarrow> ((mux_pattern \<times> 'h) \<times> string list) option" where
  "matchMethodAndPath m host method path =
     (let at = (\<lambda>method. matchPath (subtree m host method) (path_segments path) []) in
      or_else (at method) (or_else (if method = ''HEAD'' then at ''GET'' else None) (at [])))"

definition tree_match :: "'h mux \<Rightarrow> string \<Rightarrow> string \<Rightarrow> string \<Rightarrow> ((mux_pattern \<times> 'h) \<times> string list) option" where
  "tree_match m host method path =
     or_else (if host \<noteq> [] then matchMethodAndPath m host method path else None) (matchMethodAndPath m [] method path)"

definition matchingMethods :: "'h mux \<Rightarrow> string \<Rightarrow> string \<Rightarrow> string list" where
  "matchingMethods m host path =
     (let hosts = (if host \<noteq> [] then [host, []] else [[]]);
          paths = (if path \<noteq> [] \<and> last path = slash then [path] else [path, path @ [slash]]) in
      filter (\<lambda>method. \<exists>h \<in> set hosts. \<exists>p \<in> set paths. matchPath (subtree m h method) (path_segments p) [] \<noteq> None)
        (remdups (map (mp_method \<circ> fst) m)))"

record incoming =
  in_Method :: string
  in_Host :: string                \<comment> \<open>\<^verbatim>\<open>r.Host\<close>\<close>
  in_URLHost :: string             \<comment> \<open>\<^verbatim>\<open>r.URL.Host\<close>\<close>
  in_EscapedPath :: string         \<comment> \<open>\<^verbatim>\<open>r.URL.EscapedPath()\<close>\<close>
  in_request :: http_request

datatype 'h mux_answer = Found mux_pattern 'h "string list" | Redirect string | MethodNotAllowed | NotFound

text \<open>A path that has no match but has one with a slash appended.\<close>

definition needs_slash :: "'h mux \<Rightarrow> string \<Rightarrow> string \<Rightarrow> string \<Rightarrow> bool" where
  "needs_slash m host method path \<longleftrightarrow> tree_match m host method path = None \<and> \<not> (path \<noteq> [] \<and> last path = slash) \<and>
     tree_match m host method (path @ [slash]) \<noteq> None"

definition answer_of :: "'h mux \<Rightarrow> ((mux_pattern \<times> 'h) \<times> string list) option \<Rightarrow> string \<Rightarrow> string \<Rightarrow> 'h mux_answer" where
  "answer_of m n host path = (case n of
      Some ((p, h), matches) \<Rightarrow> Found p h matches
    | None \<Rightarrow> if matchingMethods m host path \<noteq> [] then MethodNotAllowed else NotFound)"

definition findHandler :: "'h mux \<Rightarrow> incoming \<Rightarrow> 'h mux_answer" where
  "findHandler m r =
     (if in_Method r = ''CONNECT'' then
        (if needs_slash m (in_URLHost r) (in_Method r) (in_EscapedPath r)
         then Redirect (cleanPath (req_Path (in_request r)) @ [slash])
         else answer_of m (tree_match m (in_Host r) (in_Method r) (in_EscapedPath r)) (in_URLHost r) (in_EscapedPath r))
      else let host = stripHostPort (in_Host r); path = cleanPath (in_EscapedPath r) in
        (if needs_slash m host (in_Method r) path then Redirect (cleanPath (req_Path (in_request r)) @ [slash])
         else if path \<noteq> in_EscapedPath r then Redirect path
         else answer_of m (tree_match m host (in_Method r) path) host path))"

section \<open>The routes of the gateway\<close>

definition registrations :: "string \<Rightarrow> (string \<times> pattern) list" where
  "registrations BaseURL = [
     (''POST '' @ BaseURL @ ''/auth/login'', POST_auth_login),
     (''DELETE '' @ BaseURL @ ''/document'', DELETE_document),
     (''GET '' @ BaseURL @ ''/document'', GET_document),
     (''POST '' @ BaseURL @ ''/document'', POST_document),
     (''DELETE '' @ BaseURL @ ''/document/{documentId}'', DELETE_document_id),
     (''GET '' @ BaseURL @ ''/document/{documentId}'', GET_document_id),
     (''PUT '' @ BaseURL @ ''/document/{documentId}'', PUT_document_id),
     (''GET '' @ BaseURL @ ''/document/{documentId}/permission'', GET_permission),
     (''POST '' @ BaseURL @ ''/document/{documentId}/permission'', POST_permission),
     (''DELETE '' @ BaseURL @ ''/document/{documentId}/permission/principal/{principalId}'', DELETE_permission_principal),
     (''GET '' @ BaseURL @ ''/document/{documentId}/permission/principal/{principalId}'', GET_permission_principal),
     (''PUT '' @ BaseURL @ ''/document/{documentId}/permission/principal/{principalId}'', PUT_permission_principal),
     (''POST '' @ BaseURL @ ''/user'', POST_user),
     (''DELETE '' @ BaseURL @ ''/user/{userId}'', DELETE_user_id),
     (''GET '' @ BaseURL @ ''/user/{userId}'', GET_user_id),
     (''PUT '' @ BaseURL @ ''/user/{userId}'', PUT_user_id)]"

definition mux_of :: "string \<Rightarrow> pattern mux" where
  "mux_of BaseURL = map (\<lambda>(s, h). (parsePattern s, h)) (registrations BaseURL)"

text \<open>\<^verbatim>\<open>r.PathValue\<close>: the segments the wildcards of the pattern matched, by name.\<close>

fun wild_names :: "segment list \<Rightarrow> string list" where
  "wild_names [] = []"
| "wild_names (Lit _ # ss) = wild_names ss"
| "wild_names (Wild n # ss) = n # wild_names ss"

definition path_value :: "mux_pattern \<Rightarrow> string list \<Rightarrow> string \<Rightarrow> string" where
  "path_value p matches name = (case map_of (zip (wild_names (mp_segments p)) matches) name of None \<Rightarrow> [] | Some v \<Rightarrow> v)"

definition ServeHTTP :: "gateway_env \<Rightarrow> Service \<Rightarrow> pattern mux \<Rightarrow> incoming \<Rightarrow> ResponseWriter \<Rightarrow> world action" where
  "ServeHTTP X service m r w = (case findHandler m r of
      Found p h matches \<Rightarrow> gateway_main X service h ((in_request r)\<lparr>req_PathValue := path_value p matches\<rparr>) w
    | Redirect _ \<Rightarrow> respond (if in_Method r = ''GET'' then Encode (WriteHeader w 301) (P_PlainText (Text ''Moved Permanently''))
        else WriteHeader w 301)
    | MethodNotAllowed \<Rightarrow> respond (Encode (WriteHeader w 405) (P_PlainText (Text ''Method Not Allowed'')))
    | NotFound \<Rightarrow> respond (Encode (WriteHeader w 404) (P_PlainText (Text ''404 page not found''))))"

text \<open>\<^verbatim>\<open>BaseURL: "todo"\<close> in \<^verbatim>\<open>main\<close>.\<close>

definition gateway_mux :: "pattern mux" where "gateway_mux = mux_of ''todo''"

section \<open>Matching is sound and complete\<close>

text \<open>The reference: a pattern matches segment by segment, and its wildcards take the segments at
  their places.\<close>

fun instantiates :: "segment list \<Rightarrow> string list \<Rightarrow> string list \<Rightarrow> bool" where
  "instantiates [] [] [] = True"
| "instantiates (Lit l # ss) (s # segs) vs = (l = s \<and> instantiates ss segs vs)"
| "instantiates (Wild _ # ss) (s # segs) (v # vs) = (v = s \<and> s \<noteq> [slash] \<and> instantiates ss segs vs)"
| "instantiates _ _ _ = False"

lemma set_lit_child: "(ss, n) \<in> set (lit_child seg t) \<longleftrightarrow> (Lit seg # ss, n) \<in> set t"
  by (induction seg t rule: lit_child.induct) auto

lemma set_wild_child: "(ss, n) \<in> set (wild_child t) \<longleftrightarrow> (\<exists>name. (Wild name # ss, n) \<in> set t)"
  by (induction t rule: wild_child.induct) auto

lemma matchPath_sound:
  "matchPath t segs ms = Some (n, ms') \<Longrightarrow> \<exists>ss vs. (ss, n) \<in> set t \<and> ms' = ms @ vs \<and> instantiates ss segs vs"
proof (induction segs arbitrary: t ms)
  case Nil
  then show ?case by (auto simp: find_Some_iff in_set_conv_nth split: option.splits) force
next
  case (Cons seg rest)
  show ?case
  proof (cases "matchPath (lit_child seg t) rest ms")
    case None
    with Cons.prems have m: "matchPath (wild_child t) rest (ms @ [seg]) = Some (n, ms')" "seg \<noteq> [slash]"
      by (auto split: if_splits)
    from Cons.IH [OF m(1)] obtain ss vs name where
      "(Wild name # ss, n) \<in> set t" "ms' = ms @ seg # vs" "instantiates ss rest vs"
      by (auto simp: set_wild_child)
    with m(2) show ?thesis by (intro exI [of _ "Wild name # ss"] exI [of _ "seg # vs"]) simp
  next
    case (Some r)
    with Cons.prems Cons.IH [of "lit_child seg t" ms] obtain ss vs where
      "(Lit seg # ss, n) \<in> set t" "ms' = ms @ vs" "instantiates ss rest vs"
      by (auto simp: set_lit_child)
    then show ?thesis by (intro exI [of _ "Lit seg # ss"] exI [of _ vs]) simp
  qed
qed

lemma matchPath_complete:
  "(ss, n) \<in> set t \<Longrightarrow> instantiates ss segs vs \<Longrightarrow> matchPath t segs ms \<noteq> None"
proof (induction segs arbitrary: t ss vs ms)
  case Nil
  then have "ss = []" by (cases "(ss, [] :: string list, vs)" rule: instantiates.cases) auto
  with Nil.prems(1) show ?case by (auto simp: find_None_iff split: option.splits)
next
  case (Cons seg rest)
  then consider ss' where "ss = Lit seg # ss'" "instantiates ss' rest vs"
    | name ss' vs' where "ss = Wild name # ss'" "seg \<noteq> [slash]" "instantiates ss' rest vs'"
    by (cases "(ss, seg # rest, vs)" rule: instantiates.cases) auto
  then show ?case
  proof cases
    case 1
    with Cons.IH [of ss' "lit_child seg t" vs ms] Cons.prems(1) show ?thesis by (auto simp: set_lit_child)
  next
    case 2
    with Cons.IH [of ss' "wild_child t" vs' "ms @ [seg]"] Cons.prems(1) show ?thesis
      by (auto simp: set_wild_child split: option.splits)
  qed
qed

lemma or_else_None: "or_else x y = None \<longleftrightarrow> x = None \<and> y = None"
  by (simp add: or_else_def split: option.split)

definition method_matches :: "string \<Rightarrow> string \<Rightarrow> bool" where
  "method_matches method registered \<longleftrightarrow> registered = method \<or> registered = [] \<or> method = ''HEAD'' \<and> registered = ''GET''"

lemma matchMethodAndPath_sound:
  assumes "matchMethodAndPath m host method path = Some ((p, h), vs)"
  shows "(p, h) \<in> set m \<and> mp_host p = host \<and> method_matches method (mp_method p) \<and>
    instantiates (mp_segments p) (path_segments path) vs"
proof -
  obtain k where k: "matchPath (subtree m host k) (path_segments path) [] = Some ((p, h), vs)" "method_matches method k"
    using assms by (auto simp: matchMethodAndPath_def or_else_def method_matches_def Let_def split: option.splits if_splits)
  from matchPath_sound [OF k(1)] k(2) show ?thesis by (auto simp: subtree_def)
qed

lemma tree_match_sound:
  assumes "tree_match m host method path = Some ((p, h), vs)"
  shows "(p, h) \<in> set m \<and> (mp_host p = host \<or> mp_host p = []) \<and> method_matches method (mp_method p) \<and>
    instantiates (mp_segments p) (path_segments path) vs"
  using assms
  by (auto simp: tree_match_def or_else_def split: option.splits if_splits dest!: matchMethodAndPath_sound)

lemma tree_match_complete:
  assumes "(p, h) \<in> set m" "mp_host p = host" "host \<noteq> []" "mp_method p = method"
    and "instantiates (mp_segments p) (path_segments path) vs"
  shows "tree_match m host method path \<noteq> None"
proof -
  have "(mp_segments p, p, h) \<in> set (subtree m host method)"
    using assms(1,2,4) by (force simp: subtree_def)
  from matchPath_complete [OF this assms(5), of "[]"] assms(3) show ?thesis
    by (simp add: tree_match_def matchMethodAndPath_def or_else_None Let_def)
qed

text \<open>The table.\<close>

lemma gateway_mux_eq: "gateway_mux = (let
     row = (\<lambda>method ss h. (\<lparr> mp_method = method, mp_host = ''todo'', mp_segments = ss \<rparr>, h));
     doc = [Lit ''document'']; one = doc @ [Wild ''documentId'']; perm = one @ [Lit ''permission''];
     prin = perm @ [Lit ''principal'', Wild ''principalId'']; usr = [Lit ''user'', Wild ''userId''] in
   [row ''POST'' [Lit ''auth'', Lit ''login''] POST_auth_login,
    row ''DELETE'' doc DELETE_document, row ''GET'' doc GET_document, row ''POST'' doc POST_document,
    row ''DELETE'' one DELETE_document_id, row ''GET'' one GET_document_id, row ''PUT'' one PUT_document_id,
    row ''GET'' perm GET_permission, row ''POST'' perm POST_permission,
    row ''DELETE'' prin DELETE_permission_principal, row ''GET'' prin GET_permission_principal,
    row ''PUT'' prin PUT_permission_principal,
    row ''POST'' [Lit ''user''] POST_user, row ''DELETE'' usr DELETE_user_id, row ''GET'' usr GET_user_id,
    row ''PUT'' usr PUT_user_id])"
  by code_simp

lemma gateway_host: "(p, h) \<in> set gateway_mux \<Longrightarrow> mp_host p = ''todo''"
  by (auto simp: gateway_mux_eq Let_def)

text \<open>No two entries match the same method and path: the entries differ in their method, their
  number of segments or their first segment, which is a literal.\<close>

definition entry_key :: "mux_pattern \<times> 'h \<Rightarrow> string \<times> nat \<times> segment" where
  "entry_key e = (mp_method (fst e), length (mp_segments (fst e)), hd (mp_segments (fst e)))"

lemma gateway_keys:
  "distinct (map entry_key gateway_mux)"
  "list_all (\<lambda>(p, h). case mp_segments p of Lit _ # _ \<Rightarrow> True | _ \<Rightarrow> False) gateway_mux"
  by (simp_all add: gateway_mux_eq Let_def entry_key_def)

lemma instantiates_length: "instantiates ss segs vs \<Longrightarrow> length segs = length ss"
  by (induction ss segs vs rule: instantiates.induct) auto

lemma instantiates_inj: "instantiates ss segs vs \<Longrightarrow> instantiates ss segs vs' \<Longrightarrow> vs = vs'"
proof (induction ss segs vs arbitrary: vs' rule: instantiates.induct)
  case (3 n ss s segs v vs)
  then show ?case by (cases vs') auto
next
  case 1
  then show ?case by (cases vs') auto
qed auto

lemma gateway_unambiguous:
  assumes "(p, h) \<in> set gateway_mux" "(p', h') \<in> set gateway_mux" "mp_method p = mp_method p'"
    and "instantiates (mp_segments p) segs vs" "instantiates (mp_segments p') segs vs'"
  shows "(p, h) = (p', h')" "vs = vs'"
proof -
  have first: "hd (mp_segments q) = Lit (hd segs)"
    if "(q, k) \<in> set gateway_mux" "instantiates (mp_segments q) segs us" for q k us
    using that gateway_keys(2)
    by (cases segs; cases "mp_segments q") (auto simp: list_all_iff split: segment.splits)
  have "entry_key (p, h) = entry_key (p', h')"
    using assms first [OF assms(1,4)] first [OF assms(2,5)]
    by (simp add: entry_key_def instantiates_length [symmetric])
  then show *: "(p, h) = (p', h')"
    using gateway_keys(1) assms(1,2) by (auto simp: distinct_map dest: inj_onD)
  with assms(4,5) show "vs = vs'" by (auto intro: instantiates_inj)
qed

section \<open>Paths made of plain segments\<close>

definition plain_segment :: "string \<Rightarrow> bool" where
  "plain_segment s \<longleftrightarrow> s \<noteq> [] \<and> s \<noteq> ''.'' \<and> s \<noteq> ''..'' \<and> slash \<notin> set s \<and> CHR ''%'' \<notin> set s"

lemma unescape_plain: "CHR ''%'' \<notin> set s \<Longrightarrow> url_PathUnescape s = Some s"
  by (induction s) auto

lemma pathUnescape_plain [simp]: "plain_segment s \<Longrightarrow> pathUnescape s = s"
  by (simp add: pathUnescape_def plain_segment_def unescape_plain)

lemma plain_clean: "plain_segment s \<Longrightarrow> clean_segment s"
  by (simp add: plain_segment_def clean_segment_def)

lemma cleanPath_join:
  assumes "segs \<noteq> []" "list_all clean_segment segs"
  shows "cleanPath (join_path segs) = join_path segs" "cleanPath (join_path segs @ [slash]) = join_path segs @ [slash]"
proof -
  note r = join_path_rooted [OF assms(1)] last_join_path [OF assms]
  then have "join_path segs \<noteq> [slash]" by auto
  with r path_Clean_join [OF assms]
  show "cleanPath (join_path segs) = join_path segs" "cleanPath (join_path segs @ [slash]) = join_path segs @ [slash]"
    by (simp_all add: cleanPath_def Let_def)
qed

text \<open>A cleaned path is clean.\<close>

lemma cleanPath_idem: "cleanPath (cleanPath p) = cleanPath p"
proof (cases "p = []")
  case True
  have "cleanPath [slash] = [slash]" by code_simp
  with True show ?thesis by (simp add: cleanPath_def [of "[]"])
next
  case False
  let ?q = "if hd p = slash then p else slash # p"
  have eq: "cleanPath p = (if last ?q = slash \<and> path_Clean ?q \<noteq> [slash] then path_Clean ?q @ [slash] else path_Clean ?q)"
    using False by (simp add: cleanPath_def Let_def)
  have "?q \<noteq> []" "hd ?q = slash" using False by simp_all
  then show ?thesis
  proof (cases rule: path_Clean_rooted)
    case 1
    moreover have "cleanPath [slash] = [slash]" by code_simp
    ultimately show ?thesis unfolding eq by simp
  next
    case (2 segs)
    show ?thesis unfolding eq 2(1) using cleanPath_join [OF 2(2,3)] by (simp only: if_distrib [of cleanPath])
  qed
qed

lemma cleanPath_plain:
  assumes "segs \<noteq> []" "list_all plain_segment segs"
  shows "cleanPath (join_path segs) = join_path segs" "path_segments (join_path segs) = segs"
proof -
  from assms(2) have clean: "list_all clean_segment segs" by (auto simp: list_all_iff plain_clean)
  with assms(1) show "cleanPath (join_path segs) = join_path segs" by (rule cleanPath_join)
  have split: "split_on slash (join_path segs) = [] # segs"
    by (rule split_join_path) (use clean in \<open>auto simp: list_all_iff clean_segment_def\<close>)
  have id: "map pathUnescape segs = segs" using assms(2) by (auto simp: list_all_iff intro: map_idI)
  have "last segs \<noteq> []" using assms by (cases segs rule: rev_cases) (auto simp: plain_segment_def)
  moreover have "map pathUnescape (butlast segs) @ [pathUnescape (last segs)] = map pathUnescape segs"
    using assms(1) by (metis append_butlast_last_id list.simps(8,9) map_append)
  ultimately show "path_segments (join_path segs) = segs"
    using assms by (simp add: path_segments_def split id)
qed

fun render :: "segment list \<Rightarrow> string list \<Rightarrow> string list" where
  "render [] vs = []"
| "render (Lit l # ss) vs = l # render ss vs"
| "render (Wild _ # ss) (v # vs) = v # render ss vs"
| "render (Wild _ # ss) [] = []"

lemma instantiates_render:
  "length vs = length (wild_names ss) \<Longrightarrow> list_all plain_segment vs \<Longrightarrow> instantiates ss (render ss vs) vs"
  by (induction ss vs rule: render.induct) (auto simp: plain_segment_def)

lemma gateway_render:
  assumes "(p, h) \<in> set gateway_mux" "length vs = length (wild_names (mp_segments p))" "list_all plain_segment vs"
  shows "render (mp_segments p) vs \<noteq> [] \<and> list_all plain_segment (render (mp_segments p) vs)"
proof -
  have lits: "\<forall>l. Lit l \<in> set (mp_segments p) \<longrightarrow> plain_segment l" "mp_segments p \<noteq> []"
    using assms(1) by (auto simp: gateway_mux_eq Let_def plain_segment_def)
  have "list_all plain_segment (render ss vs)"
    if "\<forall>l. Lit l \<in> set ss \<longrightarrow> plain_segment l" "list_all plain_segment vs" for ss vs
    using that by (induction ss vs rule: render.induct) auto
  moreover have "render ss vs \<noteq> []" if "ss \<noteq> []" "length vs = length (wild_names ss)" for ss vs
    using that by (cases "(ss, vs)" rule: render.cases) auto
  ultimately show ?thesis using assms lits by blast
qed

section \<open>Answers of the multiplexer\<close>

lemma findHandler_clean:
  assumes "in_Method r \<noteq> ''CONNECT''" "cleanPath (in_EscapedPath r) = in_EscapedPath r"
    and "tree_match m (stripHostPort (in_Host r)) (in_Method r) (in_EscapedPath r) = Some ((p, h), vs)"
  shows "findHandler m r = Found p h vs"
  using assms by (simp add: findHandler_def needs_slash_def answer_of_def Let_def)

lemma gateway_other_host:
  assumes "host \<noteq> ''todo''"
  shows "tree_match gateway_mux host method path = None" "matchingMethods gateway_mux host path = []"
proof -
  show "tree_match gateway_mux host method path = None"
  proof (rule ccontr)
    assume "tree_match gateway_mux host method path \<noteq> None"
    then obtain p h vs where "tree_match gateway_mux host method path = Some ((p, h), vs)" by auto
    from tree_match_sound [OF this] gateway_host assms show False by auto
  qed
  have none: "matchPath [] segs ms = None" for segs ms by (induction segs arbitrary: ms) auto
  have "subtree gateway_mux h k = []" if "h \<noteq> ''todo''" for h k
    using that gateway_host by (auto simp: subtree_def filter_empty_conv)
  with assms show "matchingMethods gateway_mux host path = []"
    by (auto simp: matchingMethods_def filter_empty_conv none Let_def)
qed

text \<open>What is found was asked for: a registered pattern for the method and the host, with the path
  as one of its instances.\<close>

lemma findHandler_sound:
  assumes "findHandler gateway_mux r = Found p h vs"
  shows "(p, h) \<in> set gateway_mux" "in_Method r \<noteq> ''CONNECT''" "stripHostPort (in_Host r) = ''todo''"
    "cleanPath (in_EscapedPath r) = in_EscapedPath r" "method_matches (in_Method r) (mp_method p)"
    "instantiates (mp_segments p) (path_segments (in_EscapedPath r)) vs"
proof -
  have "\<not> method_matches ''CONNECT'' (mp_method q)" if "(q, k) \<in> set gateway_mux" for q k
    using that by (auto simp: gateway_mux_eq method_matches_def Let_def)
  then have "tree_match gateway_mux h ''CONNECT'' path = None" for h path
    using tree_match_sound [of gateway_mux h "''CONNECT''" path] by (metis not_None_eq prod.exhaust)
  with assms have m: "in_Method r \<noteq> ''CONNECT''"
    by (auto simp: findHandler_def answer_of_def needs_slash_def split: if_splits)
  with assms show clean: "cleanPath (in_EscapedPath r) = in_EscapedPath r"
    by (auto simp: findHandler_def Let_def split: if_splits)
  have t: "tree_match gateway_mux (stripHostPort (in_Host r)) (in_Method r) (in_EscapedPath r) = Some ((p, h), vs)"
    using assms m clean by (auto simp: findHandler_def answer_of_def Let_def split: if_splits option.splits)
  with gateway_other_host(1) show "stripHostPort (in_Host r) = ''todo''" by (metis option.distinct(1))
  from m show "in_Method r \<noteq> ''CONNECT''" .
  from tree_match_sound [OF t] show "(p, h) \<in> set gateway_mux" "method_matches (in_Method r) (mp_method p)"
    "instantiates (mp_segments p) (path_segments (in_EscapedPath r)) vs" by simp_all
qed

text \<open>A path that decodes to the login route is the login path.\<close>

lemma unescape_append:
  "url_PathUnescape a = Some a' \<Longrightarrow> url_PathUnescape (a @ b) = map_option ((@) a') (url_PathUnescape b)"
proof (induction a arbitrary: a' rule: url_PathUnescape.induct)
  case (2 c s)
  show ?case
  proof (cases "c = CHR ''%''")
    case True
    with 2 show ?thesis
      by (cases "url_PathUnescape b") (auto split: list.splits option.splits)
  next
    case False
    with 2 show ?thesis by (cases "url_PathUnescape b") auto
  qed
qed (cases "url_PathUnescape b"; simp)

lemma pathUnescape_to_plain: "pathUnescape x = t \<Longrightarrow> CHR ''%'' \<notin> set t \<Longrightarrow> url_PathUnescape x = Some t"
  by (auto simp: pathUnescape_def unescape_plain split: option.splits)

lemma login_path:
  assumes "cleanPath path = path" "path_segments path = [''auth'', ''login'']"
  shows "url_PathUnescape path = Some ''/auth/login''"
proof -
  have "path \<noteq> []" "hd path = slash"
    using assms(1) by (auto simp: cleanPath_def path_Clean_def join_path_def Let_def split: if_splits list.splits)
  then obtain rest where path: "path = slash # rest" by (cases path) auto
  then have split: "split_on slash path = [] # split_on slash rest" by simp
  obtain x y where xy: "split_on slash rest = [x, y]" "pathUnescape x = ''auth''" "pathUnescape y = ''login''"
  proof (cases "split_on slash rest" rule: rev_cases)
    case (snoc ws w)
    with assms(2) split have "map pathUnescape ws @ [if w = [] then [slash] else pathUnescape w] = [''auth'', ''login'']"
      by (auto simp: path_segments_def Let_def)
    then obtain x where "ws = [x]" "pathUnescape x = ''auth''" "(if w = [] then [slash] else pathUnescape w) = ''login''"
      by (cases ws) auto
    with snoc that [of x w] show ?thesis by (auto split: if_splits)
  qed simp
  from split_on_concat [of slash rest x "[y]"] xy(1) path have "path = slash # x @ slash # y" by simp
  then show ?thesis
    using pathUnescape_to_plain [OF xy(2)] pathUnescape_to_plain [OF xy(3)] by (simp add: unescape_append)
qed

section \<open>Properties\<close>

text \<open>A request for the witnesses.\<close>

definition demo_incoming :: "string \<Rightarrow> string \<Rightarrow> string \<Rightarrow> string \<Rightarrow> incoming" where
  "demo_incoming method host path header = \<lparr> in_Method = method, in_Host = host, in_URLHost = [], in_EscapedPath = path,
     in_request = request_to path header \<rparr>"

lemma gateway_methods: "(p, h) \<in> set gateway_mux \<Longrightarrow> mp_method p \<in> {''POST'', ''DELETE'', ''GET'', ''PUT''}"
  by (auto simp: gateway_mux_eq Let_def)

lemma gateway_names: "(p, h) \<in> set gateway_mux \<Longrightarrow> distinct (wild_names (mp_segments p))"
  by (auto simp: gateway_mux_eq Let_def)

lemma path_value_names:
  "distinct names \<Longrightarrow> length vs = length names \<Longrightarrow> wild_names (mp_segments p) = names \<Longrightarrow>
   map (path_value p vs) names = vs"
  by (rule nth_equalityI) (simp_all add: path_value_def map_of_zip_nth)

text \<open>The operations of the interface description \<^verbatim>\<open>api/v1/api-gateway.yml\<close>, with the handler each one is for.\<close>

fun openapi :: "pattern \<Rightarrow> string \<times> segment list" where
  "openapi POST_auth_login = (''POST'', [Lit ''auth'', Lit ''login''])"
| "openapi POST_document = (''POST'', [Lit ''document''])"
| "openapi GET_document = (''GET'', [Lit ''document''])"
| "openapi DELETE_document = (''DELETE'', [Lit ''document''])"
| "openapi GET_document_id = (''GET'', [Lit ''document'', Wild ''documentId''])"
| "openapi PUT_document_id = (''PUT'', [Lit ''document'', Wild ''documentId''])"
| "openapi DELETE_document_id = (''DELETE'', [Lit ''document'', Wild ''documentId''])"
| "openapi GET_permission = (''GET'', [Lit ''document'', Wild ''documentId'', Lit ''permission''])"
| "openapi POST_permission = (''POST'', [Lit ''document'', Wild ''documentId'', Lit ''permission''])"
| "openapi GET_permission_principal =
     (''GET'', [Lit ''document'', Wild ''documentId'', Lit ''permission'', Lit ''principal'', Wild ''principalId''])"
| "openapi PUT_permission_principal =
     (''PUT'', [Lit ''document'', Wild ''documentId'', Lit ''permission'', Lit ''principal'', Wild ''principalId''])"
| "openapi DELETE_permission_principal =
     (''DELETE'', [Lit ''document'', Wild ''documentId'', Lit ''permission'', Lit ''principal'', Wild ''principalId''])"
| "openapi POST_user = (''POST'', [Lit ''user''])"
| "openapi GET_user_id = (''GET'', [Lit ''user'', Wild ''userId''])"
| "openapi PUT_user_id = (''PUT'', [Lit ''user'', Wild ''userId''])"
| "openapi DELETE_user_id = (''DELETE'', [Lit ''user'', Wild ''userId''])"

lemma gateway_openapi:
  "(\<lparr> mp_method = fst (openapi h), mp_host = ''todo'', mp_segments = snd (openapi h) \<rparr>, h) \<in> set gateway_mux"
  by (cases h) (simp_all add: gateway_mux_eq Let_def)

lemma registered_found:
  assumes "(p, h) \<in> set gateway_mux" "in_Method r = mp_method p" "stripHostPort (in_Host r) = ''todo''"
    and "length vs = length (wild_names (mp_segments p))" "list_all plain_segment vs"
    and "in_EscapedPath r = join_path (render (mp_segments p) vs)"
  shows "findHandler gateway_mux r = Found p h vs"
proof -
  note plain = gateway_render [OF assms(1,4,5)]
  have segs: "path_segments (in_EscapedPath r) = render (mp_segments p) vs"
    and clean: "cleanPath (in_EscapedPath r) = in_EscapedPath r"
    using plain assms(6) by (simp_all add: cleanPath_plain)
  have inst: "instantiates (mp_segments p) (path_segments (in_EscapedPath r)) vs"
    unfolding segs using assms(4,5) by (rule instantiates_render)
  have "tree_match gateway_mux ''todo'' (mp_method p) (in_EscapedPath r) \<noteq> None"
    by (rule tree_match_complete [OF assms(1) gateway_host [OF assms(1)] _ refl inst]) simp
  then obtain p' h' vs' where t: "tree_match gateway_mux ''todo'' (mp_method p) (in_EscapedPath r) = Some ((p', h'), vs')"
    by auto
  have get: "mp_method p = mp_method q" if "(q, k) \<in> set gateway_mux" "method_matches (mp_method p) (mp_method q)" for q k
    using that gateway_methods [OF assms(1)] gateway_methods [OF that(1)] by (auto simp: method_matches_def)
  from tree_match_sound [OF t] get have "(p', h') \<in> set gateway_mux" "mp_method p = mp_method p'"
    "instantiates (mp_segments p') (path_segments (in_EscapedPath r)) vs'" by auto
  from gateway_unambiguous [OF assms(1) this(1,2) inst this(3)] t
  have t: "tree_match gateway_mux ''todo'' (mp_method p) (in_EscapedPath r) = Some ((p, h), vs)" by simp
  have "in_Method r \<noteq> ''CONNECT''" using assms(1,2) by (auto simp: gateway_mux_eq Let_def)
  from findHandler_clean [OF this clean] t assms(2,3) show ?thesis by simp
qed

text \<open>What each operation does, written down once more beside its description: the function of the service
  that implements it, with the identifiers of the path in their order, the query parameters and
  the decoded body.\<close>

record query_parameters =
  q_cursor :: "string option"
  q_limit :: "int32 option"
  q_permissionLevel :: "string option"
  q_permissionFilter :: "net_PermissionLevel list option"

fun operation :: "gateway_env \<Rightarrow> Service \<Rightarrow> uuid list \<Rightarrow> query_parameters \<Rightarrow> pattern \<Rightarrow> http_Handler" where
  "operation X sv ids q POST_auth_login =
     (\<lambda>r w. on_users (http_PostAuthLogin (userServiceClient sv) (gw_env X) (gw_jwt X) (gw_JWTSecretKey X)
     (fst (gw_login_now X)) (snd (gw_login_now X)) (js_Login (gw_json X) (req_Body r)) w))"
| "operation X sv ids q POST_document =
     (\<lambda>r w. on_docs (http_PostDocument (documentServiceClient sv) (gw_env X) (js_PostDocument (gw_json X) (req_Body r)) (req_Claims r) w))"
| "operation X sv ids q GET_document =
     (\<lambda>r w. on_docs (http_GetDocument (documentServiceClient sv) (gw_env X) (gw_protobuf X)
     \<lparr> gp_Cursor = q_cursor q, gp_Limit = q_limit q, gp_PermissionLevel = q_permissionLevel q \<rparr> (req_Claims r) w))"
| "operation X sv ids q DELETE_document =
     (\<lambda>r w. on_docs (http_DeleteDocument (documentServiceClient sv) (gw_env X) (js_DocumentIds (gw_json X) (req_Body r)) (req_Claims r) w))"
| "operation X sv ids q GET_document_id =
     (\<lambda>r w. on_docs (http_GetDocumentDocumentId (documentServiceClient sv) (gw_env X) (ids ! 0) (req_Claims r) w))"
| "operation X sv ids q PUT_document_id =
     (\<lambda>r w. on_docs (http_PutDocumentDocumentId (documentServiceClient sv) (gw_env X) (ids ! 0) (js_PutDocument (gw_json X) (req_Body r)) (req_Claims r) w))"
| "operation X sv ids q DELETE_document_id =
     (\<lambda>r w. on_docs (http_DeleteDocumentDocumentId (documentServiceClient sv) (gw_env X) (ids ! 0) (req_Claims r) w))"
| "operation X sv ids q GET_permission =
     (\<lambda>r w. on_docs (http_GetDocumentDocumentIdPermission (documentServiceClient sv) (gw_env X) (gw_protobuf X) (ids ! 0)
     \<lparr> lp_Cursor = q_cursor q, lp_Limit = q_limit q, lp_PermissionFilter = q_permissionFilter q \<rparr> (req_Claims r) w))"
| "operation X sv ids q POST_permission =
     (\<lambda>r w. on_docs (http_PostDocumentDocumentIdPermission (documentServiceClient sv) (gw_env X) (ids ! 0) (js_PostPermission (gw_json X) (req_Body r)) (req_Claims r) w))"
| "operation X sv ids q GET_permission_principal =
     (\<lambda>r w. on_docs (http_GetPermissionPrincipal (documentServiceClient sv) (gw_env X) (ids ! 0) (ids ! 1) (req_Claims r) w))"
| "operation X sv ids q PUT_permission_principal =
     (\<lambda>r w. on_docs (http_PutPermissionPrincipal (documentServiceClient sv) (gw_env X) (ids ! 0) (ids ! 1) (js_PutPermission (gw_json X) (req_Body r)) (req_Claims r) w))"
| "operation X sv ids q DELETE_permission_principal =
     (\<lambda>r w. on_docs (http_DeletePermissionPrincipal (documentServiceClient sv) (gw_env X) (ids ! 0) (ids ! 1) (req_Claims r) w))"
| "operation X sv ids q POST_user =
     (\<lambda>r w. on_users (http_PostUser (userServiceClient sv) (gw_env X) (js_PostUser (gw_json X) (req_Body r)) w))"
| "operation X sv ids q GET_user_id =
     (\<lambda>r w. on_users (http_GetUserUserId (userServiceClient sv) (gw_env X) (ids ! 0) w))"
| "operation X sv ids q PUT_user_id =
     (\<lambda>r w. on_users (http_PutUserUserId (userServiceClient sv) (gw_env X) (ids ! 0) (js_PutUser (gw_json X) (req_Body r)) w))"
| "operation X sv ids q DELETE_user_id =
     (\<lambda>r w. on_users (http_DeleteUserUserId (userServiceClient sv) (gw_env X) (ids ! 0) w))"

text \<open>The parameters of a request: the segments of its path and the parameters the operation declares in
  its query can be bound.\<close>

definition path_bound :: "gateway_env \<Rightarrow> pattern \<Rightarrow> string list \<Rightarrow> uuid list \<Rightarrow> bool" where
  "path_bound X h vs ids \<longleftrightarrow>
     list_all2 (\<lambda>(name, v) u. BindUUID (gw_runtime X) name v = Inr u) (zip (wild_names (snd (openapi h))) vs) ids"

definition query_bound :: "gateway_env \<Rightarrow> pattern \<Rightarrow> (string \<times> string) list \<Rightarrow> query_parameters \<Rightarrow> bool" where
  "query_bound X h query q \<longleftrightarrow>
     (h \<in> {GET_document, GET_permission} \<longrightarrow> BindQueryString (gw_runtime X) ''cursor'' query = Inr (q_cursor q) \<and>
        BindQueryInt32 (gw_runtime X) ''limit'' query = Inr (q_limit q)) \<and>
     (h = GET_document \<longrightarrow> BindQueryString (gw_runtime X) ''permissionLevel'' query = Inr (q_permissionLevel q)) \<and>
     (h = GET_permission \<longrightarrow> BindQueryLevels (gw_runtime X) ''permissionFilter'' query = Inr (q_permissionFilter q))"

lemma gateway_main_operation:
  assumes "path_bound X h vs ids" "query_bound X h (req_Query r) q" "map (req_PathValue r) (wild_names (snd (openapi h))) = vs"
  shows "gateway_main X sv h r w = gw_validator X (AuthMiddleware (gw_jwt X) (gw_now X) (gw_JWTSecretKey X) (operation X sv ids q h))
    (r\<lparr>req_BearerAuthScopes := if h = POST_auth_login then req_BearerAuthScopes r else Some []\<rparr>) w"
  using assms unfolding path_bound_def query_bound_def gateway_main_def
  by (cases h) (auto simp: siw_defs siw_PostAuthLogin_def serve_with_main siw_Handler_main bind_path_def bind_query_def
      with_scopes_def list_all2_Cons1 Let_def)

text \<open>C11: every operation of the interface description is served by its own handler: a request to the host
  of the server for the method of the operation and an instance of its path, whose parameters
  can be bound, runs behind the validator and the authentication the function of the service that implements
  the operation and no other, with the identifiers of the path in their order, the parameters of the query
  and the decoded body.\<close>

theorem requests_reach_their_handler:
  assumes "in_Method r = fst (openapi h)" "stripHostPort (in_Host r) = ''todo''"
    and "length vs = length (wild_names (snd (openapi h)))" "list_all plain_segment vs"
    and "in_EscapedPath r = join_path (render (snd (openapi h)) vs)"
    and "path_bound X h vs ids" "query_bound X h (req_Query (in_request r)) q"
  shows "\<exists>val. map val (wild_names (snd (openapi h))) = vs \<and>
    ServeHTTP X sv gateway_mux r w =
      gw_validator X (AuthMiddleware (gw_jwt X) (gw_now X) (gw_JWTSecretKey X) (operation X sv ids q h))
        ((in_request r)\<lparr>req_PathValue := val, req_BearerAuthScopes :=
          if h = POST_auth_login then req_BearerAuthScopes (in_request r) else Some []\<rparr>) w"
proof -
  let ?p = "\<lparr> mp_method = fst (openapi h), mp_host = ''todo'', mp_segments = snd (openapi h) \<rparr>"
  let ?r = "(in_request r)\<lparr>req_PathValue := path_value ?p vs\<rparr>"
  have "findHandler gateway_mux r = Found ?p h vs"
    using assms(1-5) by (intro registered_found gateway_openapi) simp_all
  then have serve: "ServeHTTP X sv gateway_mux r w = gateway_main X sv h ?r w" by (simp add: ServeHTTP_def)
  have vals: "map (path_value ?p vs) (wild_names (snd (openapi h))) = vs"
    using path_value_names [of "wild_names (mp_segments ?p)" vs ?p] gateway_names [OF gateway_openapi] assms(3) by simp
  have "query_bound X h (req_Query ?r) q" "map (req_PathValue ?r) (wild_names (snd (openapi h))) = vs"
    using assms(7) vals by simp_all
  from gateway_main_operation [OF assms(6) this] vals serve show ?thesis
    by (intro exI [of _ "path_value ?p vs"]) simp
qed

theorem requests_reach_their_handler_witness:
  "\<exists>val. ServeHTTP demo_gateway demo_service gateway_mux
     (demo_incoming ''DELETE'' ''todo:8000'' (join_path [''document'', canon_String 1]) []) fresh_writer =
   AuthMiddleware plain_jwt 100 ''asdf''
     (\<lambda>r w. on_docs (http_DeleteDocumentDocumentId (documentServiceClient demo_service) (gw_env demo_gateway) 1 (req_Claims r) w))
     ((request_to (join_path [''document'', canon_String 1]) [])\<lparr>req_PathValue := val, req_BearerAuthScopes := Some []\<rparr>) fresh_writer"
proof -
  have plain: "plain_segment (canon_String 1)" by code_simp
  have "path_bound demo_gateway DELETE_document_id [canon_String 1] [1]"
    by (simp add: path_bound_def demo_gateway_def canon_roundtrip)
  moreover have "query_bound demo_gateway DELETE_document_id [] q" for q by (simp add: query_bound_def)
  ultimately show ?thesis
    using requests_reach_their_handler [of "demo_incoming ''DELETE'' ''todo:8000'' (join_path [''document'', canon_String 1]) []"
        DELETE_document_id "[canon_String 1]" demo_gateway "[1]" _ demo_service fresh_writer] plain
    by (auto simp: demo_incoming_def stripHostPort_def SplitHostPort_host_def request_to_def demo_gateway_def)
qed

text \<open>C38: identifiers in the path are checked before anything else: a request for an operation with a
  path parameter that cannot be bound is answered 400 with a text that names the first such
  parameter, with any token and also without one, and neither database sees a call.\<close>

theorem malformed_parameter_named:
  assumes "in_Method r = fst (openapi h)" "stripHostPort (in_Host r) = ''todo''"
    and "in_EscapedPath r = join_path (render (snd (openapi h)) (us @ v # rest))" "list_all plain_segment (us @ v # rest)"
    and "wild_names (snd (openapi h)) = before @ name # after" "length us = length before" "length rest = length after"
    and "\<forall>(n, x) \<in> set (zip before us). \<exists>u. BindUUID (gw_runtime X) n x = Inr u"
    and "BindUUID (gw_runtime X) name v = Inl err"
  shows "run_state (ServeHTTP X sv gateway_mux r fresh_writer) s =
    (Responded \<lparr> rw_Status = Some 400,
       rw_Body = [P_PlainText (Text (''Invalid format for parameter '' @ name @ '': '' @ err))] \<rparr>, s)"
proof -
  let ?p = "\<lparr> mp_method = fst (openapi h), mp_host = ''todo'', mp_segments = snd (openapi h) \<rparr>"
  define val where "val = path_value ?p (us @ v # rest)"
  let ?r = "(in_request r)\<lparr>req_PathValue := val\<rparr>"
  have len: "length (us @ v # rest) = length (wild_names (mp_segments ?p))" using assms(5-7) by simp
  have "findHandler gateway_mux r = Found ?p h (us @ v # rest)"
    using assms(1-4) len by (intro registered_found gateway_openapi) simp_all
  then have serve: "ServeHTTP X sv gateway_mux r fresh_writer = gateway_main X sv h ?r fresh_writer"
    by (simp add: ServeHTTP_def val_def)
  have "map val (before @ name # after) = us @ v # rest"
    using path_value_names [OF gateway_names [OF gateway_openapi] len refl] assms(5) by (simp add: val_def)
  then have vals: "map val before = us" "val name = v" using assms(6) by (simp_all add: append_eq_append_conv)
  have bad: "bind_path X (main_wrapper X sv) name ?r fresh_writer k =
      respond \<lparr> rw_Status = Some 400, rw_Body = [P_PlainText (Text (''Invalid format for parameter '' @ name @ '': '' @ err))] \<rparr>" for k
    using vals(2) assms(9)
    by (simp add: bind_path_def main_wrapper_def ErrorHandlerFunc_def Encode_def WriteHeader_def fresh_writer_def)
  have good: "bind_path X (main_wrapper X sv) n ?r fresh_writer k = k u"
    if "before = [n]" "BindUUID (gw_runtime X) n (val n) = Inr u" for n k u
    using that by (simp add: bind_path_def)
  have "before = [] \<or> before = [''documentId''] \<and> name = ''principalId''"
    using assms(5) by (cases h) (auto simp: Cons_eq_append_conv)
  moreover have "\<exists>u. BindUUID (gw_runtime X) n (val n) = Inr u" if "before = [n]" for n
    using vals(1) assms(8) that by (cases us) auto
  ultimately have "before = [] \<or> (\<exists>u. before = [''documentId''] \<and> name = ''principalId'' \<and>
      BindUUID (gw_runtime X) ''documentId'' (val ''documentId'') = Inr u)" by blast
  then show ?thesis
    unfolding serve gateway_main_def
    using assms(5) bad good by (cases h) (auto simp: siw_defs Let_def Cons_eq_append_conv)
qed

theorem malformed_parameter_named_witness:
  "run_state (ServeHTTP demo_gateway demo_service gateway_mux
     (demo_incoming ''GET'' ''todo'' (join_path [''document'', canon_String 1, ''permission'', ''principal'', ''me'']) []) fresh_writer) demo_world =
   (Responded \<lparr> rw_Status = Some 400,
      rw_Body = [P_PlainText (Text (''Invalid format for parameter '' @ ''principalId'' @ '': '' @ ''invalid UUID''))] \<rparr>, demo_world)"
proof -
  have "canon_Parse ''me'' = None" "plain_segment (canon_String 1)" by code_simp+
  then show ?thesis
    using malformed_parameter_named [of "demo_incoming ''GET'' ''todo'' (join_path [''document'', canon_String 1, ''permission'', ''principal'', ''me'']) []"
        GET_permission_principal "[canon_String 1]" "''me''" "[]" "[''documentId'']" "''principalId''" "[]" demo_gateway
        "''invalid UUID''" demo_service demo_world]
    by (simp add: demo_incoming_def stripHostPort_def plain_segment_def [of "''me''"] demo_gateway_def canon_roundtrip)
qed

lemma instantiates_not_slash: "instantiates ss (segs @ [[slash]]) vs \<Longrightarrow> Lit [slash] \<in> set ss"
proof (induction ss segs vs rule: instantiates.induct)
  case (2 l ss s segs vs)
  then show ?case by (cases segs) auto
qed (auto elim: instantiates.elims)

lemma gateway_no_slash: "\<not> needs_slash gateway_mux host method path"
proof
  assume "needs_slash gateway_mux host method path"
  then obtain p h vs where m: "tree_match gateway_mux host method (path @ [slash]) = Some ((p, h), vs)"
    by (auto simp: needs_slash_def)
  have "split_on slash (path @ [slash]) = split_on slash path @ [[]]"
    using split_on_last [of slash "[]" path] by simp
  then have "path_segments (path @ [slash]) = map pathUnescape (tl (split_on slash path)) @ [[slash]]"
    by (cases "split_on slash path") (simp_all add: path_segments_def Let_def)
  with tree_match_sound [OF m] instantiates_not_slash have "(p, h) \<in> set gateway_mux" "Lit [slash] \<in> set (mp_segments p)"
    by auto
  then show False by (auto simp: gateway_mux_eq Let_def)
qed

text \<open>A redirect leads to a path that is not redirected again.\<close>

lemma redirected_once:
  assumes "findHandler gateway_mux r = Redirect path" "in_Method r' = in_Method r" "in_EscapedPath r' = path"
  shows "findHandler gateway_mux r' \<noteq> Redirect path'"
proof -
  have answer: "answer_of m n host q \<noteq> Redirect q'" for m :: "pattern mux" and n host q q'
    by (auto simp: answer_of_def split: option.split)
  from assms(1) have "in_Method r \<noteq> ''CONNECT''" "path = cleanPath (in_EscapedPath r)"
    by (auto simp: findHandler_def gateway_no_slash answer Let_def split: if_splits)
  with assms(2,3) show ?thesis by (simp add: findHandler_def gateway_no_slash cleanPath_idem answer Let_def)
qed

text \<open>C39: the base URL \<^verbatim>\<open>todo\<close> is read as a host name. A request to any other host finds no route: it is
  answered 404, or redirected when its path is not clean, and nothing is done.\<close>

theorem only_host_todo_served:
  assumes "in_Method r \<noteq> ''CONNECT''" "stripHostPort (in_Host r) \<noteq> ''todo''"
  shows "\<exists>w. run_state (ServeHTTP X sv gateway_mux r fresh_writer) s = (Responded w, s) \<and>
    rw_Status w = Some (if cleanPath (in_EscapedPath r) = in_EscapedPath r then 404 else 301)"
  using assms
  by (auto simp: ServeHTTP_def findHandler_def needs_slash_def answer_of_def gateway_other_host Let_def Encode_def
      WriteHeader_def fresh_writer_def)

theorem only_host_todo_served_witness:
  "\<exists>w. run_state (ServeHTTP demo_gateway demo_service gateway_mux
     (demo_incoming ''POST'' ''localhost:8000'' ''/auth/login'' []) fresh_writer) demo_world = (Responded w, demo_world) \<and>
     rw_Status w = Some 404"
proof -
  have "cleanPath ''/auth/login'' = ''/auth/login''" by code_simp
  then show ?thesis
    using only_host_todo_served [of "demo_incoming ''POST'' ''localhost:8000'' ''/auth/login'' []" demo_gateway demo_service demo_world]
    by (simp add: demo_incoming_def stripHostPort_def SplitHostPort_host_def)
qed

text \<open>C4: whatever the method, the host, the path and the body of a request, if its path is not that of the
  login and its header does not carry a token the middleware accepts, it is answered with a
  redirect or an error, and neither the documents nor the accounts are touched: neither connection
  sees a call.\<close>

theorem gateway_requires_token:
  assumes "validator_ok (gw_validator X)"
    and "url_PathUnescape (in_EscapedPath r) = Some (req_Path (in_request r))"
    and "req_Path (in_request r) \<noteq> ''/auth/login''"
    and "bearer_claims (gw_jwt X) (gw_now X) (gw_JWTSecretKey X) (in_request r) = None"
  shows "\<exists>code w. 300 \<le> code \<and> run_state (ServeHTTP X sv gateway_mux r fresh_writer) s = (Responded w, s) \<and>
    rw_Status w = Some code"
proof (cases "findHandler gateway_mux r")
  case (Found p h vs)
  note sound = findHandler_sound [OF Found]
  have "h \<noteq> POST_auth_login"
  proof
    assume "h = POST_auth_login"
    with sound(1,6) have "path_segments (in_EscapedPath r) = [''auth'', ''login'']"
      by (auto simp: gateway_mux_eq Let_def elim!: instantiates.elims)
    from login_path [OF sound(4) this] assms(2,3) show False by simp
  qed
  moreover have "req_Path ((in_request r)\<lparr>req_PathValue := path_value p vs\<rparr>) \<noteq> ''/auth/login''"
    "bearer_claims (gw_jwt X) (gw_now X) (gw_JWTSecretKey X) ((in_request r)\<lparr>req_PathValue := path_value p vs\<rparr>) = None"
    using assms(3,4) by (simp_all add: bearer_claims_def split: if_splits)
  ultimately obtain code body where "400 \<le> code"
    "run_state (gateway_main X sv h ((in_request r)\<lparr>req_PathValue := path_value p vs\<rparr>) fresh_writer) s =
      (Responded \<lparr> rw_Status = Some code, rw_Body = [body] \<rparr>, s)"
    using server_requires_token [OF assms(1)] by blast
  then show ?thesis by (intro exI [of _ code]) (simp add: ServeHTTP_def Found)
qed (simp_all add: ServeHTTP_def Encode_def WriteHeader_def fresh_writer_def Let_def)

theorem gateway_requires_token_witness:
  "\<exists>code w. 300 \<le> code \<and> run_state (ServeHTTP demo_gateway demo_service gateway_mux
     (demo_incoming ''DELETE'' ''todo'' ''/document'' ''Bearer HS256.alice.7'') fresh_writer) demo_world =
     (Responded w, demo_world) \<and> rw_Status w = Some code"
  by (rule gateway_requires_token)
    (simp_all add: validator_ok_def demo_gateway_def demo_incoming_def request_to_def bearer_claims_def plain_jwt_def)

end
