(* ===== verification/Api_Spec.thy ===== *)
theory Api_Spec
  imports Config Go_Path
begin

text \<open>
  The interface description the gateway carries (\<^verbatim>\<open>api_gateway.gen.go\<close>): \<^verbatim>\<open>decodeSpec\<close> unpacks the
  embedded lines once, when the package is initialised, \<^verbatim>\<open>PathToRawSpec\<close> and the loader's
  \<^verbatim>\<open>ReadFromURIFunc\<close> resolve references to other files, and \<^verbatim>\<open>GetSwagger\<close> loads it for the request
  validator. The lines themselves, the unpacking functions and the loader of \<^verbatim>\<open>kin-openapi\<close> are
  parameters.
\<close>

section \<open>The embedded description\<close>

text \<open>\<^verbatim>\<open>LoadFromData\<close> is given the function that reads a reference.\<close>

record 't spec_pkg =
  base64_StdDecode :: "string \<Rightarrow> go_err + string"
  gzip_NewReader :: "string \<Rightarrow> go_err + string"
  buf_ReadFrom :: "string \<Rightarrow> go_err + string"
  LoadFromData :: "(string \<Rightarrow> go_err + string) \<Rightarrow> string \<Rightarrow> go_err + 't"

definition decodeSpec :: "'t spec_pkg \<Rightarrow> string list \<Rightarrow> go_err + string" where
  "decodeSpec K swaggerSpec =
     checked (base64_StdDecode K (concat swaggerSpec)) (Wrapped ''error base64 decoding spec'') (\<lambda>zipped.
     checked (gzip_NewReader K zipped) (Wrapped ''error decompressing spec'') (\<lambda>zr.
     checked (buf_ReadFrom K zr) (Wrapped ''error decompressing spec'') Inr))"

text \<open>The closure returns what the first decoding gave.\<close>

definition decodeSpecCached :: "'t spec_pkg \<Rightarrow> string list \<Rightarrow> unit \<Rightarrow> go_err + string" where
  "decodeSpecCached K swaggerSpec = (let r = decodeSpec K swaggerSpec in (\<lambda>_. r))"

definition PathToRawSpec :: "(unit \<Rightarrow> go_err + string) \<Rightarrow> string \<Rightarrow> (string \<rightharpoonup> (unit \<Rightarrow> go_err + string))" where
  "PathToRawSpec rawSpec pathToFile =
     (let res = Map.empty in if 0 < length pathToFile then res(pathToFile \<mapsto> rawSpec) else res)"

definition ReadFromURIFunc :: "(string \<rightharpoonup> (unit \<Rightarrow> go_err + string)) \<Rightarrow> string \<Rightarrow> go_err + string" where
  "ReadFromURIFunc resolvePath url =
     (let pathToFile = path_Clean url in
      case resolvePath pathToFile of
        None \<Rightarrow> Inl (GoErr (''path not found: '' @ pathToFile))
      | Some getSpec \<Rightarrow> getSpec ())"

definition GetSwagger :: "'t spec_pkg \<Rightarrow> string list \<Rightarrow> go_err + 't" where
  "GetSwagger K swaggerSpec =
     (let rawSpec = decodeSpecCached K swaggerSpec; resolvePath = PathToRawSpec rawSpec [] in
      checked (rawSpec ()) id (\<lambda>specData.
      checked (LoadFromData K (ReadFromURIFunc resolvePath) specData) id Inr))"

section \<open>Lemmas\<close>

text \<open>No reference to another file can be resolved, although the loader allows them: the generated
  code registers no file.\<close>

lemma no_external_references: "\<exists>e. ReadFromURIFunc (PathToRawSpec rawSpec []) url = Inl e"
  by (simp add: ReadFromURIFunc_def PathToRawSpec_def Let_def)

lemma GetSwagger_cases:
  "GetSwagger K spec = (case decodeSpec K spec of
     Inl e \<Rightarrow> Inl e
   | Inr specData \<Rightarrow> LoadFromData K (\<lambda>url. Inl (GoErr (''path not found: '' @ path_Clean url))) specData)"
proof -
  have "ReadFromURIFunc (PathToRawSpec raw []) = (\<lambda>url. Inl (GoErr (''path not found: '' @ path_Clean url)))" for raw
    by (simp add: fun_eq_iff ReadFromURIFunc_def PathToRawSpec_def Let_def)
  moreover have "checked r id Inr = r" for r :: "go_err + 'a" by (cases r) simp_all
  ultimately show ?thesis
    by (simp add: GetSwagger_def decodeSpecCached_def checked_def split: sum.split)
qed

end
