(* ===== verification/Startup.thy ===== *)
theory Startup
  imports Api_Spec
begin

text \<open>
  Start-up of the processes: telemetry (\<^verbatim>\<open>internal/config/otel.go\<close> of either service), the
  connection pool (\<^verbatim>\<open>internal/config/postgres.go\<close>), the constructors of the clients
  (\<^verbatim>\<open>pkg/client/client.go\<close>) and the three \<^verbatim>\<open>cmd/server/main.go\<close>. The process is a state that
  records, in order, what was opened, closed, installed, logged and served, together with the
  slice \<^verbatim>\<open>shutdownFuncs\<close> that the closures of \<^verbatim>\<open>SetupOTelSDK\<close> share. The packages that are called
  are parameters: each gives the outcome of its calls.
\<close>

section \<open>The process\<close>

datatype signal = Traces | Metrics | Logs
datatype exporter = OtlpTrace | OtlpMetric | OtlpLog | StdoutLog

record otel_attributes =
  service_name :: string
  service_version :: string

text \<open>A provider comes with the resource it describes and the exporters it was given.\<close>

datatype handle = Exporter exporter | Provider signal otel_attributes "exporter list" | Pool | Listener string | ClientConn string

datatype propagator = TraceContext | Baggage

datatype slot = Slot_Propagator "propagator list" | Slot_Tracer | Slot_Meter | Slot_Logger | Slot_slog string

datatype event = Opened handle | Closed handle | Installed slot | Logged string | Served string

record process =
  p_events :: "event list"
  p_shutdownFuncs :: "handle list"

type_synonym 'a proc = "(process, 'a) state"

definition emit :: "event \<Rightarrow> unit proc" where
  "emit e = State (\<lambda>p. ((), p\<lparr>p_events := p_events p @ [e]\<rparr>))"

definition get_shutdownFuncs :: "handle list proc" where
  "get_shutdownFuncs = State (\<lambda>p. (p_shutdownFuncs p, p))"

definition set_shutdownFuncs :: "handle list \<Rightarrow> unit proc" where
  "set_shutdownFuncs hs = State (\<lambda>p. ((), p\<lparr>p_shutdownFuncs := hs\<rparr>))"

definition append_shutdownFuncs :: "handle \<Rightarrow> unit proc" where
  "append_shutdownFuncs h = do { hs \<leftarrow> get_shutdownFuncs; set_shutdownFuncs (hs @ [h]) }"

lemmas proc_simps = emit_def get_shutdownFuncs_def set_shutdownFuncs_def append_shutdownFuncs_def

text \<open>What is still open at the end: a handle that was not closed and, for an exporter, whose
  provider was not closed either (shutting a provider down shuts its exporters down).\<close>

definition released :: "event list \<Rightarrow> handle \<Rightarrow> bool" where
  "released evs h \<longleftrightarrow> Closed h \<in> set evs \<or>
     (\<exists>e \<in> set evs. case (h, e) of (Exporter x, Closed (Provider _ _ xs)) \<Rightarrow> x \<in> set xs | _ \<Rightarrow> False)"

fun opened_handles :: "event list \<Rightarrow> handle list" where
  "opened_handles [] = []"
| "opened_handles (Opened h # evs) = h # opened_handles evs"
| "opened_handles (_ # evs) = opened_handles evs"

definition left_open :: "event list \<Rightarrow> handle list" where
  "left_open evs = filter (\<lambda>h. \<not> released evs h) (opened_handles evs)"

lemma left_open_iff: "h \<in> set (left_open evs) \<longleftrightarrow> Opened h \<in> set evs \<and> \<not> released evs h"
proof -
  have "h \<in> set (opened_handles evs) \<longleftrightarrow> Opened h \<in> set evs"
    by (induction evs rule: opened_handles.induct) auto
  then show ?thesis by (auto simp: left_open_def)
qed

lemma released_iff: "(\<And>x. h \<noteq> Exporter x) \<Longrightarrow> released evs h \<longleftrightarrow> Closed h \<in> set evs"
  by (cases h) (auto simp: released_def)

section \<open>Telemetry (otel.go)\<close>

text \<open>The outcome of every call, None for success.\<close>

record otel_pkg =
  resource_Merge :: "otel_attributes \<Rightarrow> go_err option"
  exporter_New :: "exporter \<Rightarrow> go_err option"
  provider_Shutdown :: "signal \<Rightarrow> go_err option"

definition otel_version :: string where "otel_version = ''0.1.0''"

text \<open>\<^verbatim>\<open>errors.Join\<close> drops the nil errors and is nil when nothing is left.\<close>

definition errors_Join :: "go_err option list \<Rightarrow> go_err option" where
  "errors_Join errs = (let xs = List.map_filter id errs in if xs = [] then None else Some (Joined xs))"

definition open_exporter :: "otel_pkg \<Rightarrow> exporter \<Rightarrow> (go_err + exporter) proc" where
  "open_exporter K x = (case exporter_New K x of
      Some e \<Rightarrow> State_Monad.return (Inl e)
    | None \<Rightarrow> do { emit (Opened (Exporter x)); State_Monad.return (Inr x) })"

definition open_provider :: "signal \<Rightarrow> otel_attributes \<Rightarrow> exporter list \<Rightarrow> (go_err + handle) proc" where
  "open_provider s res xs = do { emit (Opened (Provider s res xs)); State_Monad.return (Inr (Provider s res xs)) }"

definition newPropagator :: "propagator list" where
  "newPropagator = [TraceContext, Baggage]"

definition newTracerProvider :: "otel_pkg \<Rightarrow> otel_attributes \<Rightarrow> (go_err + handle) proc" where
  "newTracerProvider K res =
     check (open_exporter K OtlpTrace) id (\<lambda>traceExporter. open_provider Traces res [traceExporter])"

definition newMeterProvider :: "otel_pkg \<Rightarrow> otel_attributes \<Rightarrow> (go_err + handle) proc" where
  "newMeterProvider K res =
     check (open_exporter K OtlpMetric) id (\<lambda>metricExporter. open_provider Metrics res [metricExporter])"

definition newLoggerProvider :: "otel_pkg \<Rightarrow> otel_attributes \<Rightarrow> (go_err + handle) proc" where
  "newLoggerProvider K res =
     check (open_exporter K OtlpLog) id (\<lambda>logExporter.
     check (open_exporter K StdoutLog) id (\<lambda>stdOutLogExporter.
     open_provider Logs res [logExporter, stdOutLogExporter]))"

fun Shutdown :: "otel_pkg \<Rightarrow> handle \<Rightarrow> go_err option proc" where
  "Shutdown K (Provider s res xs) =
     do { emit (Closed (Provider s res xs)); State_Monad.return (provider_Shutdown K s) }"
| "Shutdown K h = do { emit (Closed h); State_Monad.return None }"

fun shutdown_loop :: "otel_pkg \<Rightarrow> handle list \<Rightarrow> go_err option \<Rightarrow> go_err option proc" where
  "shutdown_loop K [] err = State_Monad.return err"
| "shutdown_loop K (fn # fns) err =
     do { e \<leftarrow> Shutdown K fn; shutdown_loop K fns (errors_Join [err, e]) }"

definition shutdown :: "otel_pkg \<Rightarrow> go_err option proc" where
  "shutdown K = do {
     shutdownFuncs \<leftarrow> get_shutdownFuncs;
     err \<leftarrow> shutdown_loop K shutdownFuncs None;
     set_shutdownFuncs [];
     State_Monad.return err }"

definition handleErr :: "otel_pkg \<Rightarrow> go_err \<Rightarrow> go_err option proc" where
  "handleErr K inErr = do { e \<leftarrow> shutdown K; State_Monad.return (errors_Join [Some inErr, e]) }"

text \<open>Register a provider and install it, or clean up: the step that is repeated for the three
  signals.\<close>

definition with_provider ::
  "otel_pkg \<Rightarrow> (go_err + handle) proc \<Rightarrow> slot \<Rightarrow> go_err option proc \<Rightarrow> go_err option proc" where
  "with_provider K newProvider slot rest = do {
     r \<leftarrow> newProvider;
     (case r of
        Inl err \<Rightarrow> handleErr K err
      | Inr provider \<Rightarrow> do { append_shutdownFuncs provider; emit (Installed slot); rest }) }"

definition service_resource :: "string \<Rightarrow> otel_attributes" where
  "service_resource serviceName = \<lparr> service_name = serviceName, service_version = otel_version \<rparr>"

definition SetupOTelSDK :: "otel_pkg \<Rightarrow> string \<Rightarrow> go_err option proc" where
  "SetupOTelSDK K serviceName = do {
     set_shutdownFuncs [];
     let res = service_resource serviceName;
     (case resource_Merge K res of
        Some err \<Rightarrow> State_Monad.return (Some err)
      | None \<Rightarrow> do {
          emit (Installed (Slot_Propagator newPropagator));
          with_provider K (newTracerProvider K res) Slot_Tracer (
          with_provider K (newMeterProvider K res) Slot_Meter (
          with_provider K (newLoggerProvider K res) Slot_Logger (do {
            emit (Installed (Slot_slog ''user_service''));
            State_Monad.return None }))) }) }"

definition doc_SetupOTelSDK :: "otel_pkg \<Rightarrow> go_err option proc" where
  "doc_SetupOTelSDK K = SetupOTelSDK K ''document-service''"

text \<open>The copy of the file in the user service.\<close>

definition user_newPropagator :: "propagator list" where
  "user_newPropagator = [TraceContext, Baggage]"

definition user_newTracerProvider :: "otel_pkg \<Rightarrow> otel_attributes \<Rightarrow> (go_err + handle) proc" where
  "user_newTracerProvider K res =
     check (open_exporter K OtlpTrace) id (\<lambda>traceExporter. open_provider Traces res [traceExporter])"

definition user_newMeterProvider :: "otel_pkg \<Rightarrow> otel_attributes \<Rightarrow> (go_err + handle) proc" where
  "user_newMeterProvider K res =
     check (open_exporter K OtlpMetric) id (\<lambda>metricExporter. open_provider Metrics res [metricExporter])"

definition user_newLoggerProvider :: "otel_pkg \<Rightarrow> otel_attributes \<Rightarrow> (go_err + handle) proc" where
  "user_newLoggerProvider K res =
     check (open_exporter K OtlpLog) id (\<lambda>logExporter.
     check (open_exporter K StdoutLog) id (\<lambda>stdOutLogExporter.
     open_provider Logs res [logExporter, stdOutLogExporter]))"

definition user_SetupOTelSDK :: "otel_pkg \<Rightarrow> go_err option proc" where
  "user_SetupOTelSDK K = do {
     set_shutdownFuncs [];
     let res = \<lparr> service_name = ''user-service'', service_version = ''0.1.0'' \<rparr>;
     (case resource_Merge K res of
        Some err \<Rightarrow> State_Monad.return (Some err)
      | None \<Rightarrow> do {
          emit (Installed (Slot_Propagator user_newPropagator));
          with_provider K (user_newTracerProvider K res) Slot_Tracer (
          with_provider K (user_newMeterProvider K res) Slot_Meter (
          with_provider K (user_newLoggerProvider K res) Slot_Logger (do {
            emit (Installed (Slot_slog ''user_service''));
            State_Monad.return None }))) }) }"

lemma telemetry_copies: "user_SetupOTelSDK K = SetupOTelSDK K ''user-service''"
  unfolding user_SetupOTelSDK_def SetupOTelSDK_def service_resource_def otel_version_def
    user_newTracerProvider_def newTracerProvider_def user_newMeterProvider_def newMeterProvider_def
    user_newLoggerProvider_def newLoggerProvider_def user_newPropagator_def newPropagator_def Let_def
  by (rule refl)

section \<open>The connection pool (postgres.go)\<close>

record pgx_pkg =
  ParseConfig :: ParseConfig_fn
  NewWithConfig :: "pgxpool_Config \<Rightarrow> go_err option"
  RecordStats :: "go_err option"
  Ping :: "pgxpool_Config \<Rightarrow> go_err option"
  LoadTypes :: "string list \<Rightarrow> go_err + string list"

definition CreateDBConnectionPool :: "pgx_pkg \<Rightarrow> pgxpool_Config \<Rightarrow> (go_err + handle) proc" where
  "CreateDBConnectionPool G config = (case NewWithConfig G config of
      Some err \<Rightarrow> State_Monad.return (Inl (Wrapped ''failed to create a database connection pool'' err))
    | None \<Rightarrow> do {
        emit (Opened Pool);
        (case RecordStats G of
           Some err \<Rightarrow> do { emit (Closed Pool);
             State_Monad.return (Inl (Wrapped ''failed to set up database connection pool observability'' err)) }
         | None \<Rightarrow> (case Ping G config of
             Some err \<Rightarrow> do { emit (Closed Pool);
               State_Monad.return (Inl (Wrapped ''failed to ping the new connection pool'' err)) }
           | None \<Rightarrow> State_Monad.return (Inr Pool))) })"

definition user_CreateDBConnectionPool :: "pgx_pkg \<Rightarrow> pgxpool_Config \<Rightarrow> (go_err + handle) proc" where
  "user_CreateDBConnectionPool G config = (case NewWithConfig G config of
      Some err \<Rightarrow> State_Monad.return (Inl (Wrapped ''failed to create a database connection pool'' err))
    | None \<Rightarrow> do {
        emit (Opened Pool);
        (case RecordStats G of
           Some err \<Rightarrow> do { emit (Closed Pool);
             State_Monad.return (Inl (Wrapped ''failed to set up database connection pool observability'' err)) }
         | None \<Rightarrow> (case Ping G config of
             Some err \<Rightarrow> do { emit (Closed Pool);
               State_Monad.return (Inl (Wrapped ''failed to ping the new connection pool'' err)) }
           | None \<Rightarrow> State_Monad.return (Inr Pool))) })"

lemma pool_copies: "user_CreateDBConnectionPool = CreateDBConnectionPool"
  by (simp add: fun_eq_iff user_CreateDBConnectionPool_def CreateDBConnectionPool_def)

text \<open>The hook of a connection of the document service: the enumerations of the schema and their
  arrays are read from the database and added to the connection's type map.\<close>

definition registered_types :: "string list" where
  "registered_types = [''permission_level'', ''_permission_level'', ''recipient_type'', ''_recipient_type'']"

definition RegisterTypes :: "pgx_pkg \<Rightarrow> string list \<Rightarrow> go_err + string list" where
  "RegisterTypes G typeMap =
     checked (LoadTypes G registered_types) (Wrapped ''failed to read types from database'') (\<lambda>t.
     Inr (typeMap @ t))"

section \<open>The mains\<close>

text \<open>\<^verbatim>\<open>os.Exit\<close> and \<^verbatim>\<open>log.Fatalf\<close> end the process at once, without the deferred calls; a return
  from \<^verbatim>\<open>main\<close> runs them, the last one first. A panic ends the process with status 2.\<close>

datatype outcome = Exit nat | Return

definition deferred :: "unit proc \<Rightarrow> outcome proc \<Rightarrow> outcome proc" where
  "deferred fin body = do {
     r \<leftarrow> body;
     (case r of Exit n \<Rightarrow> State_Monad.return (Exit n) | Return \<Rightarrow> do { fin; State_Monad.return Return }) }"

definition fatal :: "string \<Rightarrow> outcome proc" where
  "fatal msg = do { emit (Logged msg); State_Monad.return (Exit 1) }"

definition call_shutdown :: "otel_pkg \<Rightarrow> unit proc" where
  "call_shutdown K = do { _ \<leftarrow> shutdown K; State_Monad.return () }"

record platform =
  pl_env :: environment
  pl_otel :: otel_pkg
  pl_pgx :: pgx_pkg
  pl_Listen :: "string \<Rightarrow> go_err option"           \<comment> \<open>\<^verbatim>\<open>net.Listen\<close> on an address\<close>
  pl_Serve :: "go_err option"                      \<comment> \<open>how \<^verbatim>\<open>Serve\<close> ends, None for nil\<close>
  pl_NewClient :: "string \<Rightarrow> go_err option"        \<comment> \<open>\<^verbatim>\<open>grpc.NewClient\<close> for an address\<close>
  pl_spec :: "string spec_pkg"                     \<comment> \<open>unpacking and loading of the interface description\<close>
  pl_swaggerSpec :: "string list"                  \<comment> \<open>the embedded lines\<close>

text \<open>\<^verbatim>\<open>Serve\<close> closes the listener when it returns. It is documented to return nil only after
  \<^verbatim>\<open>Stop\<close> or \<^verbatim>\<open>GracefulStop\<close>, which neither service calls: what the services do is stated for a
  server that ends with an error (\<open>never_stopped\<close>).\<close>

definition never_stopped :: "platform \<Rightarrow> bool" where
  "never_stopped S \<longleftrightarrow> pl_Serve S \<noteq> None"

definition serve_on :: "platform \<Rightarrow> string \<Rightarrow> string \<Rightarrow> go_err option proc" where
  "serve_on S addr service = do {
     emit (Served service); emit (Closed (Listener addr)); State_Monad.return (pl_Serve S) }"

definition listen_address :: string where "listen_address = '':'' @ fmt_d 50051"

definition doc_main :: "platform \<Rightarrow> outcome proc" where
  "doc_main S = do {
     err \<leftarrow> doc_SetupOTelSDK (pl_otel S);
     (case err of
        Some _ \<Rightarrow> fatal ''failed to bootstrap the otel sdk: ''
      | None \<Rightarrow> deferred (call_shutdown (pl_otel S)) (
          case GetConfiguration (pl_env S) (ParseConfig (pl_pgx S)) of
            Inl _ \<Rightarrow> fatal ''failed to get database connection configuration''
          | Inr cfg \<Rightarrow> do {
              r \<leftarrow> CreateDBConnectionPool (pl_pgx S) (cfg\<lparr>cfg_AfterConnect := Some (RegisterTypes (pl_pgx S))\<rparr>);
              (case r of
                 Inl _ \<Rightarrow> fatal ''failed to create database connection pool''
               | Inr pool \<Rightarrow> deferred (emit (Closed pool)) (
                   case pl_Listen S listen_address of
                     Some _ \<Rightarrow> fatal ''failed to listen''
                   | None \<Rightarrow> do {
                       emit (Opened (Listener listen_address));
                       emit (Logged ''server listening'');
                       e \<leftarrow> serve_on S listen_address ''DocumentService'';
                       (case e of Some _ \<Rightarrow> fatal ''failed to serve'' | None \<Rightarrow> State_Monad.return Return) })) })) }"

definition user_main :: "platform \<Rightarrow> outcome proc" where
  "user_main S = do {
     err \<leftarrow> user_SetupOTelSDK (pl_otel S);
     (case err of
        Some _ \<Rightarrow> fatal ''failed to bootstrap OTEL SDK''
      | None \<Rightarrow> deferred (call_shutdown (pl_otel S)) (
          case user_GetConfiguration (pl_env S) (ParseConfig (pl_pgx S)) of
            Inl _ \<Rightarrow> fatal ''failed to get database connection configuration''
          | Inr cfg \<Rightarrow> do {
              r \<leftarrow> user_CreateDBConnectionPool (pl_pgx S) cfg;
              (case r of
                 Inl _ \<Rightarrow> fatal ''failed to create database connection pool''
               | Inr pool \<Rightarrow> deferred (emit (Closed pool)) (
                   case pl_Listen S listen_address of
                     Some _ \<Rightarrow> fatal ''failed to listen''
                   | None \<Rightarrow> do {
                       emit (Opened (Listener listen_address));
                       emit (Logged ''server listening'');
                       e \<leftarrow> serve_on S listen_address ''UserService'';
                       (case e of Some _ \<Rightarrow> fatal ''failed to serve'' | None \<Rightarrow> State_Monad.return Return) })) })) }"

text \<open>The gateway: its clients, the validator built from the embedded specification, and a server
  whose \<^verbatim>\<open>ListenAndServe\<close> is called for its effect only.\<close>

definition new_client :: "platform \<Rightarrow> string \<Rightarrow> (go_err + handle) proc" where
  "new_client S addr = (case pl_NewClient S addr of
      Some err \<Rightarrow> State_Monad.return (Inl err)
    | None \<Rightarrow> do { emit (Opened (ClientConn addr)); State_Monad.return (Inr (ClientConn addr)) })"

definition NewUserServiceClient :: "platform \<Rightarrow> string \<Rightarrow> (go_err + handle) proc" where
  "NewUserServiceClient S addr = check (new_client S addr) (Wrapped ''failed to create a connection'') (\<lambda>conn.
     State_Monad.return (Inr conn))"

definition NewDocumentServiceClient :: "platform \<Rightarrow> string \<Rightarrow> (go_err + handle) proc" where
  "NewDocumentServiceClient S addr = check (new_client S addr) (\<lambda>_. GoErr ''failed to create a connection'') (\<lambda>conn.
     State_Monad.return (Inr conn))"

definition RequestValidationMiddleware :: "platform \<Rightarrow> outcome proc \<Rightarrow> outcome proc" where
  "RequestValidationMiddleware S rest =
     (case GetSwagger (pl_spec S) (pl_swaggerSpec S) of Inl _ \<Rightarrow> State_Monad.return (Exit 2) | Inr spec \<Rightarrow> rest)"

definition ListenAndServe :: "platform \<Rightarrow> string \<Rightarrow> string \<Rightarrow> go_err option proc" where
  "ListenAndServe S addr service = (case pl_Listen S addr of
      Some err \<Rightarrow> State_Monad.return (Some err)
    | None \<Rightarrow> do { emit (Opened (Listener addr)); serve_on S addr service })"

definition gateway_boot :: "platform \<Rightarrow> outcome proc" where
  "gateway_boot S = do {
     r \<leftarrow> NewUserServiceClient S (UserServiceAddr (pl_env S));
     (case r of
        Inl _ \<Rightarrow> fatal ''failed to create a user service client with error''
      | Inr userServiceClient \<Rightarrow> do {
          r \<leftarrow> NewDocumentServiceClient S (DocumentServiceAddr (pl_env S));
          (case r of
             Inl _ \<Rightarrow> fatal ''failed to create a document service client with error''
           | Inr documentServiceClient \<Rightarrow>
               RequestValidationMiddleware S (do {
                 _ \<leftarrow> ListenAndServe S ''0.0.0.0:8000'' ''gateway'';
                 State_Monad.return Return })) }) }"

section \<open>Runs of the telemetry set-up\<close>

lemma errors_Join_simps [simp]:
  "errors_Join [None, None] = None" "errors_Join [Some e, None] = Some (Joined [e])"
  "errors_Join [None, Some f] = Some (Joined [f])" "errors_Join [Some e, Some f] = Some (Joined [e, f])"
  by (simp_all add: errors_Join_def List.map_filter_def)

lemmas telemetry_defs = SetupOTelSDK_def doc_SetupOTelSDK_def telemetry_copies with_provider_def handleErr_def shutdown_def
  newTracerProvider_def newMeterProvider_def newLoggerProvider_def open_exporter_def open_provider_def check_def newPropagator_def Let_def

text \<open>The slice after the set-up: the three providers after a success, empty after a failure.\<close>

definition providers :: "string \<Rightarrow> handle list" where
  "providers serviceName = (let res = service_resource serviceName in
     [Provider Traces res [OtlpTrace], Provider Metrics res [OtlpMetric], Provider Logs res [OtlpLog, StdoutLog]])"

lemma errors_Join_Some [simp]: "errors_Join (Some e # es) \<noteq> None"
  by (simp add: errors_Join_def List.map_filter_def Let_def)

lemma shutdown_idle: "p_shutdownFuncs p = [] \<Longrightarrow> run_state (shutdown K) p = (None, p)"
  by (cases p) (simp add: shutdown_def proc_simps)

lemma setup_shutdownFuncs:
  assumes "run_state (SetupOTelSDK K name) p = (err, p')"
  shows "p_shutdownFuncs p' = (if err = None then providers name else [])"
  using assms
  by (auto simp: telemetry_defs proc_simps providers_def split: option.splits)

definition closed_as_opened :: "event list \<Rightarrow> bool" where
  "closed_as_opened evs \<longleftrightarrow> (\<forall>s a xs. count_list evs (Closed (Provider s a xs)) = count_list evs (Opened (Provider s a xs)) \<and>
     count_list evs (Opened (Provider s a xs)) \<le> 1)"

lemma setup_failure_closes:
  assumes "run_state (SetupOTelSDK K name) p = (Some e, p')" "p_events p = []"
  shows "closed_as_opened (p_events p')"
  using assms unfolding closed_as_opened_def
  by (auto simp: telemetry_defs proc_simps split: option.splits)

definition telemetry_ok :: "otel_pkg \<Rightarrow> string \<Rightarrow> bool" where
  "telemetry_ok K name \<longleftrightarrow> resource_Merge K (service_resource name) = None \<and>
     list_all (\<lambda>x. exporter_New K x = None) [OtlpTrace, OtlpMetric, OtlpLog, StdoutLog]"

definition setup_events :: "string \<Rightarrow> event list" where
  "setup_events name = [Installed (Slot_Propagator [TraceContext, Baggage]),
     Opened (Exporter OtlpTrace), Opened (providers name ! 0), Installed Slot_Tracer,
     Opened (Exporter OtlpMetric), Opened (providers name ! 1), Installed Slot_Meter,
     Opened (Exporter OtlpLog), Opened (Exporter StdoutLog), Opened (providers name ! 2), Installed Slot_Logger,
     Installed (Slot_slog ''user_service'')]"

lemma setup_success_run:
  assumes "telemetry_ok K name"
  shows "run_state (SetupOTelSDK K name) p =
    (None, p\<lparr>p_events := p_events p @ setup_events name, p_shutdownFuncs := providers name\<rparr>)"
  using assms by (simp add: telemetry_ok_def telemetry_defs proc_simps providers_def setup_events_def)

lemma setup_failure:
  "\<not> telemetry_ok K name \<Longrightarrow> \<exists>e p'. run_state (SetupOTelSDK K name) p = (Some e, p')"
  by (auto simp: telemetry_ok_def telemetry_defs proc_simps errors_Join_def List.map_filter_def split: option.splits)

lemma shutdown_providers:
  assumes "p_shutdownFuncs p = providers name"
  shows "\<exists>err. run_state (shutdown K) p =
    (err, p\<lparr>p_events := p_events p @ map Closed (providers name), p_shutdownFuncs := []\<rparr>)"
  using assms by (simp add: shutdown_def proc_simps providers_def Let_def)

text \<open>Any number of calls of the function that was returned.\<close>

primrec shutdown_times :: "otel_pkg \<Rightarrow> nat \<Rightarrow> unit proc" where
  "shutdown_times K 0 = State_Monad.return ()"
| "shutdown_times K (Suc n) = do { _ \<leftarrow> shutdown K; shutdown_times K n }"

lemma shutdown_times_idle: "p_shutdownFuncs p = [] \<Longrightarrow> run_state (shutdown_times K n) p = ((), p)"
  by (induction n) (simp_all add: shutdown_idle)

section \<open>Runs of the mains\<close>

definition pool_ok :: "pgx_pkg \<Rightarrow> pgxpool_Config \<Rightarrow> bool" where
  "pool_ok G cfg \<longleftrightarrow> NewWithConfig G cfg = None \<and> RecordStats G = None \<and> Ping G cfg = None"

text \<open>A pool that could not be set up completely is closed again.\<close>

lemma pool_ok_run:
  "pool_ok G cfg \<Longrightarrow> run_state (CreateDBConnectionPool G cfg) p = (Inr Pool, p\<lparr>p_events := p_events p @ [Opened Pool]\<rparr>)"
  by (simp add: CreateDBConnectionPool_def pool_ok_def proc_simps)

lemma pool_fail_run:
  assumes "\<not> pool_ok G cfg"
  obtains e where "\<And>p. run_state (CreateDBConnectionPool G cfg) p = (Inl e, p\<lparr>p_events := p_events p @
    (if NewWithConfig G cfg = None then [Opened Pool, Closed Pool] else [])\<rparr>)"
  using assms that
  by (cases "NewWithConfig G cfg"; cases "RecordStats G"; cases "Ping G cfg")
    (simp_all add: CreateDBConnectionPool_def pool_ok_def proc_simps)

definition doc_pool_config :: "platform \<Rightarrow> pgxpool_Config \<Rightarrow> pgxpool_Config" where
  "doc_pool_config S cfg = cfg\<lparr>cfg_AfterConnect := Some (RegisterTypes (pl_pgx S))\<rparr>"

text \<open>Both mains have this shape.\<close>

definition service_main ::
  "platform \<Rightarrow> string \<Rightarrow> (pgxpool_Config \<Rightarrow> pgxpool_Config) \<Rightarrow> string \<Rightarrow> string \<Rightarrow> outcome proc" where
  "service_main S name conf boot_msg service = do {
     err \<leftarrow> SetupOTelSDK (pl_otel S) name;
     (case err of
        Some _ \<Rightarrow> fatal boot_msg
      | None \<Rightarrow> deferred (call_shutdown (pl_otel S)) (
          case GetConfiguration (pl_env S) (ParseConfig (pl_pgx S)) of
            Inl _ \<Rightarrow> fatal ''failed to get database connection configuration''
          | Inr cfg \<Rightarrow> do {
              r \<leftarrow> CreateDBConnectionPool (pl_pgx S) (conf cfg);
              (case r of
                 Inl _ \<Rightarrow> fatal ''failed to create database connection pool''
               | Inr pool \<Rightarrow> deferred (emit (Closed pool)) (
                   case pl_Listen S listen_address of
                     Some _ \<Rightarrow> fatal ''failed to listen''
                   | None \<Rightarrow> do {
                       emit (Opened (Listener listen_address));
                       emit (Logged ''server listening'');
                       e \<leftarrow> serve_on S listen_address service;
                       (case e of Some _ \<Rightarrow> fatal ''failed to serve'' | None \<Rightarrow> State_Monad.return Return) })) })) }"

lemma mains:
  "doc_main S = service_main S ''document-service'' (doc_pool_config S) ''failed to bootstrap the otel sdk: '' ''DocumentService''"
  "user_main S = service_main S ''user-service'' (\<lambda>cfg. cfg) ''failed to bootstrap OTEL SDK'' ''UserService''"
  unfolding doc_main_def user_main_def service_main_def doc_SetupOTelSDK_def telemetry_copies
    configuration_copies pool_copies doc_pool_config_def by (rule refl)+

text \<open>What such a process does once its telemetry is up.\<close>

definition startup_events :: "platform \<Rightarrow> (pgxpool_Config \<Rightarrow> pgxpool_Config) \<Rightarrow> string \<Rightarrow> event list" where
  "startup_events S conf service = (case GetConfiguration (pl_env S) (ParseConfig (pl_pgx S)) of
      Inl _ \<Rightarrow> [Logged ''failed to get database connection configuration'']
    | Inr cfg \<Rightarrow>
        if \<not> pool_ok (pl_pgx S) (conf cfg)
        then (if NewWithConfig (pl_pgx S) (conf cfg) = None then [Opened Pool, Closed Pool] else []) @
          [Logged ''failed to create database connection pool'']
        else if pl_Listen S listen_address \<noteq> None then [Opened Pool, Logged ''failed to listen'']
        else [Opened Pool, Opened (Listener listen_address), Logged ''server listening'', Served service,
          Closed (Listener listen_address), Logged ''failed to serve''])"

lemma service_main_run:
  assumes "telemetry_ok (pl_otel S) name" "never_stopped S"
  shows "run_state (service_main S name conf msg service) p = (Exit 1,
    p\<lparr>p_events := p_events p @ setup_events name @ startup_events S conf service, p_shutdownFuncs := providers name\<rparr>)"
proof (cases "GetConfiguration (pl_env S) (ParseConfig (pl_pgx S))")
  case (Inl e)
  then show ?thesis
    by (simp add: service_main_def startup_events_def setup_success_run [OF assms(1)] deferred_def fatal_def proc_simps)
next
  case (Inr cfg)
  obtain e where e: "pl_Serve S = Some e" using assms(2) by (auto simp: never_stopped_def)
  show ?thesis
  proof (cases "pool_ok (pl_pgx S) (conf cfg)")
    case False
    from pool_fail_run [OF this] obtain e where pool: "\<And>q. run_state (CreateDBConnectionPool (pl_pgx S) (conf cfg)) q =
      (Inl e, q\<lparr>p_events := p_events q @ (if NewWithConfig (pl_pgx S) (conf cfg) = None then [Opened Pool, Closed Pool] else [])\<rparr>)"
      by blast
    with False Inr show ?thesis
      by (simp add: service_main_def startup_events_def setup_success_run [OF assms(1)] deferred_def fatal_def proc_simps)
  next
    case True
    with Inr e show ?thesis
      by (cases "pl_Listen S listen_address")
        (simp_all add: service_main_def startup_events_def setup_success_run [OF assms(1)] pool_ok_run deferred_def fatal_def
          serve_on_def proc_simps)
  qed
qed

lemma service_main_no_telemetry:
  assumes "\<not> telemetry_ok (pl_otel S) name" "p_events p = []"
  shows "\<exists>evs p'. run_state (service_main S name conf msg service) p = (Exit 1, p') \<and>
    closed_as_opened evs \<and> Served service \<notin> set evs \<and> p_events p' = evs @ [Logged msg]"
proof -
  obtain e p1 where run: "run_state (SetupOTelSDK (pl_otel S) name) p = (Some e, p1)"
    using setup_failure [OF assms(1)] by blast
  have "Served service \<notin> set (p_events p1)"
    using run assms(2) by (auto simp: telemetry_defs proc_simps split: option.splits)
  with setup_failure_closes [OF run assms(2)] run show ?thesis
    by (auto simp: service_main_def fatal_def proc_simps)
qed

text \<open>An exporter that was created before the other one of the logger provider failed is not shut
  down by anyone.\<close>

lemma stdout_exporter_failure_leaks:
  assumes "resource_Merge K (service_resource name) = None" "exporter_New K StdoutLog = Some e"
    and "list_all (\<lambda>x. exporter_New K x = None) [OtlpTrace, OtlpMetric, OtlpLog]" "p_events p = []"
  shows "left_open (p_events (snd (run_state (SetupOTelSDK K name) p))) = [Exporter OtlpLog]"
  using assms by (simp add: telemetry_defs proc_simps left_open_def released_def)

text \<open>The document service logs under the name of the user service.\<close>

lemma document_service_logger_name:
  "telemetry_ok K ''document-service'' \<Longrightarrow>
   Installed (Slot_slog ''user_service'') \<in> set (p_events (snd (run_state (doc_SetupOTelSDK K) p)))"
  by (simp add: doc_SetupOTelSDK_def setup_success_run setup_events_def)

text \<open>A pool opens a connection to answer a ping, and a connection whose hook fails is not used: a
  document service that got as far as serving could read the enumerations of the schema.\<close>

lemma document_service_has_types:
  assumes "\<And>cfg f. cfg_AfterConnect cfg = Some f \<Longrightarrow> Ping (pl_pgx S) cfg = None \<Longrightarrow> \<exists>types. f [] = Inr types"
    and "never_stopped S" "p_events p = []" "Served ''DocumentService'' \<in> set (p_events (snd (run_state (doc_main S) p)))"
  shows "\<exists>types. LoadTypes (pl_pgx S) registered_types = Inr types"
proof -
  have tel: "telemetry_ok (pl_otel S) ''document-service''"
  proof (rule ccontr)
    assume "\<not> ?thesis"
    from service_main_no_telemetry [OF this assms(3), of "doc_pool_config S" "''failed to bootstrap the otel sdk: ''"
        "''DocumentService''"] assms(4)
    show False unfolding mains by auto
  qed
  obtain cfg where "Ping (pl_pgx S) (doc_pool_config S cfg) = None"
    using assms(3,4) service_main_run [OF tel assms(2)] unfolding mains
    by (auto simp: startup_events_def setup_events_def pool_ok_def split: sum.splits if_splits)
  with assms(1) [of "doc_pool_config S cfg"] show ?thesis
    by (auto simp: doc_pool_config_def RegisterTypes_def checked_Inr_iff)
qed

section \<open>Properties\<close>

text \<open>C23: every registered clean-up is invoked exactly once: a set-up of the telemetry that fails has shut
  down each provider it had created, once; after a set-up that succeeds the first call of the
  function it returned does so; further calls do nothing.\<close>

theorem otel_cleanup_once:
  assumes "p_events p = []" "run_state (SetupOTelSDK K name) p = (err, p1)" "err \<noteq> None \<or> 0 < n"
  shows "closed_as_opened (p_events (snd (run_state (shutdown_times K n) p1)))"
proof (cases err)
  case (Some e)
  then have "p_shutdownFuncs p1 = []" using setup_shutdownFuncs [OF assms(2)] by simp
  with setup_failure_closes assms(1,2) Some show ?thesis by (simp add: shutdown_times_idle)
next
  case None
  have "telemetry_ok K name" using setup_failure [of K name p] assms(2) None by auto
  note p1 = setup_success_run [OF this, of p, unfolded assms(2)]
  obtain m where "n = Suc m" using assms(3) None by (cases n) auto
  moreover obtain err' where "run_state (shutdown K) p1 =
      (err', p1\<lparr>p_events := p_events p1 @ map Closed (providers name), p_shutdownFuncs := []\<rparr>)"
    using shutdown_providers [of p1 name] p1 by auto
  ultimately show ?thesis
    using p1 assms(1)
    by (auto simp: shutdown_times_idle closed_as_opened_def setup_events_def providers_def Let_def)
qed

text \<open>A platform for the witnesses, given how its exporters, the listener and the server end.\<close>

definition demo_platform :: "(exporter \<Rightarrow> go_err option) \<Rightarrow> go_err option \<Rightarrow> platform" where
  "demo_platform x listen = \<lparr> pl_env = demo_environment,
     pl_otel = \<lparr> resource_Merge = (\<lambda>_. None), exporter_New = x, provider_Shutdown = (\<lambda>_. Some (GoErr ''timeout'')) \<rparr>,
     pl_pgx = \<lparr> ParseConfig = plain_ParseConfig, NewWithConfig = (\<lambda>_. None), RecordStats = None, Ping = (\<lambda>_. None),
       LoadTypes = Inr \<rparr>,
     pl_Listen = (\<lambda>_. listen), pl_Serve = Some (GoErr ''accept''), pl_NewClient = (\<lambda>_. None), 
     pl_spec = \<lparr> base64_StdDecode = Inr, gzip_NewReader = Inr, buf_ReadFrom = Inr, LoadFromData = (\<lambda>_. Inr) \<rparr>,
     pl_swaggerSpec = [''openapi'', '': 3.0.0''] \<rparr>"

definition idle_process :: process where
  "idle_process = \<lparr> p_events = [], p_shutdownFuncs = [] \<rparr>"

theorem otel_cleanup_once_witness:
  "closed_as_opened (p_events (snd (run_state (shutdown_times (pl_otel (demo_platform
     (\<lambda>x. if x = OtlpLog then Some (GoErr ''refused'') else None) None)) 2)
     (snd (run_state (SetupOTelSDK (pl_otel (demo_platform
     (\<lambda>x. if x = OtlpLog then Some (GoErr ''refused'') else None) None)) ''user-service'') idle_process)))))"
  by (rule otel_cleanup_once [OF _ prod.collapse [symmetric]]) (simp_all add: idle_process_def)

lemma service_main_ends:
  assumes "never_stopped S" "p_events p = []" "run_state (service_main S name conf msg service) p = (r, p')"
  shows "r = Exit 1 \<and> (\<exists>msg. last (p_events p') = Logged msg) \<and>
    (telemetry_ok (pl_otel S) name \<longrightarrow> set (providers name) \<subseteq> set (left_open (p_events p'))) \<and>
    (\<not> telemetry_ok (pl_otel S) name \<longrightarrow> closed_as_opened (p_events p')) \<and>
    (Served service \<in> set (p_events p') \<longrightarrow> set (Pool # providers name) \<subseteq> set (left_open (p_events p')) \<and>
       last (p_events p') = Logged ''failed to serve'')"
proof (cases "telemetry_ok (pl_otel S) name")
  case True
  with assms(2,3) service_main_run [OF this assms(1), of conf msg service p]
  have r: "r = Exit 1" and p': "p_events p' = setup_events name @ startup_events S conf service" by auto
  have up: "set (providers name) \<subseteq> set (left_open (p_events p'))"
    unfolding p' by (auto simp: left_open_iff released_iff startup_events_def setup_events_def providers_def Let_def
        split: sum.splits if_splits)
  have msg: "\<exists>msg. last (p_events p') = Logged msg"
    unfolding p' by (simp add: startup_events_def split: sum.split)
  have "Pool \<in> set (left_open (p_events p')) \<and> last (p_events p') = Logged ''failed to serve''"
    if "Served service \<in> set (p_events p')"
    using that unfolding p' left_open_iff released_iff [of Pool, simplified]
    by (auto simp: startup_events_def setup_events_def split: sum.splits if_splits)
  with r up msg True show ?thesis by auto
next
  case False
  from service_main_no_telemetry [OF this assms(2), of conf msg service] assms(3) False show ?thesis
    by (auto simp: closed_as_opened_def)
qed



text \<open>The gateway does not notice that it cannot listen: the error of \<^verbatim>\<open>ListenAndServe\<close> is dropped, nothing
  is logged and the process ends as if it had been stopped.\<close>

lemma gateway_listen_failure_silent:
  assumes "pl_NewClient S = (\<lambda>_. None)" "GetSwagger (pl_spec S) (pl_swaggerSpec S) = Inr spec" "pl_Listen S ''0.0.0.0:8000'' = Some err" "p_events p = []"
  shows "\<exists>p'. run_state (gateway_boot S) p = (Return, p') \<and>
    p_events p' = [Opened (ClientConn (UserServiceAddr (pl_env S))), Opened (ClientConn (DocumentServiceAddr (pl_env S)))]"
  using assms
  by (simp add: gateway_boot_def NewUserServiceClient_def NewDocumentServiceClient_def new_client_def
      RequestValidationMiddleware_def ListenAndServe_def run_check proc_simps)

text \<open>A gateway whose embedded description cannot be unpacked or loaded panics before it listens.\<close>

lemma gateway_needs_description:
  assumes "pl_NewClient S = (\<lambda>_. None)" "p_events p = []"
    and "decodeSpec (pl_spec S) (pl_swaggerSpec S) = Inl e \<or>
      decodeSpec (pl_spec S) (pl_swaggerSpec S) = Inr text \<and> (\<forall>f. LoadFromData (pl_spec S) f text = Inl e)"
  shows "\<exists>p'. run_state (gateway_boot S) p = (Exit 2, p') \<and> Served ''gateway'' \<notin> set (p_events p')"
  using assms
  by (auto simp: gateway_boot_def NewUserServiceClient_def NewDocumentServiceClient_def new_client_def
      RequestValidationMiddleware_def GetSwagger_cases run_check proc_simps)

end
