(* ===== verification/Grpc_Server.thy ===== *)
theory Grpc_Server
  imports Clients
begin

text \<open>
  The gRPC server of the user service between the wire and the handlers: the interceptors
  (\<^verbatim>\<open>user_service/pkg/middleware\<close>), their chain, the generated method handlers and service
  descriptor (\<^verbatim>\<open>user_service/api/user_grpc.pb.go\<close>) and the server that
  \<^verbatim>\<open>user_service/cmd/server/main.go\<close> registers them on. A call has the connection of the
  repository and the header metadata it will answer with. The protobuf codec is a parameter.
\<close>

section \<open>Calls and interceptors\<close>

record rpc_context =
  ctx_TraceID :: "uuid option"       \<comment> \<open>the trace identifier of the span, if it has one\<close>

record 'd rpc_call =
  call_conn :: "'d conn"
  call_header :: "(string \<times> string) list"

definition on_conn :: "('d, 'a) db_op \<Rightarrow> ('d rpc_call, 'a) state" where
  "on_conn m = State (\<lambda>s. case run_state m (call_conn s) of (x, c) \<Rightarrow> (x, s\<lparr>call_conn := c\<rparr>))"

type_synonym ('q, 's, 'a) UnaryHandler = "rpc_context \<Rightarrow> 'q \<Rightarrow> ('s, 'a) state"
type_synonym ('q, 's, 'a) UnaryServerInterceptor =
  "rpc_context \<Rightarrow> 'q \<Rightarrow> string \<Rightarrow> ('q, 's, 'a) UnaryHandler \<Rightarrow> ('s, 'a) state"

definition grpc_SetHeader :: "string \<times> string \<Rightarrow> ('d rpc_call, unit) state" where
  "grpc_SetHeader md = State (\<lambda>s. ((), s\<lparr>call_header := call_header s @ [md]\<rparr>))"

definition traceIdKey :: string where "traceIdKey = ''x-reed-request-id''"
definition traceIdUnknown :: string where "traceIdUnknown = ''unknown''"

text \<open>The debug message of the first interceptor is left out.\<close>

definition LoggingInterceptor :: "('q, 's, 'a) UnaryServerInterceptor" where
  "LoggingInterceptor ctx req FullMethod handler = handler ctx req"

definition TraceIdInterceptor :: "env \<Rightarrow> ('q, 'd rpc_call, 'a) UnaryServerInterceptor" where
  "TraceIdInterceptor E ctx req FullMethod handler =
     (case ctx_TraceID ctx of
        Some traceId \<Rightarrow> do { grpc_SetHeader (traceIdKey, uuid_String E traceId); handler ctx req }
      | None \<Rightarrow> do { grpc_SetHeader (traceIdKey, traceIdUnknown); handler ctx req })"

text \<open>\<^verbatim>\<open>grpc.ChainUnaryInterceptor\<close>: the first interceptor is the outermost.\<close>

fun ChainUnaryInterceptor :: "('q, 's, 'a) UnaryServerInterceptor list \<Rightarrow> ('q, 's, 'a) UnaryServerInterceptor" where
  "ChainUnaryInterceptor [] ctx req info handler = handler ctx req"
| "ChainUnaryInterceptor (i # is) ctx req info handler =
     i ctx req info (\<lambda>ctx req. ChainUnaryInterceptor is ctx req info handler)"

section \<open>The generated code\<close>

definition UserService_GetUser_FullMethodName :: string where
  "UserService_GetUser_FullMethodName = ''/api.UserService/GetUser''"
definition UserService_CreateUser_FullMethodName :: string where
  "UserService_CreateUser_FullMethodName = ''/api.UserService/CreateUser''"
definition UserService_DeactivateUser_FullMethodName :: string where
  "UserService_DeactivateUser_FullMethodName = ''/api.UserService/DeactivateUser''"
definition UserService_ChangeUserPassword_FullMethodName :: string where
  "UserService_ChangeUserPassword_FullMethodName = ''/api.UserService/ChangeUserPassword''"
definition UserService_ValidatePassword_FullMethodName :: string where
  "UserService_ValidatePassword_FullMethodName = ''/api.UserService/ValidatePassword''"

text \<open>Messages: the interceptors and the handlers see them as values of one type, and a handler
  asserts that it is given a message of its own method, which panics otherwise.\<close>

datatype user_in =
    In_GetUser string | In_CreateUser CreateUserRequest | In_DeactivateUser string
  | In_ChangeUserPassword ChangeUserPasswordRequest | In_ValidatePassword ValidatePasswordRequest

datatype user_out =
    Out_User pb_User | Out_CreateUser string | Out_Empty | Out_ValidatePassword ValidatePasswordReply

record UserServiceServer =
  srv_GetUser :: "string \<Rightarrow> pb_User user_rpc"
  srv_CreateUser :: "CreateUserRequest \<Rightarrow> string user_rpc"
  srv_DeactivateUser :: "string \<Rightarrow> unit user_rpc"
  srv_ChangeUserPassword :: "ChangeUserPasswordRequest \<Rightarrow> unit user_rpc"
  srv_ValidatePassword :: "ValidatePasswordRequest \<Rightarrow> ValidatePasswordReply user_rpc"

record user_codec =
  dec_GetUser :: "string \<Rightarrow> string option"
  dec_CreateUser :: "string \<Rightarrow> CreateUserRequest option"
  dec_DeactivateUser :: "string \<Rightarrow> string option"
  dec_ChangeUserPassword :: "string \<Rightarrow> ChangeUserPasswordRequest option"
  dec_ValidatePassword :: "string \<Rightarrow> ValidatePasswordRequest option"

datatype user_failure = UFailed user_status | UPanic

type_synonym user_result = "user_failure + user_out"
type_synonym user_call = "user_db rpc_call"
type_synonym user_interceptor = "(user_in, user_call, user_result) UnaryServerInterceptor"

definition reply_with :: "('a \<Rightarrow> user_out) \<Rightarrow> 'a user_rpc \<Rightarrow> (user_call, user_result) state" where
  "reply_with f m = on_conn (check m UFailed (\<lambda>x. State_Monad.return (Inr (f x))))"

text \<open>The shape of the five generated handlers: decode into the request type of the method, then
  call the method, through the interceptor when there is one. A message that cannot be decoded
  is answered with the error of the decoder.\<close>

definition method_handler ::
  "string \<Rightarrow> (string \<Rightarrow> 'q option) \<Rightarrow> ('q \<Rightarrow> user_in) \<Rightarrow> (user_in \<Rightarrow> (user_call, user_result) state) \<Rightarrow>
   user_interceptor option \<Rightarrow> rpc_context \<Rightarrow> string \<Rightarrow> (user_call, user_result) state" where
  "method_handler FullMethod dec into srv_method interceptor ctx bytes =
     (case dec bytes of
        None \<Rightarrow> State_Monad.return (Inl (UFailed (UStatus Code_Internal None)))
      | Some req \<Rightarrow> (case interceptor of
          None \<Rightarrow> srv_method (into req)
        | Some i \<Rightarrow> i ctx (into req) FullMethod (\<lambda>ctx req. srv_method req)))"

fun GetUser_method :: "UserServiceServer \<Rightarrow> user_in \<Rightarrow> (user_call, user_result) state" where
  "GetUser_method srv (In_GetUser req) = reply_with Out_User (srv_GetUser srv req)"
| "GetUser_method srv _ = State_Monad.return (Inl UPanic)"

fun CreateUser_method :: "UserServiceServer \<Rightarrow> user_in \<Rightarrow> (user_call, user_result) state" where
  "CreateUser_method srv (In_CreateUser req) = reply_with Out_CreateUser (srv_CreateUser srv req)"
| "CreateUser_method srv _ = State_Monad.return (Inl UPanic)"

fun DeactivateUser_method :: "UserServiceServer \<Rightarrow> user_in \<Rightarrow> (user_call, user_result) state" where
  "DeactivateUser_method srv (In_DeactivateUser req) = reply_with (\<lambda>_. Out_Empty) (srv_DeactivateUser srv req)"
| "DeactivateUser_method srv _ = State_Monad.return (Inl UPanic)"

fun ChangeUserPassword_method :: "UserServiceServer \<Rightarrow> user_in \<Rightarrow> (user_call, user_result) state" where
  "ChangeUserPassword_method srv (In_ChangeUserPassword req) = reply_with (\<lambda>_. Out_Empty) (srv_ChangeUserPassword srv req)"
| "ChangeUserPassword_method srv _ = State_Monad.return (Inl UPanic)"

fun ValidatePassword_method :: "UserServiceServer \<Rightarrow> user_in \<Rightarrow> (user_call, user_result) state" where
  "ValidatePassword_method srv (In_ValidatePassword req) = reply_with Out_ValidatePassword (srv_ValidatePassword srv req)"
| "ValidatePassword_method srv _ = State_Monad.return (Inl UPanic)"

definition GetUser_Handler where
  "GetUser_Handler srv K = method_handler UserService_GetUser_FullMethodName (dec_GetUser K) In_GetUser (GetUser_method srv)"

definition CreateUser_Handler where
  "CreateUser_Handler srv K =
     method_handler UserService_CreateUser_FullMethodName (dec_CreateUser K) In_CreateUser (CreateUser_method srv)"

definition DeactivateUser_Handler where
  "DeactivateUser_Handler srv K =
     method_handler UserService_DeactivateUser_FullMethodName (dec_DeactivateUser K) In_DeactivateUser (DeactivateUser_method srv)"

definition ChangeUserPassword_Handler where
  "ChangeUserPassword_Handler srv K =
     method_handler UserService_ChangeUserPassword_FullMethodName (dec_ChangeUserPassword K) In_ChangeUserPassword
       (ChangeUserPassword_method srv)"

definition ValidatePassword_Handler where
  "ValidatePassword_Handler srv K =
     method_handler UserService_ValidatePassword_FullMethodName (dec_ValidatePassword K) In_ValidatePassword
       (ValidatePassword_method srv)"

definition UserService_ServiceDesc ::
  "UserServiceServer \<Rightarrow> user_codec \<Rightarrow> (string \<times> (user_interceptor option \<Rightarrow> rpc_context \<Rightarrow> string \<Rightarrow>
     (user_call, user_result) state)) list" where
  "UserService_ServiceDesc srv K = [
     (''GetUser'', GetUser_Handler srv K), (''CreateUser'', CreateUser_Handler srv K),
     (''DeactivateUser'', DeactivateUser_Handler srv K), (''ChangeUserPassword'', ChangeUserPassword_Handler srv K),
     (''ValidatePassword'', ValidatePassword_Handler srv K)]"

section \<open>The server\<close>

text \<open>\<^verbatim>\<open>grpc.Server\<close> takes the service and the method from the path of the call, at its last slash;
  a service or a method that is not registered is unimplemented.\<close>

definition service_and_method :: "string \<Rightarrow> string \<times> string" where
  "service_and_method FullMethod =
     (let sm = (case FullMethod of CHR ''/'' # r \<Rightarrow> r | _ \<Rightarrow> FullMethod); back = rev sm;
          method = rev (takeWhile (\<lambda>c. c \<noteq> CHR ''/'') back) in
      (rev (drop (Suc (length method)) back), method))"

definition grpc_handle ::
  "UserServiceServer \<Rightarrow> user_codec \<Rightarrow> user_interceptor option \<Rightarrow> rpc_context \<Rightarrow> string \<Rightarrow> string \<Rightarrow>
   (user_call, user_result) state" where
  "grpc_handle srv K interceptor ctx FullMethod bytes =
     (case service_and_method FullMethod of (service, method) \<Rightarrow>
        (if service \<noteq> ''api.UserService'' then State_Monad.return (Inl (UFailed (UStatus Code_Unimplemented None)))
         else case map_of (UserService_ServiceDesc srv K) method of
             None \<Rightarrow> State_Monad.return (Inl (UFailed (UStatus Code_Unimplemented None)))
           | Some handler \<Rightarrow> handler interceptor ctx bytes))"

definition NewUserServiceImpl :: "UserRepository \<Rightarrow> env \<Rightarrow> bcrypt \<Rightarrow> UserServiceServer" where
  "NewUserServiceImpl repo E B = \<lparr> srv_GetUser = urpc_GetUser repo E, srv_CreateUser = urpc_CreateUser repo E B,
     srv_DeactivateUser = urpc_DeactivateUser repo E, srv_ChangeUserPassword = urpc_ChangeUserPassword,
     srv_ValidatePassword = urpc_ValidatePassword repo E B \<rparr>"

text \<open>The server of \<^verbatim>\<open>main\<close>.\<close>

definition user_grpc_server ::
  "UserRepository \<Rightarrow> env \<Rightarrow> bcrypt \<Rightarrow> user_codec \<Rightarrow> rpc_context \<Rightarrow> string \<Rightarrow> string \<Rightarrow> (user_call, user_result) state" where
  "user_grpc_server repo E B K =
     grpc_handle (NewUserServiceImpl repo E B) K (Some (ChainUnaryInterceptor [TraceIdInterceptor E, LoggingInterceptor]))"

section \<open>Transparent interceptors\<close>

text \<open>The contract of the interceptors: the handler runs once, on the request as it came, and its
  result is the result; only the header may grow before.\<close>

locale transparent_interceptor =
  fixes i :: "('q, 'd rpc_call, 'a) UnaryServerInterceptor" and header :: "rpc_context \<Rightarrow> (string \<times> string) list"
  assumes runs_handler:
    "run_state (i ctx req info handler) s = run_state (handler ctx req) (s\<lparr>call_header := call_header s @ header ctx\<rparr>)"

locale transparent_pair = outer: transparent_interceptor i f + inner: transparent_interceptor j g
  for i :: "('q, 'd rpc_call, 'a) UnaryServerInterceptor" and f and j :: "('q, 'd rpc_call, 'a) UnaryServerInterceptor" and g
begin

lemma chain_runs_handler:
  "run_state (ChainUnaryInterceptor [i, j] ctx req info handler) s =
    run_state (handler ctx req) (s\<lparr>call_header := call_header s @ f ctx @ g ctx\<rparr>)"
  by (simp add: outer.runs_handler inner.runs_handler)

end

definition request_id_header :: "env \<Rightarrow> rpc_context \<Rightarrow> (string \<times> string) list" where
  "request_id_header E ctx = [(''x-reed-request-id'', case ctx_TraceID ctx of None \<Rightarrow> ''unknown'' | Some t \<Rightarrow> uuid_String E t)]"

interpretation logging: transparent_interceptor LoggingInterceptor "\<lambda>_. []"
  by unfold_locales (simp add: LoggingInterceptor_def)

interpretation trace_id: transparent_interceptor "TraceIdInterceptor E" "request_id_header E" for E
  by unfold_locales
    (simp add: TraceIdInterceptor_def request_id_header_def grpc_SetHeader_def traceIdKey_def traceIdUnknown_def
      split: option.split)

interpretation trace_log: transparent_pair "TraceIdInterceptor E" "request_id_header E" LoggingInterceptor "\<lambda>_. []" for E ..

section \<open>Properties\<close>

text \<open>What a call means, without a server in between: the name the client calls and the bytes it
  sends stand for a message, and the message for a method of the service.\<close>

definition user_message :: "user_codec \<Rightarrow> string \<Rightarrow> string \<Rightarrow> user_in option" where
  "user_message K FullMethod bytes =
     (if FullMethod = UserService_GetUser_FullMethodName then map_option In_GetUser (dec_GetUser K bytes)
      else if FullMethod = UserService_CreateUser_FullMethodName then map_option In_CreateUser (dec_CreateUser K bytes)
      else if FullMethod = UserService_DeactivateUser_FullMethodName then map_option In_DeactivateUser (dec_DeactivateUser K bytes)
      else if FullMethod = UserService_ChangeUserPassword_FullMethodName
        then map_option In_ChangeUserPassword (dec_ChangeUserPassword K bytes)
      else if FullMethod = UserService_ValidatePassword_FullMethodName
        then map_option In_ValidatePassword (dec_ValidatePassword K bytes)
      else None)"

definition answered :: "('a \<Rightarrow> user_out) \<Rightarrow> 'a user_rpc \<Rightarrow> (user_db, user_result) db_op" where
  "answered f m = check m UFailed (\<lambda>x. State_Monad.return (Inr (f x)))"

fun user_rpc_of :: "UserRepository \<Rightarrow> env \<Rightarrow> bcrypt \<Rightarrow> user_in \<Rightarrow> (user_db, user_result) db_op" where
  "user_rpc_of repo E B (In_GetUser req) = answered Out_User (urpc_GetUser repo E req)"
| "user_rpc_of repo E B (In_CreateUser req) = answered Out_CreateUser (urpc_CreateUser repo E B req)"
| "user_rpc_of repo E B (In_DeactivateUser req) = answered (\<lambda>_. Out_Empty) (urpc_DeactivateUser repo E req)"
| "user_rpc_of repo E B (In_ChangeUserPassword req) = answered (\<lambda>_. Out_Empty) (urpc_ChangeUserPassword req)"
| "user_rpc_of repo E B (In_ValidatePassword req) = answered Out_ValidatePassword (urpc_ValidatePassword repo E B req)"

lemmas FullMethodNames = UserService_GetUser_FullMethodName_def UserService_CreateUser_FullMethodName_def
  UserService_DeactivateUser_FullMethodName_def UserService_ChangeUserPassword_FullMethodName_def
  UserService_ValidatePassword_FullMethodName_def

lemmas method_handlers = GetUser_Handler_def CreateUser_Handler_def DeactivateUser_Handler_def
  ChangeUserPassword_Handler_def ValidatePassword_Handler_def

lemma run_on_conn:
  "run_state (on_conn m) s = (case run_state m (call_conn s) of (x, c) \<Rightarrow> (x, s\<lparr>call_conn := c\<rparr>))"
  by (simp add: on_conn_def)

text \<open>C18: a call of the user service that is sent under one of the generated method names reaches the
  handler of that method through both interceptors: the answer and the effect on the database are
  those of the handler on the message that was sent, and the answer carries the trace identifier
  of the call, or \<^verbatim>\<open>unknown\<close>, in its header.\<close>

theorem user_calls_reach_handlers:
  assumes "user_message K FullMethod bytes = Some msg"
  shows "run_state (user_grpc_server repo E B K ctx FullMethod bytes) s =
    (case run_state (user_rpc_of repo E B msg) (call_conn s) of
       (r, c) \<Rightarrow> (r, s\<lparr>call_conn := c, call_header := call_header s @ request_id_header E ctx\<rparr>))"
proof -
  have "service_and_method UserService_GetUser_FullMethodName = (''api.UserService'', ''GetUser'')"
    "service_and_method UserService_CreateUser_FullMethodName = (''api.UserService'', ''CreateUser'')"
    "service_and_method UserService_DeactivateUser_FullMethodName = (''api.UserService'', ''DeactivateUser'')"
    "service_and_method UserService_ChangeUserPassword_FullMethodName = (''api.UserService'', ''ChangeUserPassword'')"
    "service_and_method UserService_ValidatePassword_FullMethodName = (''api.UserService'', ''ValidatePassword'')"
    by (simp_all add: FullMethodNames service_and_method_def)
  with assms show ?thesis
    by (auto simp: user_message_def user_grpc_server_def grpc_handle_def UserService_ServiceDesc_def method_handlers
        method_handler_def trace_log.chain_runs_handler reply_with_def answered_def run_on_conn NewUserServiceImpl_def
        simp del: ChainUnaryInterceptor.simps split: if_splits prod.split)
qed

text \<open>A codec that decodes one message, for the witnesses.\<close>

definition demo_codec :: user_codec where
  "demo_codec = \<lparr> dec_GetUser = Some, dec_CreateUser = (\<lambda>_. None), dec_DeactivateUser = Some,
     dec_ChangeUserPassword = (\<lambda>_. None),
     dec_ValidatePassword = (\<lambda>_. Some \<lparr> vpr_UserName = ''alice'', vpr_UserPassword = ''old-secret'' \<rparr>) \<rparr>"

theorem user_calls_reach_handlers_witness:
  "\<exists>c. run_state (user_grpc_server pg_user_repository demo_env_users demo_bcrypt demo_codec \<lparr> ctx_TraceID = None \<rparr>
       ''/api.UserService/ValidatePassword'' ''bytes'') \<lparr> call_conn = demo_users, call_header = [] \<rparr> =
     (Inr (Out_ValidatePassword \<lparr> vpy_UserId = Some (uuid_String demo_env_users 7), vpy_IsValid = True \<rparr>),
      \<lparr> call_conn = c, call_header = [(''x-reed-request-id'', ''unknown'')] \<rparr>)"
proof -
  let ?req = "\<lparr> vpr_UserName = ''alice'', vpr_UserPassword = ''old-secret'' \<rparr>"
  have msg: "user_message demo_codec ''/api.UserService/ValidatePassword'' ''bytes'' = Some (In_ValidatePassword ?req)"
    by (simp add: user_message_def FullMethodNames demo_codec_def)
  obtain c where "run_state (urpc_ValidatePassword pg_user_repository demo_env_users demo_bcrypt ?req) demo_users =
      (Inr \<lparr> vpy_UserId = Some (uuid_String demo_env_users 7), vpy_IsValid = True \<rparr>, c)"
    using login_run [OF demo_users_ok(1,2) _ _ prod.collapse [symmetric], of ?req demo_env_users demo_bcrypt] demo_users_ok(3)
    by (cases "run_state (urpc_ValidatePassword pg_user_repository demo_env_users demo_bcrypt ?req) demo_users")
      (simp add: demo_users_def serviceToRepository_def demo_bcrypt_def)
  then show ?thesis
    by (simp add: user_calls_reach_handlers [OF msg] answered_def run_check request_id_header_def)
qed

end
