(* ===== verification/User_Interleaving.thy ===== *)
theory User_Interleaving
  imports User_Service
begin

text \<open>
  Password changes that run at the same time. \<^verbatim>\<open>ModifyPassword\<close>
  (\<^verbatim>\<open>user_service/internal/repository/user_repository.go\<close>) reads the row with
  \<^verbatim>\<open>SELECT ... FOR UPDATE\<close> inside its transaction, so that another change of the same account has
  to wait for the commit. Here a change is a process that takes one step per call of the driver,
  under a fault or none, and any number of them interleave, together with the other requests that
  write the table. A row that is locked blocks the statements that would lock or write it; a
  change keeps its new value to itself until it commits (\<^verbatim>\<open>READ COMMITTED\<close>).
\<close>

section \<open>Processes\<close>

record change =
  ch_env :: env
  ch_bcrypt :: bcrypt
  ch_userId :: uuid
  ch_oldPassword :: string
  ch_newPassword :: string

text \<open>Where the function is: before \<^verbatim>\<open>Begin\<close>, before the select, before the update (with the new
  hash), before the commit, returned.\<close>

datatype pc = Start | Begun | Locked string | Written string | Finished "user_err + unit"

datatype other_request =
    Other_DeactivateUser env uuid
  | Other_CreateUser env bcrypt string string int32 string

datatype log_entry = Changed nat "user_err + unit" | Other other_request

record conc =
  cs_users :: user_db                  \<comment> \<open>the committed table\<close>
  cs_lock :: "uuid \<rightharpoonup> nat"             \<comment> \<open>which process holds the lock of a row\<close>
  cs_pcs :: "pc list"
  cs_log :: "log_entry list"           \<comment> \<open>the requests that have ended, in order\<close>

definition goto :: "nat \<Rightarrow> pc \<Rightarrow> conc \<Rightarrow> conc" where
  "goto k l S = S\<lparr>cs_pcs := (cs_pcs S)[k := l]\<rparr>"

text \<open>Returning runs the deferred rollback, which gives the lock back if there is one.\<close>

definition release :: "nat \<Rightarrow> conc \<Rightarrow> conc" where
  "release k S = S\<lparr>cs_lock := (\<lambda>i. if cs_lock S i = Some k then None else cs_lock S i)\<rparr>"

definition finish :: "nat \<Rightarrow> user_err + unit \<Rightarrow> conc \<Rightarrow> conc" where
  "finish k res S = (goto k (Finished res) (release k S))\<lparr>cs_log := cs_log S @ [Changed k res]\<rparr>"

definition new_password :: "change \<Rightarrow> string \<Rightarrow> user_db \<Rightarrow> user_db" where
  "new_password ch h = set_user (ch_userId ch)
     (\<lambda>r. r\<lparr>u_hashed_password := h, u_last_modified := Some (db_NOW (ch_env ch))\<rparr>)"

definition step_Begin :: "nat \<Rightarrow> conc \<Rightarrow> conc option" where
  "step_Begin k S = Some (goto k Begun S)"

definition step_GetUserForUpdate :: "change \<Rightarrow> nat \<Rightarrow> conc \<Rightarrow> conc option" where
  "step_GetUserForUpdate ch k S =
     (case find (\<lambda>r. u_id r = ch_userId ch) (cs_users S) of
        None \<Rightarrow> Some (finish k (Inl UNotFoundError) S)
      | Some user \<Rightarrow>
          if cs_lock S (ch_userId ch) \<noteq> None then None
          else if \<not> CompareHashAndPassword (ch_bcrypt ch) (u_hashed_password user) (ch_oldPassword ch)
          then Some (finish k (Inl (UPasswordMismatchError UBcrypt)) S)
          else (case hash_password (ch_bcrypt ch) (ch_newPassword ch) of
              Inl e \<Rightarrow> Some (finish k (Inl (URepoImplError (Some e))) S)
            | Inr newHashedPassword \<Rightarrow>
                Some (goto k (Locked newHashedPassword) (S\<lparr>cs_lock := (cs_lock S)(ch_userId ch \<mapsto> k)\<rparr>))))"

definition step_ChangeUserPassword :: "string \<Rightarrow> nat \<Rightarrow> conc \<Rightarrow> conc option" where
  "step_ChangeUserPassword h k S =
     (if utf8_length h > 255 then Some (finish k (Inl (urepo_impl (PgError string_data_right_truncation))) S)
      else Some (goto k (Written h) S))"

definition step_Commit :: "change \<Rightarrow> string \<Rightarrow> nat \<Rightarrow> conc \<Rightarrow> conc option" where
  "step_Commit ch h k S = Some (finish k (Inr ()) (S\<lparr>cs_users := new_password ch h (cs_users S)\<rparr>))"

text \<open>One call of the driver. A call that fails makes the function return; a commit whose reply is
  lost has taken effect.\<close>

definition change_step :: "change \<Rightarrow> nat \<Rightarrow> fault \<Rightarrow> conc \<Rightarrow> conc option" where
  "change_step ch k f S = (case (cs_pcs S ! k, f) of
      (Finished _, _) \<Rightarrow> None
    | (Start, Healthy) \<Rightarrow> step_Begin k S
    | (Begun, Healthy) \<Rightarrow> step_GetUserForUpdate ch k S
    | (Locked h, Healthy) \<Rightarrow> step_ChangeUserPassword h k S
    | (Written h, Healthy) \<Rightarrow> step_Commit ch h k S
    | (Written h, LostReply x) \<Rightarrow>
        Some (finish k (Inl (urepo_impl (outage_err x))) (S\<lparr>cs_users := new_password ch h (cs_users S)\<rparr>))
    | (_, LostReply x) \<Rightarrow> Some (finish k (Inl (urepo_impl (outage_err x))) S)
    | (_, Refused x) \<Rightarrow> Some (finish k (Inl (urepo_impl (outage_err x))) S))"

text \<open>The other writers are single statements; the update waits for the lock of its row.\<close>

definition other_step :: "other_request \<Rightarrow> conc \<Rightarrow> conc option" where
  "other_step q S = (case q of
      Other_DeactivateUser E i \<Rightarrow>
        if cs_lock S i \<noteq> None then None
        else Some (S\<lparr>cs_users := snd (uspec_DeactivateUser E i (cs_users S)), cs_log := cs_log S @ [Other q]\<rparr>)
    | Other_CreateUser E B name email n p \<Rightarrow>
        Some (S\<lparr>cs_users := snd (uspec_CreateUser E B name email n p (cs_users S)), cs_log := cs_log S @ [Other q]\<rparr>))"

definition conc_init :: "change list \<Rightarrow> user_db \<Rightarrow> conc" where
  "conc_init chs d = \<lparr> cs_users = d, cs_lock = Map.empty, cs_pcs = replicate (length chs) Start, cs_log = [] \<rparr>"

inductive conc_reach :: "change list \<Rightarrow> user_db \<Rightarrow> conc \<Rightarrow> bool" for chs d where
  init: "conc_reach chs d (conc_init chs d)"
| change: "conc_reach chs d S \<Longrightarrow> k < length chs \<Longrightarrow> change_step (chs ! k) k f S = Some S' \<Longrightarrow> conc_reach chs d S'"
| other: "conc_reach chs d S \<Longrightarrow> other_step q S = Some S' \<Longrightarrow> conc_reach chs d S'"

section \<open>One process alone is the repository operation\<close>

fun alone :: "change \<Rightarrow> nat \<Rightarrow> fault list \<Rightarrow> conc \<Rightarrow> conc" where
  "alone ch 0 fs S = S"
| "alone ch (Suc n) fs S = (case change_step ch 0 (case fs of [] \<Rightarrow> Healthy | f # _ \<Rightarrow> f) S of
      None \<Rightarrow> S | Some S' \<Rightarrow> alone ch n (tl fs) S')"

lemmas step_defs = change_step_def step_Begin_def step_GetUserForUpdate_def step_ChangeUserPassword_def step_Commit_def
  finish_def goto_def release_def

text \<open>The faults of the four calls, as both sides read them off the schedule.\<close>

definition fault_at :: "nat \<Rightarrow> fault list \<Rightarrow> fault" where
  "fault_at n fs = (if n < length fs then fs ! n else Healthy)"

lemma fault_at_simps [simp]: "fault_at 0 [] = Healthy" "fault_at 0 (f # fs) = f" "fault_at (Suc n) fs = fault_at n (tl fs)"
  "(case fs of [] \<Rightarrow> Healthy | f # _ \<Rightarrow> f) = fault_at 0 fs"
  by (auto simp: fault_at_def nth_tl split: list.split)

lemma next_fault_at: "next_fault c = (fault_at 0 (faults c), c\<lparr>faults := tl (faults c)\<rparr>)"
  by (cases c) (auto simp: next_fault_def split: list.split)

lemma alone_is_ModifyPassword:
  assumes run: "run_state (urepo_ModifyPassword (ch_env ch) (ch_bcrypt ch) (ch_userId ch) (ch_oldPassword ch) (ch_newPassword ch))
    \<lparr> tables = d, snapshot = None, faults = fs \<rparr> = (res, c)"
  shows "cs_pcs (alone ch 4 fs (conc_init [ch] d)) = [Finished res] \<and> cs_users (alone ch 4 fs (conc_init [ch] d)) = tables c"
proof -
  note defs = urepo_ModifyPassword_def run_check Begin_def Commit_def driver_def defer_Rollback_def Rollback_def
    next_fault_at sql_defs select_one_def update_one_def u_not_found_or_impl_def set_user_def new_password_def
    conc_init_def step_defs numeral_eq_Suc hash_password_def
  define f where "f = (\<lambda>n. fault_at n fs)"
  have f: "fault_at 0 fs = f 0" "fault_at 0 (tl fs) = f 1" "fault_at 0 (tl (tl fs)) = f 2" "fault_at 0 (tl (tl (tl fs))) = f 3"
    by (simp_all add: f_def numeral_eq_Suc)
  show ?thesis
  proof (cases "f 0 = Healthy \<and> f 1 = Healthy")
    case False
    then show ?thesis using run by (cases "f 0"; cases "f 1") (auto simp: defs f)
  next
    case ok: True
    show ?thesis
    proof (cases "find (\<lambda>r. u_id r = ch_userId ch) d")
      case None
      then show ?thesis using run ok by (auto simp: defs f)
    next
      case (Some r)
      then have r: "u_id r = ch_userId ch" "\<exists>x \<in> set d. u_id x = ch_userId ch" by (auto simp: find_Some_iff)
      show ?thesis
      proof (cases "CompareHashAndPassword (ch_bcrypt ch) (u_hashed_password r) (ch_oldPassword ch) \<and>
          GenerateFromPassword (ch_bcrypt ch) (ch_newPassword ch) \<noteq> None")
        case False
        then show ?thesis using run ok Some by (auto simp: defs f)
      next
        case True
        then obtain h where h: "GenerateFromPassword (ch_bcrypt ch) (ch_newPassword ch) = Some h"
          "CompareHashAndPassword (ch_bcrypt ch) (u_hashed_password r) (ch_oldPassword ch)" by auto
        show ?thesis
          using run ok Some r h by (cases "f 2"; cases "255 < utf8_length h"; cases "f 3") (auto simp: defs f)
      qed
    qed
  qed
qed

section \<open>Invariants of the lock\<close>

abbreviation owner_pc :: "pc \<Rightarrow> string \<Rightarrow> bool" where
  "owner_pc l h \<equiv> l = Locked h \<or> l = Written h"

text \<open>The holder of a lock has read the row as it still is, with the right old password.\<close>

definition may_write :: "change \<Rightarrow> string \<Rightarrow> user_db \<Rightarrow> bool" where
  "may_write ch h d \<longleftrightarrow> (\<exists>r. find (\<lambda>r. u_id r = ch_userId ch) d = Some r \<and>
     CompareHashAndPassword (ch_bcrypt ch) (u_hashed_password r) (ch_oldPassword ch) \<and>
     GenerateFromPassword (ch_bcrypt ch) (ch_newPassword ch) = Some h)"

definition conc_inv :: "change list \<Rightarrow> conc \<Rightarrow> bool" where
  "conc_inv chs S \<longleftrightarrow> length (cs_pcs S) = length chs \<and>
     (\<forall>k h. k < length chs \<longrightarrow> owner_pc (cs_pcs S ! k) h \<longrightarrow>
        cs_lock S (ch_userId (chs ! k)) = Some k \<and> may_write (chs ! k) h (cs_users S)) \<and>
     (\<forall>k h. k < length chs \<longrightarrow> cs_pcs S ! k = Written h \<longrightarrow> utf8_length h \<le> 255) \<and>
     (\<forall>i k. cs_lock S i = Some k \<longrightarrow> k < length chs \<and> ch_userId (chs ! k) = i \<and> (\<exists>h. owner_pc (cs_pcs S ! k) h))"

lemma conc_invD:
  assumes "conc_inv chs S"
  shows "length (cs_pcs S) = length chs"
    and "k < length chs \<Longrightarrow> owner_pc (cs_pcs S ! k) h \<Longrightarrow>
      cs_lock S (ch_userId (chs ! k)) = Some k \<and> may_write (chs ! k) h (cs_users S)"
    and "k < length chs \<Longrightarrow> cs_pcs S ! k = Written h \<Longrightarrow> utf8_length h \<le> 255"
    and "cs_lock S i = Some k \<Longrightarrow> k < length chs \<and> ch_userId (chs ! k) = i \<and> (\<exists>h. owner_pc (cs_pcs S ! k) h)"
  using assms unfolding conc_inv_def by blast+

lemma inv_log [simp]: "conc_inv chs (S\<lparr>cs_log := es\<rparr>) = conc_inv chs S"
  by (simp add: conc_inv_def)

lemma inv_finish:
  assumes "conc_inv chs S" "k < length chs"
  shows "conc_inv chs (finish k res S)"
proof -
  note I = conc_invD [OF assms(1)]
  show ?thesis
    unfolding conc_inv_def
  proof (intro conjI allI impI, goal_cases)
    case 1 show ?case using I(1) by (simp add: finish_def goto_def release_def)
  next
    case (2 j h)
    with I(1) assms(2) have "j \<noteq> k" "owner_pc (cs_pcs S ! j) h"
      by (auto simp: finish_def goto_def release_def nth_list_update split: if_splits)
    with I(2) [OF 2(1)] show ?case by (simp add: finish_def goto_def release_def)
  next
    case (3 j h)
    with I(1) assms(2) have "j \<noteq> k" "owner_pc (cs_pcs S ! j) h"
      by (auto simp: finish_def goto_def release_def nth_list_update split: if_splits)
    with I(2) [OF 3(1)] show ?case by (simp add: finish_def goto_def release_def)
  next
    case (4 j h)
    with I(1) assms(2) have "cs_pcs S ! j = Written h"
      by (auto simp: finish_def goto_def release_def nth_list_update split: if_splits)
    with I(3) 4(1) show ?case by simp
  next
    case (5 i j)
    then have "cs_lock S i = Some j" "j \<noteq> k" by (auto simp: finish_def goto_def release_def split: if_splits)
    with I(4) show ?case by simp
  next
    case (6 i j)
    then have "cs_lock S i = Some j" "j \<noteq> k" by (auto simp: finish_def goto_def release_def split: if_splits)
    with I(4) show ?case by simp
  next
    case (7 i j)
    then have "cs_lock S i = Some j" "j \<noteq> k" by (auto simp: finish_def goto_def release_def split: if_splits)
    with I(4) show ?case by (simp add: finish_def goto_def release_def)
  qed
qed

lemma inv_users:
  assumes "conc_inv chs S" "\<And>i. cs_lock S i \<noteq> None \<Longrightarrow> find (\<lambda>r. u_id r = i) d' = find (\<lambda>r. u_id r = i) (cs_users S)"
  shows "conc_inv chs (S\<lparr>cs_users := d'\<rparr>)"
  using assms unfolding conc_inv_def may_write_def by (auto; fastforce)

lemma find_other_row:
  "(\<And>r. u_id (f r) = u_id r) \<Longrightarrow> j \<noteq> i \<Longrightarrow> find (\<lambda>r. u_id r = j) (set_user i f d) = find (\<lambda>r. u_id r = j) d"
  by (induction d) (auto simp: set_user_def)

lemma finish_simps [simp]:
  "cs_users (finish k res S) = cs_users S" "cs_log (finish k res S) = cs_log S @ [Changed k res]"
  "cs_pcs (finish k res S) = (cs_pcs S)[k := Finished res]"
  "finish k res (S\<lparr>cs_users := d\<rparr>) = (finish k res S)\<lparr>cs_users := d\<rparr>"
  by (cases S; simp add: finish_def goto_def release_def cong: if_cong)+

lemma finish_lock: "cs_lock (finish k res S) i \<noteq> Some k" "cs_lock (finish k res S) i = Some j \<Longrightarrow> cs_lock S i = Some j"
  by (auto simp: finish_def goto_def release_def split: if_splits)

lemma goto_simps [simp]:
  "cs_users (goto k l S) = cs_users S" "cs_log (goto k l S) = cs_log S" "cs_pcs (goto k l S) = (cs_pcs S)[k := l]"
  "cs_lock (goto k l S) = cs_lock S"
  by (simp_all add: goto_def)

text \<open>The end of a change, seen from the table: it is the specification, or a failure of the
  connection that left the table alone or changed it as the specification does.\<close>

definition ends_as_spec :: "change \<Rightarrow> user_db \<Rightarrow> user_err + unit \<Rightarrow> user_db \<Rightarrow> bool" where
  "ends_as_spec ch d res d' \<longleftrightarrow>
     (let spec = uspec_ModifyPassword (ch_env ch) (ch_bcrypt ch) (ch_userId ch) (ch_oldPassword ch) (ch_newPassword ch) d in
      (res, d') = spec \<or> (\<exists>e. res = Inl e \<and> u_outage e) \<and> (d' = d \<or> d' = snd spec))"

lemma may_write_spec:
  assumes "may_write ch h d"
  shows "utf8_length h \<le> 255 \<Longrightarrow> uspec_ModifyPassword (ch_env ch) (ch_bcrypt ch) (ch_userId ch) (ch_oldPassword ch)
      (ch_newPassword ch) d = (Inr (), new_password ch h d)"
    and "255 < utf8_length h \<Longrightarrow> uspec_ModifyPassword (ch_env ch) (ch_bcrypt ch) (ch_userId ch) (ch_oldPassword ch)
      (ch_newPassword ch) d = (Inl (urepo_impl (PgError string_data_right_truncation)), d)"
  using assms by (auto simp: may_write_def uspec_ModifyPassword_def new_password_def)

lemma u_outage_urepo [simp]: "u_outage (urepo_impl (outage_err x))"
  by (auto simp: u_outage_def)

lemma inv_goto:
  assumes "conc_inv chs S" "k < length chs" "\<And>h. \<not> owner_pc (cs_pcs S ! k) h" "l = Begun \<or> l = Start"
  shows "conc_inv chs (goto k l S)"
proof -
  note I = conc_invD [OF assms(1)]
  have "cs_lock S i \<noteq> Some k" for i using I(4) [of i k] assms(3) by blast
  with I assms(2-4) show ?thesis unfolding conc_inv_def by (auto simp: nth_list_update)
qed

text \<open>What a step of a process does: it moves on without touching the table, or it returns.\<close>

definition moves :: "nat \<Rightarrow> conc \<Rightarrow> conc \<Rightarrow> bool" where
  "moves k S S' \<longleftrightarrow> cs_users S' = cs_users S \<and> cs_log S' = cs_log S \<and>
     (\<exists>l. cs_pcs S' = (cs_pcs S)[k := l] \<and> (\<forall>res. l \<noteq> Finished res))"

definition returns_as :: "change \<Rightarrow> nat \<Rightarrow> conc \<Rightarrow> conc \<Rightarrow> bool" where
  "returns_as ch k S S' \<longleftrightarrow> (\<exists>res. ends_as_spec ch (cs_users S) res (cs_users S') \<and>
     cs_log S' = cs_log S @ [Changed k res] \<and> cs_pcs S' = (cs_pcs S)[k := Finished res])"

lemma returns_finish: "ends_as_spec ch (cs_users S) res (cs_users S) \<Longrightarrow> returns_as ch k S (finish k res S)"
  by (auto simp: returns_as_def)

lemma returns_outage: "returns_as ch k S (finish k (Inl (urepo_impl (outage_err x))) S)"
  by (rule returns_finish) (auto simp: ends_as_spec_def Let_def)

lemma commit_refines:
  assumes "conc_inv chs S" "k < length chs" "cs_pcs S ! k = Written h"
    and "res = Inr () \<or> (\<exists>x. res = Inl (urepo_impl (outage_err x)))"
  shows "conc_inv chs ((finish k res S)\<lparr>cs_users := new_password (chs ! k) h (cs_users S)\<rparr>)"
    and "returns_as (chs ! k) k S ((finish k res S)\<lparr>cs_users := new_password (chs ! k) h (cs_users S)\<rparr>)"
proof -
  have own: "cs_lock S (ch_userId (chs ! k)) = Some k" "may_write (chs ! k) h (cs_users S)" "utf8_length h \<le> 255"
    using conc_invD(2,3) [OF assms(1,2)] assms(3) by auto
  show "conc_inv chs ((finish k res S)\<lparr>cs_users := new_password (chs ! k) h (cs_users S)\<rparr>)"
  proof (rule inv_users [OF inv_finish [OF assms(1,2)]])
    fix i assume "cs_lock (finish k res S) i \<noteq> None"
    with finish_lock [of k res S i] own(1) have "i \<noteq> ch_userId (chs ! k)" by (cases "cs_lock (finish k res S) i") auto
    then show "find (\<lambda>r. u_id r = i) (new_password (chs ! k) h (cs_users S)) = find (\<lambda>r. u_id r = i) (cs_users (finish k res S))"
      by (simp add: new_password_def find_other_row)
  qed
  have "ends_as_spec (chs ! k) (cs_users S) res (new_password (chs ! k) h (cs_users S))"
    using assms(4) may_write_spec(1) [OF own(2,3)] by (auto simp: ends_as_spec_def Let_def)
  then show "returns_as (chs ! k) k S ((finish k res S)\<lparr>cs_users := new_password (chs ! k) h (cs_users S)\<rparr>)"
    by (auto simp: returns_as_def)
qed

lemma read_refines:
  assumes inv: "conc_inv chs S" and k: "k < length chs" and pc: "cs_pcs S ! k = Begun"
    and step: "step_GetUserForUpdate (chs ! k) k S = Some S'"
  shows "conc_inv chs S' \<and> (moves k S S' \<or> returns_as (chs ! k) k S S')"
proof (cases "\<exists>h. S' = goto k (Locked h) (S\<lparr>cs_lock := (cs_lock S)(ch_userId (chs ! k) \<mapsto> k)\<rparr>) \<and>
    cs_lock S (ch_userId (chs ! k)) = None \<and> may_write (chs ! k) h (cs_users S)")
  case True
  then obtain h where h: "S' = goto k (Locked h) (S\<lparr>cs_lock := (cs_lock S)(ch_userId (chs ! k) \<mapsto> k)\<rparr>)"
    "cs_lock S (ch_userId (chs ! k)) = None" "may_write (chs ! k) h (cs_users S)" by blast
  have "conc_inv chs S'"
    unfolding h(1) conc_inv_def using conc_invD [OF inv] k h(2,3) pc
    by (auto simp: nth_list_update) (metis option.distinct(1))+
  moreover have "moves k S S'" unfolding moves_def h(1) by auto
  ultimately show ?thesis by simp
next
  case False
  then obtain res where "S' = finish k res S" "ends_as_spec (chs ! k) (cs_users S) res (cs_users S)"
    using step
    by (auto simp: step_GetUserForUpdate_def hash_password_def may_write_def ends_as_spec_def uspec_ModifyPassword_def
        split: option.splits if_splits)
  with inv_finish [OF inv k] returns_finish show ?thesis by blast
qed

lemma update_refines:
  assumes inv: "conc_inv chs S" and k: "k < length chs" and pc: "cs_pcs S ! k = Locked h"
    and step: "step_ChangeUserPassword h k S = Some S'"
  shows "conc_inv chs S' \<and> (moves k S S' \<or> returns_as (chs ! k) k S S')"
proof -
  have own: "cs_lock S (ch_userId (chs ! k)) = Some k" "may_write (chs ! k) h (cs_users S)"
    using conc_invD(2) [OF inv k] pc by auto
  show ?thesis
  proof (cases "255 < utf8_length h")
    case True
    with step inv_finish [OF inv k] may_write_spec(2) [OF own(2) True] show ?thesis
      by (auto simp: step_ChangeUserPassword_def ends_as_spec_def intro!: returns_finish)
  next
    case False
    with step have S': "S' = goto k (Written h) S" by (simp add: step_ChangeUserPassword_def)
    note I = conc_invD [OF inv]
    have same: "owner_pc ((cs_pcs S)[k := Written h] ! j) h' \<longleftrightarrow> owner_pc (cs_pcs S ! j) h'" if "j < length chs" for j h'
      using pc that k I(1) by (cases "j = k") auto
    have "conc_inv chs S'"
      unfolding S' conc_inv_def goto_simps
    proof (intro conjI allI impI, goal_cases)
      case (4 j h')
      then show ?case using False k I(1) I(3) [of j h'] by (cases "j = k") auto
    next
      case (7 i j)
      then show ?case using I(4) [of i j] same by blast
    qed (use I same in \<open>auto dest: I(4)\<close>)
    then show ?thesis unfolding moves_def S' by auto
  qed
qed

lemma change_step_refines:
  assumes inv: "conc_inv chs S" and k: "k < length chs" and step: "change_step (chs ! k) k f S = Some S'"
  shows "conc_inv chs S' \<and> (moves k S S' \<or> returns_as (chs ! k) k S S') \<and> (\<forall>res. cs_pcs S ! k \<noteq> Finished res)"
proof (cases "cs_pcs S ! k")
  case Start
  then show ?thesis
    using step inv_goto [OF inv k, of Begun] inv_finish [OF inv k] returns_outage
    by (cases f) (auto simp: change_step_def step_Begin_def moves_def)
next
  case Begun
  then show ?thesis
    using step read_refines [OF inv k Begun] inv_finish [OF inv k] returns_outage
    by (cases f) (auto simp: change_step_def)
next
  case (Locked h)
  then show ?thesis
    using step update_refines [OF inv k Locked] inv_finish [OF inv k] returns_outage
    by (cases f) (auto simp: change_step_def)
next
  case (Written h)
  then show ?thesis
    using step commit_refines [OF inv k Written] inv_finish [OF inv k] returns_outage
    by (cases f) (auto simp: change_step_def step_Commit_def)
next
  case (Finished r)
  with step show ?thesis by (simp add: change_step_def)
qed

section \<open>Histories\<close>

fun other_spec :: "other_request \<Rightarrow> user_db \<Rightarrow> user_db" where
  "other_spec (Other_DeactivateUser E i) d = snd (uspec_DeactivateUser E i d)"
| "other_spec (Other_CreateUser E B name email n p) d = snd (uspec_CreateUser E B name email n p d)"

text \<open>A history of requests that run one after the other, each as its specification says.\<close>

inductive serial :: "change list \<Rightarrow> user_db \<Rightarrow> log_entry list \<Rightarrow> user_db \<Rightarrow> bool" for chs d where
  nil: "serial chs d [] d"
| changed: "serial chs d es d1 \<Longrightarrow> k < length chs \<Longrightarrow> ends_as_spec (chs ! k) d1 res d2 \<Longrightarrow>
    serial chs d (es @ [Changed k res]) d2"
| other: "serial chs d es d1 \<Longrightarrow> serial chs d (es @ [Other q]) (other_spec q d1)"

lemma other_step_spec:
  assumes "other_step q S = Some S'"
  shows "S' = S\<lparr>cs_users := other_spec q (cs_users S), cs_log := cs_log S @ [Other q]\<rparr>"
  using assms by (cases q) (auto simp: other_step_def split: if_splits)

lemma find_set_user:
  assumes "\<And>r. u_id (f r) = u_id r"
  shows "find (\<lambda>r. u_id r = i) (set_user i f d) = map_option f (find (\<lambda>r. u_id r = i) d)"
  using assms by (induction d) (auto simp: set_user_def)

text \<open>The other requests leave the passwords alone, and the rows that are locked.\<close>

lemma other_spec_row:
  assumes "find (\<lambda>r. u_id r = i) d = Some r"
  shows "\<exists>r'. find (\<lambda>r. u_id r = i) (other_spec q d) = Some r' \<and> u_hashed_password r' = u_hashed_password r"
proof (cases q)
  case (Other_DeactivateUser E j)
  with assms show ?thesis
    by (cases "j = i") (auto simp: uspec_DeactivateUser_def find_set_user find_other_row)
next
  case (Other_CreateUser E B name email n p)
  with assms show ?thesis by (auto simp: uspec_CreateUser_def find_append_old split: option.split)
qed

lemma other_step_inv:
  assumes inv: "conc_inv chs S" and step: "other_step q S = Some S'"
  shows "conc_inv chs S'"
proof -
  have "find (\<lambda>r. u_id r = i) (other_spec q (cs_users S)) = find (\<lambda>r. u_id r = i) (cs_users S)" if lock: "cs_lock S i \<noteq> None" for i
  proof (cases q)
    case (Other_DeactivateUser E j)
    with step lock have "j \<noteq> i" by (auto simp: other_step_def split: if_splits)
    with Other_DeactivateUser show ?thesis by (auto simp: uspec_DeactivateUser_def find_other_row)
  next
    case (Other_CreateUser E B name email n p)
    from lock obtain k where "cs_lock S i = Some k" by auto
    from conc_invD(4) [OF inv this] conc_invD(2) [OF inv] obtain h where "may_write (chs ! k) h (cs_users S)" "ch_userId (chs ! k) = i"
      by blast
    with Other_CreateUser show ?thesis by (auto simp: may_write_def uspec_CreateUser_def find_append_old split: option.split)
  qed
  from inv_users [OF inv this] show ?thesis by (simp add: other_step_spec [OF step])
qed

lemma reach_inv: "conc_reach chs d S \<Longrightarrow> conc_inv chs S"
proof (induction rule: conc_reach.induct)
  case init
  then show ?case by (simp add: conc_inv_def conc_init_def)
next
  case (change S k f S')
  with change_step_refines show ?case by blast
next
  case (other S q S')
  with other_step_inv show ?case by blast
qed

section \<open>Properties\<close>

text \<open>C5: password changes that run at the same time, together with registrations and deactivations, under
  any faults, behave as if the requests had run one after the other in the order in which they
  ended, each as its specification says; what a change returned is what it returned in that
  history.\<close>

theorem concurrent_changes_serialise:
  assumes "conc_reach chs d S"
  shows "serial chs d (cs_log S) (cs_users S) \<and>
    (\<forall>k < length chs. \<forall>res. cs_pcs S ! k = Finished res \<longleftrightarrow> Changed k res \<in> set (cs_log S))"
  using assms
proof (induction rule: conc_reach.induct)
  case init
  then show ?case by (simp add: conc_init_def serial.nil)
next
  case (change S k f S')
  have len: "length (cs_pcs S) = length chs" using conc_invD(1) reach_inv change.hyps(1) by blast
  from change_step_refines [OF reach_inv [OF change.hyps(1)] change.hyps(2,3)]
  have "moves k S S' \<or> returns_as (chs ! k) k S S'" "\<forall>res. cs_pcs S ! k \<noteq> Finished res" by simp_all
  then show ?case
  proof (elim disjE)
    assume "moves k S S'"
    then show ?thesis using change.IH change.hyps(2) len \<open>\<forall>res. cs_pcs S ! k \<noteq> Finished res\<close>
      by (auto simp: moves_def nth_list_update split: if_splits)
  next
    assume "returns_as (chs ! k) k S S'"
    then obtain res where res: "ends_as_spec (chs ! k) (cs_users S) res (cs_users S')"
      "cs_log S' = cs_log S @ [Changed k res]" "cs_pcs S' = (cs_pcs S)[k := Finished res]"
      by (auto simp: returns_as_def)
    with change.IH have "serial chs d (cs_log S') (cs_users S')"
      by (auto intro: serial.changed [OF _ change.hyps(2)])
    moreover have "\<forall>j < length chs. \<forall>res'. cs_pcs S' ! j = Finished res' \<longleftrightarrow> Changed j res' \<in> set (cs_log S')"
      using change.IH change.hyps(2) len res(2,3) \<open>\<forall>res. cs_pcs S ! k \<noteq> Finished res\<close> by (auto simp: nth_list_update)
    ultimately show ?thesis ..
  qed
next
  case (other S q S')
  then show ?case by (auto simp: other_step_spec [OF other.hyps(2)] intro: serial.other)
qed

text \<open>Two changes of one account with the same old password, for the witnesses; they alternate, and
  the second has to wait for the commit of the first.\<close>

definition demo_change :: "string \<Rightarrow> change" where
  "demo_change new = \<lparr> ch_env = demo_env_users, ch_bcrypt = demo_bcrypt, ch_userId = 7, ch_oldPassword = ''old-secret'',
     ch_newPassword = new \<rparr>"

definition demo_changes :: "change list" where
  "demo_changes = [demo_change ''first-secret'', demo_change ''other-secret'']"

fun schedule :: "change list \<Rightarrow> nat list \<Rightarrow> conc \<Rightarrow> conc option" where
  "schedule chs [] S = Some S"
| "schedule chs (k # ks) S = (if k < length chs then
     (case change_step (chs ! k) k Healthy S of None \<Rightarrow> None | Some S' \<Rightarrow> schedule chs ks S') else None)"

lemma schedule_reach: "conc_reach chs d S \<Longrightarrow> schedule chs ks S = Some S' \<Longrightarrow> conc_reach chs d S'"
  by (induction chs ks S rule: schedule.induct) (auto intro: conc_reach.change split: if_splits option.splits)

lemma demo_interleaving:
  "\<exists>S. schedule demo_changes [0, 1, 0, 0, 0, 1] (conc_init demo_changes (tables demo_users)) = Some S \<and>
     cs_pcs S = [Finished (Inr ()), Finished (Inl (UPasswordMismatchError UBcrypt))] \<and>
     schedule demo_changes [0, 1, 0, 1] (conc_init demo_changes (tables demo_users)) = None"
proof -
  let ?run = "\<lambda>ks. schedule demo_changes ks (conc_init demo_changes (tables demo_users))"
  have "map_option cs_pcs (?run [0, 1, 0, 0, 0, 1]) = Some [Finished (Inr ()), Finished (Inl (UPasswordMismatchError UBcrypt))]"
    by code_simp
  moreover have "map_option cs_pcs (?run [0, 1, 0, 1]) = None" by code_simp
  ultimately show ?thesis by auto
qed

theorem concurrent_changes_serialise_witness:
  "\<exists>S :: conc. cs_pcs S = [Finished (Inr ()), Finished (Inl (UPasswordMismatchError UBcrypt))] \<and>
     serial demo_changes (tables demo_users) (cs_log S) (cs_users S) \<and> Changed 0 (Inr ()) \<in> set (cs_log S)"
proof -
  obtain S where "schedule demo_changes [0, 1, 0, 0, 0, 1] (conc_init demo_changes (tables demo_users)) = Some S"
    and pcs: "cs_pcs S = [Finished (Inr ()), Finished (Inl (UPasswordMismatchError UBcrypt))]"
    using demo_interleaving by blast
  note ser = concurrent_changes_serialise [OF schedule_reach [OF conc_reach.init this(1)]]
  have "0 < length demo_changes" by (simp add: demo_changes_def)
  with ser have "cs_pcs S ! 0 = Finished (Inr ()) \<longleftrightarrow> Changed 0 (Inr ()) \<in> set (cs_log S)" by blast
  then have "Changed 0 (Inr ()) \<in> set (cs_log S)" by (simp add: pcs)
  with ser pcs show ?thesis by blast
qed

lemma no_deadlock:
  assumes "conc_reach chs d S" "k < length chs" "\<forall>res. cs_pcs S ! k \<noteq> Finished res"
  shows "\<exists>j < length chs. change_step (chs ! j) j Healthy S \<noteq> None"
proof -
  note inv = reach_inv [OF assms(1)]
  have owner: "change_step (chs ! j) j Healthy S \<noteq> None" if "owner_pc (cs_pcs S ! j) h" for j h
    using that by (auto simp: change_step_def step_ChangeUserPassword_def step_Commit_def)
  show ?thesis
  proof (cases "change_step (chs ! k) k Healthy S = None")
    case True
    with assms(3) obtain j where "cs_lock S (ch_userId (chs ! k)) = Some j"
      by (auto simp: change_step_def step_defs hash_password_def split: pc.splits option.splits if_splits)
    from conc_invD(4) [OF inv this] owner show ?thesis by blast
  qed (use assms(2) in blast)
qed

text \<open>How many calls of the driver a change still makes at most.\<close>

fun calls_left :: "pc \<Rightarrow> nat" where
  "calls_left Start = 4" | "calls_left Begun = 3" | "calls_left (Locked _) = 2" | "calls_left (Written _) = 1"
| "calls_left (Finished _) = 0"

definition returned :: "pc \<Rightarrow> bool" where
  "returned l \<longleftrightarrow> (\<exists>res. l = Finished res)"

lemma calls_left_step:
  assumes "change_step ch k f S = Some S'"
  shows "\<exists>l. cs_pcs S' = (cs_pcs S)[k := l] \<and> calls_left l < calls_left (cs_pcs S ! k)"
  using assms
  by (auto simp: change_step_def step_defs split: pc.splits fault.splits option.splits sum.splits if_splits)

lemma sum_calls_left_step:
  assumes "change_step ch k f S = Some S'" "k < length (cs_pcs S)"
  shows "sum_list (map calls_left (cs_pcs S')) < sum_list (map calls_left (cs_pcs S))"
proof -
  obtain l where l: "cs_pcs S' = (cs_pcs S)[k := l]" "calls_left l < calls_left (cs_pcs S ! k)"
    using calls_left_step [OF assms(1)] by blast
  have "calls_left (cs_pcs S ! k) \<le> sum_list (map calls_left (cs_pcs S))"
    using assms(2) by (simp add: member_le_sum_list)
  then show ?thesis
    using l assms(2) by (simp add: map_update sum_list_update)
qed

lemma schedule_bound:
  "conc_reach chs d S \<Longrightarrow> schedule chs ks S = Some S' \<Longrightarrow>
   length ks + sum_list (map calls_left (cs_pcs S')) \<le> sum_list (map calls_left (cs_pcs S))"
proof (induction chs ks S rule: schedule.induct)
  case (2 chs k ks S)
  then obtain T where T: "k < length chs" "change_step (chs ! k) k Healthy S = Some T" "schedule chs ks T = Some S'"
    by (auto split: if_splits option.splits)
  have "length (cs_pcs S) = length chs" using conc_invD(1) reach_inv 2(2) by blast
  with sum_calls_left_step [OF T(2)] T(1) have "sum_list (map calls_left (cs_pcs T)) < sum_list (map calls_left (cs_pcs S))"
    by simp
  with 2(1) [OF T(1,2) conc_reach.change [OF 2(2) T(1,2)] T(3)] show ?case by simp
qed simp

lemma calls_left_le: "sum_list (map calls_left ls) \<le> 4 * length ls"
proof (induction ls)
  case (Cons l ls)
  moreover have "calls_left l \<le> 4" by (cases l) simp_all
  ultimately show ?case by simp
qed simp

lemma schedule_snoc:
  "schedule chs ks S = Some S' \<Longrightarrow> schedule chs (ks @ [k]) S = schedule chs [k] S'"
  by (induction chs ks S rule: schedule.induct) (auto split: if_splits option.splits)

text \<open>C19: the changes always come to an end. From every state that faults and other requests may have led
  to, an order in which the changes make their calls has at most four calls per change, and as long as
  one of them has not returned it can be continued: the locks never block them all, and no scheduler
  can keep them from returning.\<close>

theorem concurrent_changes_end:
  assumes "conc_reach chs d S" "schedule chs ks S = Some S'"
  shows "length ks \<le> 4 * length chs \<and>
    (list_all returned (cs_pcs S') \<or> (\<exists>k. schedule chs (ks @ [k]) S \<noteq> None))"
proof -
  have len: "length (cs_pcs T) = length chs" if "conc_reach chs d T" for T using conc_invD(1) reach_inv that by blast
  note reach' = schedule_reach [OF assms]
  have "length ks \<le> 4 * length chs"
    using schedule_bound [OF assms] calls_left_le [of "cs_pcs S"] len [OF assms(1)] by simp
  moreover have "\<exists>k. schedule chs (ks @ [k]) S \<noteq> None" if "\<not> list_all returned (cs_pcs S')"
  proof -
    from that obtain k where "k < length chs" "\<forall>res. cs_pcs S' ! k \<noteq> Finished res"
      using len [OF reach'] by (auto simp: list_all_length returned_def)
    from no_deadlock [OF reach' this] obtain j where "j < length chs" "change_step (chs ! j) j Healthy S' \<noteq> None" by blast
    then have "schedule chs [j] S' \<noteq> None" by auto
    with schedule_snoc [OF assms(2)] show ?thesis by metis
  qed
  ultimately show ?thesis by blast
qed

theorem concurrent_changes_end_witness:
  "\<exists>S. schedule demo_changes [0, 1, 0, 0, 0, 1] (conc_init demo_changes (tables demo_users)) = Some S \<and>
     length [0, 1, 0, 0, 0, 1 :: nat] \<le> 4 * length demo_changes \<and>
     (\<exists>k. schedule demo_changes ([0, 1, 0] @ [k]) (conc_init demo_changes (tables demo_users)) \<noteq> None)"
proof -
  let ?run = "\<lambda>ks. schedule demo_changes ks (conc_init demo_changes (tables demo_users))"
  obtain S where S: "?run [0, 1, 0, 0, 0, 1] = Some S" using demo_interleaving by blast
  have "map_option cs_pcs (?run [0, 1, 0]) = Some [Locked ''$first-secret'', Begun]" by code_simp
  then obtain T where T: "?run [0, 1, 0] = Some T" "\<not> list_all returned (cs_pcs T)" by (auto simp: returned_def)
  show ?thesis
    using S concurrent_changes_end [OF conc_reach.init S] concurrent_changes_end [OF conc_reach.init T(1)] T(2) by blast
qed

text \<open>The row of an account whose password was changed away from an old one.\<close>

definition moved_on :: "bcrypt \<Rightarrow> uuid \<Rightarrow> string \<Rightarrow> user_db \<Rightarrow> bool" where
  "moved_on B i old d \<longleftrightarrow> (\<exists>r. find (\<lambda>r. u_id r = i) d = Some r \<and> \<not> CompareHashAndPassword B (u_hashed_password r) old)"

definition leaves_password :: "bcrypt \<Rightarrow> uuid \<Rightarrow> string \<Rightarrow> change \<Rightarrow> bool" where
  "leaves_password B i old ch \<longleftrightarrow> (ch_userId ch = i \<longrightarrow> bcrypt_ok (ch_bcrypt ch) \<and>
     CompareHashAndPassword (ch_bcrypt ch) = CompareHashAndPassword B \<and>
     plain_password (ch_newPassword ch) \<and> ch_newPassword ch \<noteq> old)"

lemma ends_Inr:
  assumes "ends_as_spec ch d (Inr ()) d'"
  obtains h where "may_write ch h d" "d' = new_password ch h d"
  using assms
  by (auto simp: ends_as_spec_def uspec_ModifyPassword_def may_write_def new_password_def Let_def split: option.splits if_splits)

lemma new_password_moved_on:
  assumes "leaves_password B (ch_userId ch) old ch" "plain_password old" "may_write ch h d"
  shows "moved_on B (ch_userId ch) old (new_password ch h d)"
proof -
  from assms(3) obtain r where r: "find (\<lambda>r. u_id r = ch_userId ch) d = Some r"
    "GenerateFromPassword (ch_bcrypt ch) (ch_newPassword ch) = Some h" by (auto simp: may_write_def)
  with assms(1,2) bcrypt_okD(4) [OF _ r(2)] show ?thesis
    by (auto simp: leaves_password_def moved_on_def new_password_def find_set_user)
qed

lemma ends_moved_on:
  assumes "ends_as_spec ch d res d'" "leaves_password B i old ch" "plain_password old" "moved_on B i old d"
  shows "moved_on B i old d'"
proof -
  have "d' = d \<or> (\<exists>h. may_write ch h d \<and> d' = new_password ch h d)"
    using assms(1)
    by (auto simp: ends_as_spec_def uspec_ModifyPassword_def may_write_def new_password_def Let_def split: option.splits if_splits)
  then show ?thesis
  proof (elim disjE exE conjE)
    fix h assume h: "may_write ch h d" "d' = new_password ch h d"
    show ?thesis
    proof (cases "ch_userId ch = i")
      case True
      with new_password_moved_on assms(2,3) h show ?thesis by blast
    next
      case False
      with h(2) assms(4) show ?thesis by (simp add: moved_on_def new_password_def find_other_row)
    qed
  qed (use assms(4) in simp)
qed

definition winners :: "change list \<Rightarrow> uuid \<Rightarrow> conc \<Rightarrow> nat set" where
  "winners chs i S = {k. k < length chs \<and> ch_userId (chs ! k) = i \<and> cs_pcs S ! k = Finished (Inr ())}"

lemma winners_move_on:
  assumes "conc_reach chs d S" "\<forall>ch \<in> set chs. leaves_password B i old ch" "plain_password old"
  shows "(winners chs i S \<noteq> {} \<longrightarrow> moved_on B i old (cs_users S)) \<and>
    (\<forall>j \<in> winners chs i S. \<forall>k \<in> winners chs i S. ch_oldPassword (chs ! j) = old \<longrightarrow> ch_oldPassword (chs ! k) = old \<longrightarrow> j = k)"
  using assms(1)
proof (induction rule: conc_reach.induct)
  case init
  then show ?case by (auto simp: winners_def conc_init_def)
next
  case (change S k f S')
  have len: "k < length (cs_pcs S)" using conc_invD(1) reach_inv change.hyps(1,2) by fastforce
  have lp: "leaves_password B i old (chs ! k)" using assms(2) change.hyps(2) by simp
  from change_step_refines [OF reach_inv [OF change.hyps(1)] change.hyps(2,3)]
  consider "moves k S S'" | "returns_as (chs ! k) k S S'" by blast
  then show ?case
  proof cases
    case 1
    then have "winners chs i S' \<subseteq> winners chs i S"
      using len by (auto simp: moves_def winners_def nth_list_update split: if_splits)
    with change.IH 1 show ?thesis unfolding moves_def by (metis (no_types, lifting) subsetD subset_empty)
  next
    case 2
    then obtain res where res: "ends_as_spec (chs ! k) (cs_users S) res (cs_users S')" "cs_pcs S' = (cs_pcs S)[k := Finished res]"
      by (auto simp: returns_as_def)
    show ?thesis
    proof (cases "res = Inr () \<and> ch_userId (chs ! k) = i")
      case True
      then obtain h where h: "may_write (chs ! k) h (cs_users S)" "cs_users S' = new_password (chs ! k) h (cs_users S)"
        using ends_Inr res(1) by blast
      with True lp new_password_moved_on [of B "chs ! k" old h "cs_users S"] assms(3)
      have moved: "moved_on B i old (cs_users S')" by simp
      have w: "winners chs i S' \<subseteq> insert k (winners chs i S)"
        using len by (auto simp: res(2) winners_def nth_list_update split: if_splits)
      have "ch_oldPassword (chs ! k) \<noteq> old" if "winners chs i S \<noteq> {}"
        using h(1) that change.IH True lp by (auto simp: may_write_def moved_on_def leaves_password_def)
      with w change.IH moved show ?thesis by (metis empty_iff insert_iff subsetD)
    next
      case False
      have "winners chs i S' \<subseteq> winners chs i S"
        using len False by (auto simp: res(2) winners_def nth_list_update split: if_splits)
      with change.IH ends_moved_on [OF res(1) lp assms(3)] show ?thesis by (metis (no_types, lifting) subsetD subset_empty)
    qed
  qed
next
  case (other S q S')
  have "winners chs i S' = winners chs i S" by (simp add: winners_def other_step_spec [OF other.hyps(2)])
  moreover have "moved_on B i old (cs_users S) \<Longrightarrow> moved_on B i old (cs_users S')"
    using other_spec_row by (fastforce simp: moved_on_def other_step_spec [OF other.hyps(2)])
  ultimately show ?case using other.IH by simp
qed

text \<open>C9: of the changes of an account that present the same old password, at most one succeeds, however
  they interleave, unless some change sets the account back to that password: no change is
  overwritten by one that did not know it.\<close>

theorem one_change_per_old_password:
  assumes "conc_reach chs d S" "\<forall>ch \<in> set chs. leaves_password B i old ch" "plain_password old"
    and "j < length chs" "k < length chs" "ch_userId (chs ! j) = i" "ch_userId (chs ! k) = i"
    and "ch_oldPassword (chs ! j) = old" "ch_oldPassword (chs ! k) = old"
    and "cs_pcs S ! j = Finished (Inr ())" "cs_pcs S ! k = Finished (Inr ())"
  shows "j = k"
  using winners_move_on [OF assms(1-3)] assms(4-) by (simp add: winners_def)

theorem one_change_per_old_password_witness:
  "\<exists>S. conc_reach demo_changes (tables demo_users) S \<and> cs_pcs S ! 0 = Finished (Inr ()) \<and> cs_pcs S ! 1 \<noteq> Finished (Inr ())"
proof -
  obtain S where S: "schedule demo_changes [0, 1, 0, 0, 0, 1] (conc_init demo_changes (tables demo_users)) = Some S"
    and pcs: "cs_pcs S = [Finished (Inr ()), Finished (Inl (UPasswordMismatchError UBcrypt))]"
    using demo_interleaving by blast
  note reach = schedule_reach [OF conc_reach.init S]
  have "\<forall>ch \<in> set demo_changes. leaves_password demo_bcrypt 7 ''old-secret'' ch"
    by (simp add: demo_changes_def demo_change_def leaves_password_def demo_bcrypt_ok plain_password_def)
  from one_change_per_old_password [OF reach this, of 0 1] pcs reach show ?thesis
    by (auto simp: demo_changes_def demo_change_def plain_password_def)
qed

end
