(* ===== verification/Doc_Typing.thy ===== *)
theory Doc_Typing
  imports Doc_Server
begin

text \<open>
  The types of the replies of the document service. The enumerations of the code are open
  32-bit numbers at each of its layers, so every conversion on the way out has a branch for an
  undeclared number, which ends in the status Internal. Over the schema of the database these
  branches are dead: the labels of a row come out as declared numbers of the service, the
  handlers turn them into declared numbers of the protocol, and a reading call that
  ends in Internal met a fault of the database.
\<close>

section \<open>Declared values\<close>

definition declared_permission :: "pb_Permission \<Rightarrow> bool" where
  "declared_permission p \<longleftrightarrow> pbr_PermissionLevel p \<in> {PERMISSION_VIEWER, PERMISSION_EDITOR, PERMISSION_OWNER} \<and>
     pbp_PrincipalType (pbr_Recipient p) \<in> {Principal_USER, Principal_GUEST}"

definition declared_document :: "pb_DocumentPermission \<Rightarrow> bool" where
  "declared_document x \<longleftrightarrow> pbdp_PermissionLevel x \<in> {PERMISSION_VIEWER, PERMISSION_EDITOR, PERMISSION_OWNER}"

definition declared_cursor :: "pb_Cursor \<Rightarrow> bool" where
  "declared_cursor pc \<longleftrightarrow> pbc_SortField pc \<in> {SORT_FIELD_CREATED_AT, SORT_FIELD_LAST_MODIFIED_AT} \<and>
     pbc_LastSeenTime pc \<noteq> None \<and> pbc_LastSeenDocumentId pc \<noteq> None"

text \<open>A reply has a type, and an internal error has an outage for a cause.\<close>

fun typed_reply :: "('a \<Rightarrow> bool) \<Rightarrow> doc_db conn \<Rightarrow> rpc_failure + 'a \<Rightarrow> bool" where
  "typed_reply P c (Inr x) \<longleftrightarrow> P x"
| "typed_reply P c (Inl (Status st _)) \<longleftrightarrow> (st = Code_Internal \<longrightarrow> faults c \<noteq> [])"
| "typed_reply P c (Inl Panic) \<longleftrightarrow> True"

section \<open>Rows of the store\<close>

definition typed_permission :: "Permission \<Rightarrow> bool" where
  "typed_permission p \<longleftrightarrow> perm_PermissionLevel p \<in> set AllPermissions \<and>
     perm_RecipientType p \<in> {Recipient_User, Recipient_Guest}"

lemma level_of_declared: "permission_level_label l \<Longrightarrow> level_of l \<in> set AllPermissions"
  by (cases l) (simp_all add: AllPermissions_def)

lemma recipient_of_declared: "recipient_type_label t \<Longrightarrow> recipient_of t \<in> {Recipient_User, Recipient_Guest}"
  by (cases t) simp_all

lemma typed_permission_of:
  "permission_level_label (p_permission_level r) \<Longrightarrow> recipient_type_label (p_recipient_type r) \<Longrightarrow>
   typed_permission (permission_of r)"
  using level_of_declared recipient_of_declared by (simp add: typed_permission_def permission_of_def)

lemma store_typed:
  assumes "db_ok d" "st_permissions (store d) k = Some p"
  shows "typed_permission p"
proof -
  from assms(2) obtain r where "r \<in> set (permissions d)" "p = permission_of r"
    by (auto simp: store_def perms_map_def dest!: map_of_SomeD)
  with assms(1) show ?thesis by (auto simp: db_ok_def intro: typed_permission_of)
qed

lemma typed_as_listed [simp]: "typed_permission (as_listed p) = typed_permission p"
  by (simp add: typed_permission_def as_listed_def)

section \<open>Conversions\<close>

lemma serviceToPbPermission_typed:
  "typed_permission p \<Longrightarrow> \<exists>q. serviceToPbPermission E p = Inr q \<and> declared_permission q"
  by (auto simp: typed_permission_def serviceToPbPermission_def AllPermissions_def conv_defs declared_permission_def)

lemma map_err_typed:
  assumes "\<And>x. x \<in> set xs \<Longrightarrow> \<exists>y. f x = Inr y \<and> P y"
  shows "\<exists>ys. map_err f xs = Inr ys \<and> list_all P ys"
  using assms by (induction xs) fastforce+

lemma serviceToPbDocuments_typed:
  "(\<And>x. x \<in> set xs \<Longrightarrow> dp_Permission x \<in> set AllPermissions) \<Longrightarrow>
   \<exists>ys. serviceToPbDocumentPermissionList E xs = Inr ys \<and> list_all declared_document ys"
  unfolding serviceToPbDocumentPermissionList_def
  by (rule map_err_typed) (auto simp: conv_defs AllPermissions_def declared_document_def)

lemma serviceToPbPermissions_typed:
  "(\<And>p. p \<in> set ps \<Longrightarrow> typed_permission p) \<Longrightarrow>
   \<exists>qs. serviceToPbPermissionList E ps = Inr qs \<and> list_all declared_permission qs"
  unfolding serviceToPbPermissionList_def by (rule map_err_typed) (rule serviceToPbPermission_typed)

lemma serviceToPbCursor_typed:
  "valid_sort cur \<Longrightarrow> \<exists>pc. serviceToPbCursor E cur = Inr pc \<and> declared_cursor pc"
  by (auto simp: valid_sort_def serviceToPbCursor_def conv_defs declared_cursor_def)

lemma parseServiceCursor_typed: "parseServiceCursor E pc = Inr cur \<Longrightarrow> valid_sort cur"
  by (auto simp: parseServiceCursor_def deref_def conv_defs valid_sort_def NewBeginningCursor_def
      split: option.splits if_splits sum.splits)

lemma pbToServiceLevels_typed: "pbToServicePermissionLevelList ls = Inr xs \<Longrightarrow> set xs \<subseteq> set AllPermissions"
  unfolding pbToServicePermissionLevelList_def map_err_Inr_iff
  by (induction rule: list_all2_induct) (auto simp: conv_defs AllPermissions_def split: if_splits)

lemma next_cursor_sort:
  "valid_sort cur \<Longrightarrow> valid_sort (documents_cursor cur xs)"
  "valid_sort cur \<Longrightarrow> valid_sort (permissions_cursor cur ps)"
  by (simp_all add: valid_sort_def documents_cursor_def permissions_cursor_def Let_def)

section \<open>Pages\<close>

lemma is_page_item: "is_page key items k n xs \<Longrightarrow> x \<in> set xs \<Longrightarrow> x \<in> items"
  by (auto simp: is_page_def)

lemma visible_document_level: "x \<in> visible_documents u ls s \<Longrightarrow> dp_Permission x \<in> set ls"
  by (auto simp: visible_documents_def)

lemma visible_permission_typed: "db_ok d \<Longrightarrow> p \<in> visible_permissions i ls (store d) \<Longrightarrow> typed_permission p"
  unfolding visible_permissions_def by (blast dest: store_typed)

section \<open>Handlers\<close>

text \<open>A reading call: its arguments are parsed, the service is asked and its answer is converted.\<close>

lemma typed_reply_check_pure:
  assumes "\<And>e. r = Inl e \<Longrightarrow> typed_reply P c (Inl (h e))"
    and "\<And>x. r = Inr x \<Longrightarrow> typed_reply P c (fst (run_state (k x) c))"
  shows "typed_reply P c (fst (run_state (check (pure r) h k) c))"
  using assms by (cases r) simp_all

lemma typed_reply_parse_id: "parse_id E s = Inl e \<Longrightarrow> typed_reply P c (Inl e)"
  by (auto simp: parse_id_def split: option.splits)

lemma typed_reply_parse_cursor: "parseServiceCursor E pc = Inl e \<Longrightarrow> typed_reply P c (Inl e)"
  by (auto simp: parseServiceCursor_def deref_def conv_defs split: option.splits sum.splits if_splits)

lemma typed_reply_service:
  assumes "\<And>x c'. run_state m c = (Inr x, c') \<Longrightarrow> \<exists>y. run_state (k x) c' = (Inr y, c') \<and> P y"
    and "\<And>e c'. run_state m c = (Inl e, c') \<Longrightarrow> faults c = [] \<Longrightarrow>
      errors_As is_NotFound e \<or> errors_As is_UniqueConflict e \<or> errors_As is_InvalidInput e"
  shows "typed_reply P c (fst (run_state (check m serviceToGRPCError k) c))"
proof (cases "run_state m c")
  case (Pair r c')
  with assms show ?thesis
    by (cases r) (auto simp: run_check serviceToGRPCError_def)
qed

lemma typed_get_permission:
  assumes "env_ok E" "db_ok (tables c)" "snapshot c = None"
  shows "typed_reply declared_permission c (fst (run_state (rpc_GetPermissionsOfPrincipalOnDocument pg_repository E req) c))"
proof -
  have meets: "meets (spec_GetPermission i u) c r c'"
    if "run_state (svc_GetPermissionOfPrincipalOnDocument pg_repository E i u) c = (r, c')" for i u r c'
    using refinesD(3) [OF pg.get_permission [OF assms(1)] that assms(3,2)] .
  have conv: "\<exists>y. run_state (check (pure (serviceToPbPermission E x)) internal reply) c' = (Inr y, c') \<and> declared_permission y"
    if "run_state (svc_GetPermissionOfPrincipalOnDocument pg_repository E i u) c = (Inr x, c')" for i u x c'
  proof -
    from meets [OF that] obtain p where "st_permissions (store (tables c)) (u, i) = Some p" "x = as_listed p"
      by (auto simp: meets_def spec_GetPermission_def failed_def simp del: store_simps split: option.splits)
    with store_typed [OF assms(2)] have "typed_permission x" by simp
    from serviceToPbPermission_typed [OF this, of E] show ?thesis by auto
  qed
  have err: "errors_As is_NotFound e \<or> errors_As is_UniqueConflict e \<or> errors_As is_InvalidInput e"
    if "run_state (svc_GetPermissionOfPrincipalOnDocument pg_repository E i u) c = (Inl e, c')" "faults c = []" for i u e c'
    using meets [OF that(1)] that(2)
    by (auto simp: meets_def spec_GetPermission_def errors_As_def simp del: store_simps split: option.splits)
  show ?thesis
    unfolding rpc_GetPermissionsOfPrincipalOnDocument_def
    by (intro typed_reply_check_pure typed_reply_service) (auto intro: typed_reply_parse_id dest: conv err)
qed

lemma typed_list_documents:
  assumes "env_ok E" "db_ok (tables c)" "snapshot c = None"
  shows "typed_reply (\<lambda>(xs, pc). list_all declared_document xs \<and> declared_cursor pc) c
    (fst (run_state (rpc_ListDocumentsByPrincipal pg_repository E req) c))"
proof -
  let ?m = "\<lambda>u ls cur k. svc_ListDocumentsByPrincipal pg_repository E u ls (Some cur) k"
  have listed: "documents_listed u (default_levels ls) (Some cur) (default_size k) (store (tables c)) r \<or> faults c \<noteq> [] \<and> failed wraps_outage r"
    if "run_state (?m u ls cur k) c = (r, c')" for u ls cur k r c'
    using answersD(3) [OF pg.list_documents [OF assms(1)] that assms(3,2)] by (simp add: default_cursor_def)
  have conv: "\<exists>y. run_state (case p of (xs, cur') \<Rightarrow>
        check (pure (serviceToPbDocumentPermissionList E xs)) internal (\<lambda>pbs.
        check (pure (serviceToPbCursor E cur')) internal (\<lambda>pc. reply (pbs, pc)))) c' = (Inr y, c') \<and>
      (case y of (pbs, pc) \<Rightarrow> list_all declared_document pbs \<and> declared_cursor pc)"
    if run: "run_state (?m u ls cur k) c = (Inr p, c')" and ls: "set ls \<subseteq> set AllPermissions" and cur: "valid_sort cur"
    for u ls cur k p c'
  proof -
    obtain xs where xs: "p = (xs, documents_cursor cur xs)"
      "is_page (document_key (cur_SortField cur)) (visible_documents u (default_levels ls) (store (tables c)))
        (cursor_key cur) (nat (sint (default_size k))) xs"
      using listed [OF run] default_levels_valid [OF ls] cur default_size_range(1) [of k]
      by (auto simp: documents_listed_def failed_def split: if_splits)
    have typed: "dp_Permission x \<in> set AllPermissions" if "x \<in> set xs" for x
      using visible_document_level [OF is_page_item [OF xs(2) that]] default_levels_valid [OF ls]
      by (auto simp: valid_levels_def)
    obtain pbs pc where "serviceToPbDocumentPermissionList E xs = Inr pbs" "list_all declared_document pbs"
      "serviceToPbCursor E (documents_cursor cur xs) = Inr pc" "declared_cursor pc"
      using serviceToPbDocuments_typed [of xs E] typed serviceToPbCursor_typed [OF next_cursor_sort(1) [OF cur], of E xs] by blast
    with xs(1) show ?thesis by auto
  qed
  have err: "errors_As is_NotFound e \<or> errors_As is_UniqueConflict e \<or> errors_As is_InvalidInput e"
    if "run_state (?m u ls cur k) c = (Inl e, c')" "faults c = []" for u ls cur k e c'
    using listed [OF that(1)] that(2) default_size_range(1) [of k]
    by (auto simp: documents_listed_def errors_As_def split: if_splits)
  show ?thesis
    unfolding rpc_ListDocumentsByPrincipal_def Let_def
    by (intro typed_reply_check_pure typed_reply_service)
      (auto intro: typed_reply_parse_id typed_reply_parse_cursor
        dest: conv [OF _ pbToServiceLevels_typed parseServiceCursor_typed] err)
qed

lemma typed_list_permissions:
  assumes "env_ok E" "db_ok (tables c)" "snapshot c = None"
  shows "typed_reply (\<lambda>(ps, pc). list_all declared_permission ps \<and> declared_cursor pc) c
    (fst (run_state (rpc_ListPermissionsOnDocument pg_repository E req) c))"
proof -
  let ?m = "\<lambda>i ls cur k. svc_ListPermissionsOnDocument pg_repository E i ls (Some cur) k"
  have listed: "permissions_listed i (default_levels ls) (Some cur) (default_size k) (store (tables c)) r \<or> faults c \<noteq> [] \<and> failed wraps_outage r"
    if "run_state (?m i ls cur k) c = (r, c')" for i ls cur k r c'
    using answersD(3) [OF pg.list_permissions [OF assms(1)] that assms(3,2)] by (simp add: default_cursor_def)
  have conv: "\<exists>y. run_state (case p of (ps, cur') \<Rightarrow>
        check (pure (serviceToPbPermissionList E ps)) internal (\<lambda>pbs.
        check (pure (serviceToPbCursor E cur')) internal (\<lambda>pc. reply (pbs, pc)))) c' = (Inr y, c') \<and>
      (case y of (pbs, pc) \<Rightarrow> list_all declared_permission pbs \<and> declared_cursor pc)"
    if run: "run_state (?m i ls cur k) c = (Inr p, c')" and ls: "set ls \<subseteq> set AllPermissions" and cur: "valid_sort cur"
    for i ls cur k p c'
  proof -
    obtain ps where ps: "p = (map as_listed ps, permissions_cursor cur (map as_listed ps))"
      "is_page (permission_key (cur_SortField cur)) (visible_permissions i (default_levels ls) (store (tables c)))
        (cursor_key cur) (nat (sint (default_size k))) ps"
      using listed [OF run] default_levels_valid [OF ls] cur default_size_range(1) [of k]
      by (auto simp: permissions_listed_def failed_def split: if_splits)
    have typed: "typed_permission q" if "q \<in> set (map as_listed ps)" for q
      using that visible_permission_typed [OF assms(2) is_page_item [OF ps(2)]] by auto
    obtain pbs pc where "serviceToPbPermissionList E (map as_listed ps) = Inr pbs" "list_all declared_permission pbs"
      "serviceToPbCursor E (permissions_cursor cur (map as_listed ps)) = Inr pc" "declared_cursor pc"
      using serviceToPbPermissions_typed [of "map as_listed ps" E] typed
        serviceToPbCursor_typed [OF next_cursor_sort(2) [OF cur], of E "map as_listed ps"] by blast
    with ps(1) show ?thesis by auto
  qed
  have err: "errors_As is_NotFound e \<or> errors_As is_UniqueConflict e \<or> errors_As is_InvalidInput e"
    if "run_state (?m i ls cur k) c = (Inl e, c')" "faults c = []" for i ls cur k e c'
    using listed [OF that(1)] that(2) default_size_range(1) [of k]
    by (auto simp: permissions_listed_def errors_As_def split: if_splits)
  show ?thesis
    unfolding rpc_ListPermissionsOnDocument_def Let_def
    by (intro typed_reply_check_pure typed_reply_service)
      (auto intro: typed_reply_parse_id typed_reply_parse_cursor
        dest: conv [OF _ pbToServiceLevels_typed parseServiceCursor_typed] err)
qed

section \<open>Properties\<close>

text \<open>C12: the replies of the reading calls are well typed, whatever faults the database has: a
  permission or a page that is returned carries only the enumerators the protocol declares and
  a complete cursor, and the status Internal is answered only if a fault of the database was
  met: the conversions of the handlers never fail on what the schema lets a row hold.\<close>

theorem replies_well_typed:
  assumes "env_ok E" "db_ok (tables c)" "snapshot c = None"
  shows "typed_reply declared_permission c (fst (run_state (rpc_GetPermissionsOfPrincipalOnDocument pg_repository E gp) c)) \<and>
    typed_reply (\<lambda>(xs, pc). list_all declared_document xs \<and> declared_cursor pc) c
      (fst (run_state (rpc_ListDocumentsByPrincipal pg_repository E ld) c)) \<and>
    typed_reply (\<lambda>(ps, pc). list_all declared_permission ps \<and> declared_cursor pc) c
      (fst (run_state (rpc_ListPermissionsOnDocument pg_repository E lp) c))"
  by (intro conjI typed_get_permission typed_list_documents typed_list_permissions assms)

theorem replies_well_typed_witness:
  "typed_reply (\<lambda>(ps, pc). list_all declared_permission ps \<and> declared_cursor pc) demo_conn
     (fst (run_state (rpc_ListPermissionsOnDocument pg_repository demo_env
       \<lparr> lpr_DocumentId = canon_String 1, lpr_PermissionsFilter = [PERMISSION_OWNER, PERMISSION_EDITOR],
         lpr_Cursor = Some \<lparr> pbc_SortField = SORT_FIELD_CREATED_AT, pbc_LastSeenTime = None, pbc_LastSeenDocumentId = None \<rparr>,
         lpr_PageSize = Some 5, lpr_ClientContext = None \<rparr>) demo_conn))"
  using replies_well_typed [OF demo_ok(2), of demo_conn] by (simp add: demo_conn_def demo_ok)

end
