(* ===== verification/Smoke.thy ===== *)
theory Smoke
  imports Clients Doc_Typing
begin

text \<open>
  The two programs that exercise the running services from outside through the client libraries:
  \<^verbatim>\<open>document_service/call_document_service.go\<close> creates a document, shares it and reads both back;
  \<^verbatim>\<open>user_service/call_user_service.go\<close> registers a user, reads it back and deactivates it. Each call
  of a service has its own environment (its clocks and the identifier it makes). \<^verbatim>\<open>log.Fatalf\<close> ends
  the program with a message.
\<close>

section \<open>The programs\<close>

definition call_document_service ::
  "(client_err + DocumentServiceClient) \<Rightarrow> env \<times> env \<times> env \<times> env \<Rightarrow> uuid \<Rightarrow> uuid \<Rightarrow>
   (doc_db, string + pb_Document \<times> pb_Permission) db_op" where
  "call_document_service newClient envs ownerId sharedId = (case envs of (E1, E2, E3, E4) \<Rightarrow>
     check (State_Monad.return newClient) (\<lambda>_. ''failed to create a connection to document service'') (\<lambda>client.
     let documentName = ''test document''; documentDescription = ''a document for testing tracing'' in
     check (client_CreateDocument client E1 ownerId (Some documentName) (Some documentDescription))
       (\<lambda>_. ''failed to create document'') (\<lambda>documentId.
     check (client_UpsertPermissionUser client E2 sharedId ownerId documentId PERMISSION_VIEWER)
       (\<lambda>_. ''failed to create document'') (\<lambda>_.
     check (client_GetDocument client E3 documentId ownerId) (\<lambda>_. ''failed to get the document'') (\<lambda>document.
     check (client_GetPermissionsOfPrincipalOnDocument client E4 documentId sharedId ownerId)
       (\<lambda>_. ''failed to get the permission of the principal'') (\<lambda>permission.
     State_Monad.return (Inr (document, permission))))))))"

text \<open>\<^verbatim>\<open>uuid.MustParse\<close> panics where \<^verbatim>\<open>uuid.Parse\<close> fails.\<close>

definition call_user_service ::
  "(client_err + UserServiceClient) \<Rightarrow> env \<times> env \<times> env \<Rightarrow> (user_db, string + pb_User) db_op" where
  "call_user_service newClient envs = (case envs of (E1, E2, E3) \<Rightarrow>
     check (State_Monad.return newClient) (\<lambda>_. ''failed to create a client'') (\<lambda>userClient.
     check (uclient_CreateUser userClient E1 ''testUser'' ''test@example.com'' ''password'' None)
       (\<lambda>_. ''failed to create a user'') (\<lambda>userId.
     (case uuid_Parse E2 userId of
        None \<Rightarrow> State_Monad.return (Inl ''panic'')
      | Some u \<Rightarrow>
          check (uclient_GetUser userClient E2 u) (\<lambda>_. ''failed to get user'') (\<lambda>user.
          check (uclient_DeactivateUser userClient E3 u) (\<lambda>_. ''failed to deactivate user'') (\<lambda>_.
          State_Monad.return (Inr user)))))))"

section \<open>Runs without faults\<close>

definition quiet :: "('d, 'a) db_op \<Rightarrow> bool" where
  "quiet m \<longleftrightarrow> (\<forall>c. faults c = [] \<longrightarrow> wp m (\<lambda>_ c'. faults c' = []) c)"

lemma quiet_return: "quiet (State_Monad.return x)"
  by (simp add: quiet_def wp_return)

lemma quiet_driver: "quiet (driver stmt)"
  by (simp add: quiet_def wp_run driver_def next_fault_def)

lemma quiet_Begin: "quiet Begin"
  by (simp add: quiet_def wp_run Begin_def next_fault_def)

lemma quiet_Commit: "quiet Commit"
  by (simp add: quiet_def wp_run Commit_def next_fault_def)

lemma quiet_check: "quiet m \<Longrightarrow> (\<And>x. quiet (k x)) \<Longrightarrow> quiet (check m h k)"
  unfolding quiet_def wp_check by (auto elim!: wp_mono split: sum.split)

lemma quiet_defer: "quiet m \<Longrightarrow> quiet (defer_Rollback m)"
  by (simp add: quiet_def wp_defer_Rollback)

lemma quiet_if: "quiet m \<Longrightarrow> quiet n \<Longrightarrow> quiet (if b then m else n)"
  by simp

lemmas quiet_intros = quiet_return quiet_driver quiet_Begin quiet_Commit quiet_check quiet_defer quiet_if

lemma quiet_documents:
  "quiet (svc_CreateDocument pg_repository E u n s)" "quiet (svc_GetDocument pg_repository E i)"
  "quiet (svc_UpsertPermissionUser pg_repository E u i l)" "quiet (svc_GetPermissionOfPrincipalOnDocument pg_repository E i u)"
  unfolding svc_CreateDocument_def svc_GetDocument_def svc_UpsertPermissionUser_def
    svc_GetPermissionOfPrincipalOnDocument_def pg_repository_def DocumentRepository.select_convs
    repo_CreateDocument_def repo_GetDocument_def repo_UpsertPermissionUser_def
    repo_GetPermissionOfPrincipalOnDocument_def Let_def
  by (intro quiet_intros)+

lemma quiet_users:
  "quiet (urepo_CreateUser E B name email n p)" "quiet (urepo_GetUserById i)" "quiet (urepo_DeactivateUser E i)"
  unfolding urepo_CreateUser_def urepo_GetUserById_def urepo_DeactivateUser_def Let_def
  by (intro quiet_intros)+

definition idle :: "doc_db conn \<Rightarrow> bool" where
  "idle c \<longleftrightarrow> snapshot c = None \<and> db_ok (tables c) \<and> faults c = []"

lemma idle_run:
  assumes "refines m spec" "quiet m" "idle c" "spec (store (tables c)) = (r, s')"
  shows "\<exists>c'. run_state m c = (r, c') \<and> idle c' \<and> store (tables c') = s'"
proof -
  obtain r' c' where run: "run_state m c = (r', c')" by fastforce
  from assms(3) have c: "snapshot c = None" "db_ok (tables c)" "faults c = []" by (simp_all add: idle_def)
  from refinesD(1,2) [OF assms(1) run c(1,2)] assms(2) c(3) run have "idle c'"
    by (auto simp: idle_def quiet_def wp_run)
  with request_healthy [OF assms(1) c] run assms(4) show ?thesis by simp
qed

lemma svc_UpsertPermissionUser_refines:
  "env_ok E \<Longrightarrow> refines (svc_UpsertPermissionUser pg_repository E u i l) (no_owner_grant l (spec_UpsertPermissionUser E u i l))"
  unfolding svc_UpsertPermissionUser_def by (intro refines_guarded refines_wrapped pg.contract domain_specs)

definition delivers :: "transport \<Rightarrow> bool" where
  "delivers T \<longleftrightarrow> tr_delivery T = Delivered"

lemma run_delivered:
  "delivers T \<Longrightarrow> run_state m c = (Inr x, c') \<Longrightarrow> run_state (invoke T code m) c = (Inr x, c')"
  by (simp add: delivers_def invoke_def run_check)

definition reachable_service :: "DocumentServiceClient \<Rightarrow> bool" where
  "reachable_service cl \<longleftrightarrow> dsc_server cl = pg_repository \<and> delivers (dsc_conn cl)"

text \<open>The four calls, each on the store it finds.\<close>

definition test_document :: "env \<Rightarrow> string option \<Rightarrow> string option \<Rightarrow> Document" where
  "test_document E name text = \<lparr> doc_ID = uuid_New E, doc_Name = name, doc_Description = text,
     doc_CreatedAt = db_NOW E, doc_LastModifiedAt = db_NOW E \<rparr>"

lemma run_create:
  assumes "env_ok E" "reachable_service cl" "idle c" "st_documents (store (tables c)) (uuid_New E) = None"
  shows "\<exists>c'. run_state (client_CreateDocument cl E u n t) c = (Inr (uuid_New E), c') \<and> idle c' \<and>
    st_documents (store (tables c')) (uuid_New E) = Some (test_document E n t)"
proof -
  let ?s = "store (tables c)"
  have "spec_CreateDocument E u n t ?s = (Inr (uuid_New E), snd (spec_CreateDocument E u n t ?s))"
    and doc: "st_documents (snd (spec_CreateDocument E u n t ?s)) (uuid_New E) = Some (test_document E n t)"
    using assms(4) by (simp_all add: spec_CreateDocument_def Let_def test_document_def del: store_simps)
  from idle_run [OF svc_CreateDocument_refines [OF assms(1)] quiet_documents(1) assms(3) this(1)]
  obtain c' where c': "run_state (svc_CreateDocument pg_repository E u n t) c = (Inr (uuid_New E), c')" "idle c'"
    "store (tables c') = snd (spec_CreateDocument E u n t ?s)" by blast
  have "run_state (client_CreateDocument cl E u n t) c = (Inr (uuid_New E), c')"
    using assms(1,2) c'(1)
    by (auto simp: client_CreateDocument_def run_check run_delivered reachable_service_def rpc_CreateDocument_def)
  with c'(2,3) doc show ?thesis by (metis (no_types))
qed

lemma run_share:
  assumes "env_ok E" "reachable_service cl" "idle c" "st_documents (store (tables c)) i = Some d"
  shows "\<exists>c' p. run_state (client_UpsertPermissionUser cl E u v i PERMISSION_VIEWER) c = (Inr (), c') \<and> idle c' \<and>
    st_documents (store (tables c')) i = Some d \<and> st_permissions (store (tables c')) (u, i) = Some p \<and>
    perm_PermissionLevel p = Viewer"
proof -
  let ?spec = "spec_UpsertPermissionUser E u i Viewer (store (tables c))"
  obtain p where "no_owner_grant Viewer (spec_UpsertPermissionUser E u i Viewer) (store (tables c)) = (Inr (), snd ?spec)"
    and "st_documents (snd ?spec) i = Some d" "st_permissions (snd ?spec) (u, i) = Some p" "perm_PermissionLevel p = Viewer"
    using assms(4)
    by (cases "st_permissions (store (tables c)) (u, i)")
      (auto simp: no_owner_grant_def spec_UpsertPermissionUser_def AllPermissions_def Let_def simp del: store_simps)
  moreover from idle_run [OF svc_UpsertPermissionUser_refines [OF assms(1)] quiet_documents(3) assms(3) this(1)]
  obtain c' where c': "run_state (svc_UpsertPermissionUser pg_repository E u i Viewer) c = (Inr (), c')" "idle c'"
    "store (tables c') = snd ?spec" by blast
  moreover have "run_state (client_UpsertPermissionUser cl E u v i PERMISSION_VIEWER) c = (Inr (), c')"
    using assms(1,2) c'(1)
    by (auto simp: client_UpsertPermissionUser_def run_check run_delivered reachable_service_def rpc_UpsertPermissionUser_def
        pbToServicePermissionLevel_def)
  ultimately show ?thesis by (metis (no_types))
qed

lemma run_get:
  assumes "env_ok E" "reachable_service cl" "idle c" "st_documents (store (tables c)) i = Some d"
  shows "\<exists>c'. run_state (client_GetDocument cl E i u) c = (Inr (serviceToPbDocument E d), c') \<and> idle c' \<and>
    store (tables c') = store (tables c)"
proof -
  have "spec_GetDocument i (store (tables c)) = (Inr d, store (tables c))"
    using assms(4) by (simp add: spec_GetDocument_def del: store_simps)
  from idle_run [OF pg.get_document [OF assms(1)] quiet_documents(2) assms(3) this]
  obtain c' where c': "run_state (svc_GetDocument pg_repository E i) c = (Inr d, c')" "idle c'"
    "store (tables c') = store (tables c)" by blast
  have "run_state (client_GetDocument cl E i u) c = (Inr (serviceToPbDocument E d), c')"
    using assms(1,2) c'(1)
    by (auto simp: client_GetDocument_def run_check run_delivered reachable_service_def rpc_GetDocument_def
        serviceToPbDocument_def)
  with c'(2,3) show ?thesis by (metis (no_types))
qed

lemma run_permission:
  assumes "env_ok E" "reachable_service cl" "idle c" "st_permissions (store (tables c)) (u, i) = Some p"
  shows "\<exists>c' q. run_state (client_GetPermissionsOfPrincipalOnDocument cl E i u v) c = (Inr q, c') \<and>
    serviceToPbPermission E (as_listed p) = Inr q \<and> idle c' \<and> store (tables c') = store (tables c)"
proof -
  from assms(3) have "db_ok (tables c)" by (simp add: idle_def)
  from store_typed [OF this assms(4)] have "typed_permission (as_listed p)" by simp
  from serviceToPbPermission_typed [OF this, of E] obtain q where q: "serviceToPbPermission E (as_listed p) = Inr q" by blast
  have "spec_GetPermission i u (store (tables c)) = (Inr (as_listed p), store (tables c))"
    using assms(4) by (simp add: spec_GetPermission_def del: store_simps)
  from idle_run [OF pg.get_permission [OF assms(1)] quiet_documents(4) assms(3) this]
  obtain c' where c': "run_state (svc_GetPermissionOfPrincipalOnDocument pg_repository E i u) c = (Inr (as_listed p), c')"
    "idle c'" "store (tables c') = store (tables c)" by blast
  have "run_state (client_GetPermissionsOfPrincipalOnDocument cl E i u v) c = (Inr q, c')"
    using assms(1,2) c'(1) q
    by (auto simp: client_GetPermissionsOfPrincipalOnDocument_def run_check run_delivered reachable_service_def
        rpc_GetPermissionsOfPrincipalOnDocument_def)
  with c'(2,3) q show ?thesis by (metis (no_types))
qed

lemma store_permission_key:
  "st_permissions (store d) (u, i) = Some p \<Longrightarrow> perm_RecipientID p = u \<and> perm_DocumentID p = i"
  by (auto simp: store_def perms_map_def permission_of_def dest!: map_of_SomeD)

section \<open>Properties\<close>

text \<open>C25: on an idle document service whose database is reachable and in which the new identifier
  is free, the document program runs to its end: it prints the document it created, with the
  name and description it sent, and a viewer permission of the shared principal on that document.\<close>

theorem document_smoke_passes:
  assumes "list_all env_ok [E1, E2, E3, E4]" "reachable_service cl" "idle c"
    and "st_documents (store (tables c)) (uuid_New E1) = None"
  shows "\<exists>doc perm c'. run_state (call_document_service (Inr cl) (E1, E2, E3, E4) ownerId sharedId) c = (Inr (doc, perm), c') \<and>
    pbd_DocumentId doc = uuid_String E3 (uuid_New E1) \<and> pbd_DocumentName doc = Some ''test document'' \<and>
    pbd_Description doc = Some ''a document for testing tracing'' \<and>
    pbr_DocumentId perm = uuid_String E4 (uuid_New E1) \<and>
    pbp_PrincipalId (pbr_Recipient perm) = uuid_String E4 sharedId \<and> pbr_PermissionLevel perm = PERMISSION_VIEWER"
proof -
  let ?i = "uuid_New E1" and ?d = "test_document E1 (Some ''test document'') (Some ''a document for testing tracing'')"
  from assms(1) have E: "env_ok E1" "env_ok E2" "env_ok E3" "env_ok E4" by simp_all
  obtain c1 where c1: "run_state (client_CreateDocument cl E1 ownerId (Some ''test document'')
      (Some ''a document for testing tracing'')) c = (Inr ?i, c1)" "idle c1" "st_documents (store (tables c1)) ?i = Some ?d"
    using run_create [OF E(1) assms(2,3,4)] by blast
  obtain c2 p where c2: "run_state (client_UpsertPermissionUser cl E2 sharedId ownerId ?i PERMISSION_VIEWER) c1 = (Inr (), c2)"
    "idle c2" "st_documents (store (tables c2)) ?i = Some ?d" "st_permissions (store (tables c2)) (sharedId, ?i) = Some p"
    "perm_PermissionLevel p = Viewer"
    using run_share [OF E(2) assms(2) c1(2,3)] by blast
  obtain c3 where c3: "run_state (client_GetDocument cl E3 ?i ownerId) c2 = (Inr (serviceToPbDocument E3 ?d), c3)"
    "idle c3" "store (tables c3) = store (tables c2)"
    using run_get [OF E(3) assms(2) c2(2,3)] by blast
  obtain c4 q where c4: "run_state (client_GetPermissionsOfPrincipalOnDocument cl E4 ?i sharedId ownerId) c3 = (Inr q, c4)"
    "serviceToPbPermission E4 (as_listed p) = Inr q"
    using run_permission [OF E(4) assms(2) c3(2), of sharedId ?i p ownerId] c2(4) c3(3) by (auto simp del: store_simps)
  have "run_state (call_document_service (Inr cl) (E1, E2, E3, E4) ownerId sharedId) c =
      (Inr (serviceToPbDocument E3 ?d, q), c4)"
    using c1(1) c2(1) c3(1) c4(1) by (simp add: call_document_service_def run_check)
  with c4(2) c2(5) store_permission_key [OF c2(4)] show ?thesis
    by (auto simp: serviceToPbDocument_def test_document_def serviceToPbPermission_def as_listed_def conv_defs
        split: if_splits sum.splits)
qed

definition local_client :: DocumentServiceClient where
  "local_client = \<lparr> dsc_server = pg_repository, dsc_conn = \<lparr> tr_delivery = Delivered, tr_crash = Code_Unavailable \<rparr> \<rparr>"

theorem document_smoke_passes_witness:
  "\<exists>doc perm c'. run_state (call_document_service (Inr local_client) (demo_env, demo_env, demo_env, demo_env) 7 9) demo_conn =
     (Inr (doc, perm), c') \<and> pbd_DocumentId doc = canon_String 42 \<and> pbr_PermissionLevel perm = PERMISSION_VIEWER"
proof -
  have "st_documents (store (tables demo_conn)) (uuid_New demo_env) = None"
    by (simp add: demo_conn_def demo_db_def docs_map_def demo_env_def concrete_env_def)
  moreover have "idle demo_conn" "reachable_service local_client"
    by (simp_all add: idle_def demo_conn_def demo_ok reachable_service_def local_client_def delivers_def)
  ultimately show ?thesis
    using document_smoke_passes [of demo_env demo_env demo_env demo_env local_client demo_conn 7 9] demo_ok(2)
    by (auto simp: demo_env_def concrete_env_def simp del: store_simps)
qed

section \<open>The user program\<close>

definition at_rest :: "user_db \<Rightarrow> user_db conn" where
  "at_rest d = \<lparr> tables = d, snapshot = None, faults = [] \<rparr>"

lemma run_at_rest:
  assumes "implements u_outage users_ok m spec" "quiet m" "users_ok d"
  shows "run_state m (at_rest d) = (fst (spec d), at_rest (snd (spec d)))" "users_ok (snd (spec d))"
proof -
  obtain r c' where run: "run_state m (at_rest d) = (r, c')" by fastforce
  have d: "snapshot (at_rest d) = None" "users_ok (tables (at_rest d))" "faults (at_rest d) = []" "tables (at_rest d) = d"
    using assms(3) by (simp_all add: at_rest_def)
  have "snapshot c' = None" "faults c' = []"
    using implementsD(1) [OF assms(1) run d(1,2)] assms(2) d(3) run by (auto simp: quiet_def wp_run)
  with implements_healthy [OF assms(1) d(1-3)] run d(4)
  show "run_state m (at_rest d) = (fst (spec d), at_rest (snd (spec d)))" by (simp add: at_rest_def)
  with implementsD(2) [OF assms(1) _ d(1,2)] show "users_ok (snd (spec d))" by (auto simp: at_rest_def)
qed

definition reachable_users :: "UserServiceClient \<Rightarrow> bool" where
  "reachable_users cl \<longleftrightarrow> usc_server cl = pg_user_repository \<and> delivers (usc_conn cl) \<and> bcrypt_ok (usc_bcrypt cl)"

lemma run_users:
  assumes "users_ok d"
  shows "run_state (urepo_CreateUser E B name email n p) (at_rest d) =
      (fst (uspec_CreateUser E B name email n p d), at_rest (snd (uspec_CreateUser E B name email n p d)))"
    and "run_state (urepo_GetUserById i) (at_rest d) = (fst (uspec_get (\<lambda>r. u_id r = i) d), at_rest d)"
    and "run_state (urepo_DeactivateUser E i) (at_rest d) =
      (fst (uspec_DeactivateUser E i d), at_rest (snd (uspec_DeactivateUser E i d)))"
    and "users_ok (snd (uspec_CreateUser E B name email n p d))" "users_ok (snd (uspec_DeactivateUser E i d))"
  using run_at_rest [OF pgu.CreateUser_contract _ assms] run_at_rest [OF pgu.GetUserById_contract _ assms]
    run_at_rest [OF pgu.DeactivateUser_contract _ assms]
  by (simp_all add: pg_user_repository_def quiet_users uspec_get_def)

definition test_user :: "env \<Rightarrow> string \<Rightarrow> users_row" where
  "test_user E h = serviceToRepository \<lparr> usr_UserId = uuid_New E, usr_UserName = ''testUser'', usr_Email = ''test@example.com'',
     usr_MaxDocuments = DefaultMaxDocuments, usr_HashedPassword = h, usr_IsActive = True,
     usr_CreatedAt = db_NOW E, usr_LastModified = db_NOW E \<rparr>"

lemma run_register:
  assumes "reachable_users cl" "users_ok d"
  obtains h where "GenerateFromPassword (usc_bcrypt cl) ''password'' = Some h"
    and "run_state (uclient_CreateUser cl E ''testUser'' ''test@example.com'' ''password'' None) (at_rest d) =
      (if \<exists>r \<in> set d. u_id r = uuid_New E \<or> u_user_name r = ''testUser'' \<or> u_email r = ''test@example.com''
       then (Inl (RpcError Code_AlreadyExists), at_rest d)
       else (Inr (uuid_String E (uuid_New E)), at_rest (d @ [test_user E h])))"
proof -
  let ?B = "usc_bcrypt cl"
  from assms(1) have B: "bcrypt_ok ?B" and cl: "usc_server cl = pg_user_repository" "delivers (usc_conn cl)"
    by (simp_all add: reachable_users_def)
  from B have "GenerateFromPassword ?B ''password'' \<noteq> None" by (simp add: bcrypt_ok_def)
  then obtain h where h: "GenerateFromPassword ?B ''password'' = Some h" by blast
  have len: "utf8_length h \<le> 255" "utf8_length ''testUser'' \<le> 32"
    using bcrypt_okD(2) [OF B h] utf8_length_le [of h] utf8_length_le [of "''testUser''"] by simp_all
  have "run_state (uclient_CreateUser cl E ''testUser'' ''test@example.com'' ''password'' None) (at_rest d) =
      (if \<exists>r \<in> set d. u_id r = uuid_New E \<or> u_user_name r = ''testUser'' \<or> u_email r = ''test@example.com''
       then (Inl (RpcError Code_AlreadyExists), at_rest d)
       else (Inr (uuid_String E (uuid_New E)), at_rest (d @ [test_user E h])))"
    using cl len h run_users(1) [OF assms(2), of E ?B "''testUser''" "''test@example.com''" DefaultMaxDocuments "''password''"]
    by (auto simp: uclient_CreateUser_def invoke_def delivers_def urpc_CreateUser_def usvc_CreateUser_def
        MinUsernameLength_def MinPasswordLength_def pg_user_repository_def run_check uspec_CreateUser_def
        test_user_def user_serviceToGRPCError_def user_errors_As_def)
  with h that show thesis by blast
qed

lemma run_read_back:
  assumes "reachable_users cl" "users_ok (d @ [test_user E h])" "\<forall>r \<in> set d. u_id r \<noteq> uuid_New E"
    and "uuid_Parse E' (uuid_String E' (uuid_New E)) = Some (uuid_New E)"
  shows "run_state (uclient_GetUser cl E' (uuid_New E)) (at_rest (d @ [test_user E h])) =
    (Inr \<lparr> pbu_UserId = uuid_String E' (uuid_New E), pbu_UserName = ''testUser'', pbu_Email = ''test@example.com'',
       pbu_MaxDocuments = 100 \<rparr>, at_rest (d @ [test_user E h]))"
  using assms run_users(2) [OF assms(2), of "uuid_New E"]
    find_append_new [OF assms(3), of "test_user E h"]
  by (simp add: uclient_GetUser_def invoke_def delivers_def urpc_GetUser_def usvc_delegates parse_user_id_def
      reachable_users_def pg_user_repository_def run_check uspec_get_def repositoryToService_def test_user_def
      serviceToRepository_def valid_or_def DefaultMaxDocuments_def)

lemma run_deactivate:
  assumes "reachable_users cl" "users_ok (d @ [test_user E h])" "\<forall>r \<in> set d. u_id r \<noteq> uuid_New E"
    and "uuid_Parse E' (uuid_String E' (uuid_New E)) = Some (uuid_New E)"
  defines "r \<equiv> (test_user E h)\<lparr>u_is_active := Some False, u_last_modified := Some (db_NOW E')\<rparr>"
  shows "run_state (uclient_DeactivateUser cl E' (uuid_New E)) (at_rest (d @ [test_user E h])) = (Inr (), at_rest (d @ [r]))"
    and "users_ok (d @ [r])"
proof -
  have "map (\<lambda>r. if u_id r = uuid_New E then r\<lparr>u_is_active := Some False, u_last_modified := Some (db_NOW E')\<rparr> else r) d = d"
    using assms(3) by (simp add: map_idI)
  then have "uspec_DeactivateUser E' (uuid_New E) (d @ [test_user E h]) = (Inr (), d @ [r])"
    by (simp add: uspec_DeactivateUser_def set_user_def r_def test_user_def serviceToRepository_def)
  with assms(1,4) run_users(3,5) [OF assms(2), of E' "uuid_New E"]
  show "run_state (uclient_DeactivateUser cl E' (uuid_New E)) (at_rest (d @ [test_user E h])) = (Inr (), at_rest (d @ [r]))"
    and "users_ok (d @ [r])"
    by (simp_all add: uclient_DeactivateUser_def invoke_def delivers_def urpc_DeactivateUser_def usvc_delegates
        reachable_users_def parse_user_id_def pg_user_repository_def run_check)
qed

lemma run_again:
  assumes "reachable_users cl" "users_ok d" "r \<in> set d" "u_user_name r = ''testUser''"
  shows "run_state (call_user_service (Inr cl) envs) (at_rest d) = (Inl ''failed to create a user'', at_rest d)"
proof (cases envs)
  case (fields E1 E2 E3)
  obtain h where "run_state (uclient_CreateUser cl E1 ''testUser'' ''test@example.com'' ''password'' None) (at_rest d) =
      (Inl (RpcError Code_AlreadyExists), at_rest d)"
    using run_register [OF assms(1,2), of E1] assms(3,4) by metis
  then show ?thesis by (simp add: call_user_service_def run_check fields)
qed

text \<open>C26: the user program on an idle user service. When no account has its name, its address or
  the new identifier, it runs to its end: it reads back the account it registered, with the
  default limit on documents, and leaves it deactivated, all other accounts being as before.
  A deactivated account keeps its name: every later run stops at the registration and changes
  nothing.\<close>

theorem user_smoke_once:
  assumes "list_all env_ok [E1, E2, E3]" "uuid_String E2 = uuid_String E1" "reachable_users cl" "users_ok d"
    and "\<forall>r \<in> set d. u_id r \<noteq> uuid_New E1 \<and> u_user_name r \<noteq> ''testUser'' \<and> u_email r \<noteq> ''test@example.com''"
  shows "\<exists>u r. run_state (call_user_service (Inr cl) (E1, E2, E3)) (at_rest d) = (Inr u, at_rest (d @ [r])) \<and>
    u = \<lparr> pbu_UserId = uuid_String E1 (uuid_New E1), pbu_UserName = ''testUser'', pbu_Email = ''test@example.com'',
          pbu_MaxDocuments = 100 \<rparr> \<and>
    u_id r = uuid_New E1 \<and> u_is_active r = Some False \<and>
    (\<forall>envs. run_state (call_user_service (Inr cl) envs) (at_rest (d @ [r])) =
       (Inl ''failed to create a user'', at_rest (d @ [r])))"
proof -
  let ?i = "uuid_New E1"
  from assms(1) have parse: "uuid_Parse E1 (uuid_String E1 ?i) = Some ?i" "uuid_Parse E2 (uuid_String E2 ?i) = Some ?i"
    "uuid_Parse E3 (uuid_String E3 ?i) = Some ?i"
    by simp_all
  have new: "\<forall>r \<in> set d. u_id r \<noteq> ?i" using assms(5) by blast
  obtain h where reg: "run_state (uclient_CreateUser cl E1 ''testUser'' ''test@example.com'' ''password'' None) (at_rest d) =
      (Inr (uuid_String E1 ?i), at_rest (d @ [test_user E1 h]))"
    using run_register [OF assms(3,4), of E1] assms(5) by (metis (no_types, lifting))
  have ok: "users_ok (d @ [test_user E1 h])"
    using assms(4,5) by (auto simp: users_ok_def test_user_def serviceToRepository_def)
  let ?r = "(test_user E1 h)\<lparr>u_is_active := Some False, u_last_modified := Some (db_NOW E3)\<rparr>"
  note off = run_deactivate [OF assms(3) ok new parse(3)]
  have "run_state (call_user_service (Inr cl) (E1, E2, E3)) (at_rest d) = (Inr
      \<lparr> pbu_UserId = uuid_String E1 ?i, pbu_UserName = ''testUser'', pbu_Email = ''test@example.com'', pbu_MaxDocuments = 100 \<rparr>,
      at_rest (d @ [?r]))"
    using reg parse(2) run_read_back [OF assms(3) ok new parse(2)] off(1) assms(2)
    by (simp add: call_user_service_def run_check)
  moreover have "u_user_name ?r = ''testUser''" "u_id ?r = ?i" "u_is_active ?r = Some False"
    by (simp_all add: test_user_def serviceToRepository_def)
  moreover from this(1) have "\<forall>envs. run_state (call_user_service (Inr cl) envs) (at_rest (d @ [?r])) =
      (Inl ''failed to create a user'', at_rest (d @ [?r]))"
    by (intro allI run_again [OF assms(3) off(2), of ?r]) simp_all
  ultimately show ?thesis by blast
qed

definition local_users :: UserServiceClient where
  "local_users = \<lparr> usc_server = pg_user_repository, usc_bcrypt = demo_bcrypt,
     usc_conn = \<lparr> tr_delivery = Delivered, tr_crash = Code_Unavailable \<rparr> \<rparr>"

theorem user_smoke_once_witness:
  "\<exists>u r. run_state (call_user_service (Inr local_users) (demo_env_users, demo_env_users, demo_env_users)) demo_users =
     (Inr u, at_rest (tables demo_users @ [r])) \<and> pbu_UserName u = ''testUser'' \<and> u_is_active r = Some False"
proof -
  have "demo_users = at_rest (tables demo_users)" by (simp add: demo_users_def at_rest_def)
  moreover have "reachable_users local_users" "env_ok demo_env_users"
    by (simp_all add: reachable_users_def local_users_def delivers_def demo_bcrypt_ok demo_env_users_def env_ok_concrete)
  moreover have "\<forall>r \<in> set (tables demo_users). u_id r \<noteq> uuid_New demo_env_users \<and> u_user_name r \<noteq> ''testUser'' \<and>
      u_email r \<noteq> ''test@example.com''"
    by (simp add: demo_users_def demo_env_users_def concrete_env_def serviceToRepository_def)
  ultimately show ?thesis
    using user_smoke_once [of demo_env_users demo_env_users demo_env_users local_users "tables demo_users"] demo_users_ok(2)
    by auto
qed

end
