(* ===== verification/Spec2Isabelle.thy ===== *)
theory Spec2Isabelle
  imports Doc_Listing Gateway_Refinement Routing Startup Grpc_Server User_Interleaving Smoke
begin

text \<open>
  \<^bold>\<open>Reed: the document service, the user service and the API gateway.\<close>

  \<^bold>\<open>The program.\<close> Reed is a document editor made of Go services that talk gRPC: the user
  service (accounts and passwords), the document service (documents, guests, permissions),
  and an API gateway in front of them; a Rust proxy relays editing messages. Each of the two
  services has the same three layers: a server that parses protobuf requests and serialises
  replies, a service with the business rules, and a repository that runs SQL on PostgreSQL.
  The service sees its repository through a Go interface.

  \<^bold>\<open>The theories, from the bottom.\<close>
  \<^item> \<open>Prelude\<close>: types, a weakest-precondition calculus for the state monad, Go's
    \<^verbatim>\<open>if err != nil\<close> as \<open>check\<close>, error-stopping loops, rows in descending key order.
  \<^item> \<open>Driver\<close>: a database connection with \<^verbatim>\<open>Begin\<close>, \<^verbatim>\<open>Commit\<close>, deferred \<^verbatim>\<open>Rollback\<close> and single
    statements. A fault schedule decides which calls are refused and which take effect while
    their reply is lost; theorems range over all schedules unless they say otherwise.
  \<^item> \<open>Transactions\<close>: atomicity from the shape of an operation, and \<open>implements\<close>, the relation
    between an operation and a function on the tables.
  \<^item> \<open>Keyset\<close>: keyset pagination; the locale \<open>keyset_listing\<close> is the contract of a listing call
    and proves that following its cursors visits every item once.
  \<^item> \<open>Externals\<close>: the parameters for \<^verbatim>\<open>google/uuid\<close>, \<^verbatim>\<open>timestamppb\<close> and the clocks, with
    \<open>env_ok\<close>, what their documentation promises, and a concrete instance.
  \<^item> \<open>Doc_Types\<close> (\<^verbatim>\<open>document_service/internal/service/errors.go\<close> and the types of
    \<^verbatim>\<open>document_service.go\<close>), \<open>Doc_Sql\<close> (\<^verbatim>\<open>schema.sql\<close> and \<^verbatim>\<open>query.sql\<close>, statement by
    statement, with the schema invariant \<open>db_ok\<close>), \<open>Doc_Repository\<close>
    (\<^verbatim>\<open>document_repository.go\<close>, \<open>repo_*\<close>), \<open>Doc_Service\<close> (\<^verbatim>\<open>document_service.go\<close>,
    \<open>svc_*\<close>, over the record \<open>DocumentRepository\<close> that is the Go interface), \<open>Doc_Server\<close>
    (\<^verbatim>\<open>document_server.go\<close>, \<open>rpc_*\<close>).
  \<^item> \<open>Doc_Store\<close>: the abstract specification, finite maps of documents, guests and permissions
    with one atomic function \<open>spec_*\<close> per operation, and the relation \<open>refines\<close>;
    \<open>Doc_Refinement\<close>: the PostgreSQL repository refines it. \<open>Doc_Service\<close> states this as the
    locale \<open>document_repository\<close>, proves the service from the contract and interprets it on
    the PostgreSQL repository.
  \<^item> \<open>Doc_Pagination\<close>: the listings are keyset listings. \<open>Doc_Lifecycle\<close>: reachable databases
    and the histories that lead to them, their invariants, and what a later request sees of an
    earlier one.
  \<^item> \<open>User_Types\<close>, \<open>User_Repository\<close>, \<open>User_Service\<close>, \<open>User_Server\<close>: the user service in the same
    way (\<^verbatim>\<open>user_service/internal\<close>: \<^verbatim>\<open>service/errors.go\<close>, \<^verbatim>\<open>config/constants.go\<close>,
    \<^verbatim>\<open>repository/user_repository.go\<close> and the generated \<^verbatim>\<open>sqlc/db\<close>,
    \<^verbatim>\<open>service/user_service.go\<close>, \<^verbatim>\<open>server/user_server.go\<close>), with the locale
    \<open>user_repository\<close>; bcrypt is a parameter with the hypotheses \<open>bcrypt_ok\<close>.
  \<^item> \<open>Clients\<close>: the two client libraries (\<^verbatim>\<open>pkg/client/client.go\<close> of either service,
    \<open>client_*\<close> and \<open>uclient_*\<close>) over a transport that may lose a call or a reply.
  \<^item> \<open>Base64\<close> (\<^verbatim>\<open>base64.URLEncoding\<close>) and \<open>Gateway_Http\<close> (\<^verbatim>\<open>http_response.go\<close>, the response
    writer of \<^verbatim>\<open>net/http\<close>, the conversions of \<^verbatim>\<open>document.go\<close>); \<open>Gateway_Auth\<close>
    (\<^verbatim>\<open>auth.go\<close>, \<^verbatim>\<open>auth_middleware.go\<close>; the locale \<open>user_only\<close> is the contract of the handlers
    only users may call, interpreted on the seven of them); \<open>Gateway_Documents\<close>
    (\<^verbatim>\<open>document.go\<close>), \<open>Gateway_Permissions\<close> (\<^verbatim>\<open>permission.go\<close>) and \<open>Gateway_Users\<close>
    (\<^verbatim>\<open>user.go\<close>, \<^verbatim>\<open>custom_validation.go\<close>), the handlers \<open>http_*\<close>; \<open>Gateway_Server\<close>
    (\<^verbatim>\<open>server.go\<close>, \<^verbatim>\<open>error_handling.go\<close>, the wrappers of \<^verbatim>\<open>api_gateway.gen.go\<close> and
    \<^verbatim>\<open>cmd/server/main.go\<close>), the whole server on the connections of both services.
  \<^item> \<open>Routing\<close>: the patterns \<^verbatim>\<open>HandlerWithOptions\<close> registers and the matching of a request by
    \<^verbatim>\<open>http.ServeMux\<close>, so that a request is a method, a host and a path; the server with its
    routes is \<open>ServeHTTP\<close>.
  \<^item> \<open>Gateway_Refinement\<close>: the routes against the abstract store, end to end;
    \<open>Doc_Listing\<close> and \<open>Gateway_Listing\<close>: the listing of the service and of
    \<^verbatim>\<open>GET /document\<close>, the second by simulation of the first; \<open>Proto_Sample\<close>: a concrete codec
    for cursors.
  \<^item> \<open>Doc_Typing\<close>: the types of the replies of the document server.
  \<^item> \<open>User_Interleaving\<close>: \<^verbatim>\<open>ModifyPassword\<close> as a process that takes one step per call of the
    driver, and any number of them interleaved under the row lock; a single process is the
    repository operation (\<open>alone_is_ModifyPassword\<close>).
  \<^item> \<open>Grpc_Server\<close>: the interceptors (\<^verbatim>\<open>user_service/pkg/middleware\<close>), the generated handlers and
    descriptor (\<^verbatim>\<open>user_grpc.pb.go\<close>) and the dispatch of a call; the locale
    \<open>transparent_interceptor\<close> is the contract of the interceptors.
  \<^item> \<open>Config\<close> (\<^verbatim>\<open>env.go\<close>, \<^verbatim>\<open>constants.go\<close>, \<^verbatim>\<open>GetConfiguration\<close> of \<^verbatim>\<open>postgres.go\<close>) and \<open>Startup\<close>
    (\<^verbatim>\<open>otel.go\<close>, \<^verbatim>\<open>postgres.go\<close>, the constructors of the clients, the three \<^verbatim>\<open>main.go\<close>): a process
    that opens, closes, installs, logs and serves. \<open>Api_Spec\<close>: unpacking and loading of the
    interface description (\<^verbatim>\<open>decodeSpec\<close>, \<^verbatim>\<open>GetSwagger\<close>). \<open>Go_Path\<close>: \<^verbatim>\<open>path.Clean\<close>.
  \<^item> \<open>Smoke\<close>: the programs \<^verbatim>\<open>call_document_service.go\<close> and \<^verbatim>\<open>call_user_service.go\<close>, from the client
    libraries down to the tables.
  \<^item> \<open>Doc_Sample\<close>: the small database at which theorems with hypotheses are instantiated.

  \<^bold>\<open>How the model corresponds to the code.\<close> An operation of the code is a definition with the same
  name behind a layer prefix (\<open>sql_\<close>, \<open>repo_\<close>, \<open>svc_\<close>, \<open>rpc_\<close>; \<open>usql_\<close>, \<open>urepo_\<close>, \<open>usvc_\<close>,
  \<open>urpc_\<close>, \<open>client_\<close>, \<open>uclient_\<close>, \<open>http_\<close>, \<open>siw_\<close>), with the code's guards, early returns and order of calls. Go errors are values with
  their chain of causes, so the type assertion \<^verbatim>\<open>err.(DomainError)\<close> and \<^verbatim>\<open>errors.As\<close> are modelled
  as they are; a nil pointer is None and dereferencing it is the value \<open>Panic\<close>. A UUID is a
  128-bit word, compared unsigned as PostgreSQL does; \<^verbatim>\<open>int32\<close> is a 32-bit word, compared
  signed; enumerations are open integers. Functions the repository has in several copies
  (\<^verbatim>\<open>GetEnvWithDefault\<close>, \<^verbatim>\<open>GetConfiguration\<close>, \<^verbatim>\<open>CreateDBConnectionPool\<close>, \<^verbatim>\<open>SetupOTelSDK\<close>) have one
  definition per copy, with a lemma where the copies agree. The context argument carries only tracing and
  cancellation and is dropped; a cancelled call is one that met a fault.

  \<^bold>\<open>What is proved.\<close> Every state-changing operation of both services implements its specification
  atomically under every fault schedule; a document has at most one owner, the
  user who created it, and guests keep to their document in every reachable database; a request
  that fails without a fault changes nothing; listings are complete, ordered and bounded; identifiers and
  cursors survive the wire; error chains become the intended status codes; accounts are unique,
  passwords are checked and changed as they should be. Where the code does not do what it means
  to do, a theorem exhibits it: permissions sorted by modification lose rows, a listing without
  a cursor panics, a document can lose its owner for good, a deactivated user can still log in. Through
  the gateway: the routes refine the same specification under faults of the transport too, a
  walk over the pages of \<^verbatim>\<open>GET /document\<close> is complete, no route but the login does anything
  without an accepted token, guests are kept from the routes of users, and the login answers on
  every branch with the status and body it means to; but its tokens are refused by the middleware, every answer
  is followed by an error in the same response,
  a single document cannot be read, an update can be refused and carried out, and a password
  cannot be changed. From the outside: every operation of the interface description reaches the
  function written for it, with its parameters, but only on the host \<^verbatim>\<open>todo\<close>; a malformed path parameter is named in the answer; a call of the user service reaches its handler
  through transparent interceptors; the smoke programs pass, the one for users only once. Password
  changes that run at the same time are serialisable, always end, and cannot overwrite each other.
  Replies carry only declared enumerators. A process is configured as its environment says, and its
  telemetry set-up cleans up exactly once; but neither service ever gets to its clean-up, because
  nothing stops its server and \<^verbatim>\<open>os.Exit\<close> skips the deferred calls; the gateway hides a failure to listen, and values of the connection string are not
  quoted.

  \<^bold>\<open>Bounds and fuel.\<close> The only fuel is that of \<open>walk\<close>, the client loop over pages: one call per
  item and one more suffice, which is part of the theorems. \<open>page_loop\<close> is the same loop without
  a bound, a partial function into option; that it ends is part of the theorem on
  \<^verbatim>\<open>GET /document\<close>. Everything else is total.

  \<^bold>\<open>Parameters.\<close> \<^verbatim>\<open>google/uuid\<close>, \<^verbatim>\<open>timestamppb\<close> and the clocks (\<open>env\<close>, \<open>env_ok\<close>), bcrypt (\<open>bcrypt_ok\<close>),
  the protobuf codec of cursors (\<open>protobuf_ok\<close>, \<open>marshals_ascii\<close>), golang-jwt (\<open>jwt_ok\<close>), the
  request validator (\<open>validator_ok\<close>), parameter binding, JSON decoding and the gRPC transport; the
  protobuf codec of the user service (\<open>user_codec\<close>); \<^verbatim>\<open>pgxpool.ParseConfig\<close> (\<open>ParseConfig_ok\<close>, the
  documented keyword/value format for the six keywords in use and plain values) and the outcomes of the calls of OpenTelemetry, \<^verbatim>\<open>pgxpool\<close>,
  \<^verbatim>\<open>net\<close> and \<^verbatim>\<open>grpc.NewClient\<close> at start-up (\<open>otel_pkg\<close>, \<open>pgx_pkg\<close>, \<open>platform\<close>; a gRPC server that
  nobody stops ends with an error, \<open>never_stopped\<close>); the unpacking of
  the interface description and its loader (\<open>spec_pkg\<close>).

  \<^bold>\<open>Not modelled.\<close> Error texts and the content of logs, traces and metrics; the generated messages of
  \<^verbatim>\<open>user.pb.go\<close> and the embedded lines of the interface description in \<^verbatim>\<open>api_gateway.gen.go\<close>, which
  are serialisation and data; JSON itself; closing a client connection; patterns of
  \<^verbatim>\<open>http.ServeMux\<close> the gateway does not register and the target \<^verbatim>\<open>*\<close>; rounding of instants to
  microseconds by PostgreSQL, and its refusal of texts with NUL bytes or invalid UTF-8; what is left of a
  request body after the first JSON value; interleavings of document requests inside their transactions (they
  run one after the other, as the isolation levels of the code mean them to). The Rust message
  proxy is outside the development.
\<close>

section \<open>Listing documents through the service\<close>

text \<open>C10: a client that starts without a cursor and follows the cursors it is given sees every
  document the principal may see that was created before the moment of its first call, newest
  first, each exactly once, whatever page size it asks for and also with an empty filter.\<close>

theorem service_listing_complete:
  assumes "valid_service_listing e"
    and "items = {x \<in> visible_documents (ls_subject e) (default_levels (ls_levels e)) (store (tables (ls_conn e))).
                   document_key Sort_CreatedAt x < (time_Now (ls_env e), MaxDocumentID)}"
    and "card items < fuel"
  shows "set (walk (fetch_service e) fuel (default_cursor (ls_env e) None)) = items \<and>
    sorted_wrt (\<lambda>a b. document_key Sort_CreatedAt b < document_key Sort_CreatedAt a)
      (walk (fetch_service e) fuel (default_cursor (ls_env e) None))"
  using assms svc_docs.walk_visits_all [of e "default_cursor (ls_env e) None" fuel]
  by (simp add: svc_docs.below_def default_cursor_def NewBeginningCursor_def cursor_key_def)

theorem service_listing_complete_witness:
  "set (walk (fetch_service ((demo_listing 7)\<lparr>ls_levels := []\<rparr>))
      (Suc (card {x \<in> visible_documents 7 AllPermissions (store demo_db).
         document_key Sort_CreatedAt x < (1000, MaxDocumentID)})) (default_cursor demo_env None)) =
    {x \<in> visible_documents 7 AllPermissions (store demo_db).
       document_key Sort_CreatedAt x < (1000, MaxDocumentID)}"
proof -
  have "valid_service_listing ((demo_listing 7)\<lparr>ls_levels := []\<rparr>)"
    by (simp add: valid_service_listing_def demo_listing_def demo_conn_def demo_ok)
  from service_listing_complete [OF this refl lessI] show ?thesis
    by (simp add: demo_listing_def demo_conn_def default_levels_def demo_env_def concrete_env_def)
qed

end
